(* ===== verification/Prelude.thy ===== *)
theory Prelude
  imports Main "HOL-Library.Multiset" "HOL-Library.Sublist" "HOL-Library.List_Lexorder" "HOL-Library.Char_ord"
begin

text \<open>
  Shared vocabulary of the HRMS Lite model: the JavaScript idioms the pages use on
  strings and lists (truthiness of strings, \<open>a || b\<close>, \<open>x ?? d\<close>,
  \<open>toLowerCase\<close>, \<open>includes\<close>, \<open>slice\<close>), the list of in-flight requests
  every page keeps, and the lemma collections the component theories use.
\<close>

named_theorems page_simps "equations of the page step functions, unfolded by the component proofs"

subsection \<open>JavaScript strings\<close>

text \<open>
  JavaScript strings are modelled as \<open>string\<close>. The empty string is the only
  falsy string, so \<open>a || b\<close> on strings is \<open>js_or a b\<close>; an absent value
  (\<open>undefined\<close>, \<open>null\<close>) is \<open>None\<close>, and \<open>x ?? d\<close> is
  \<open>js_nullish x d\<close>.
\<close>

definition js_or :: "string \<Rightarrow> string \<Rightarrow> string" where
  "js_or a b = (if a = [] then b else a)"

definition js_or_opt :: "string option \<Rightarrow> string \<Rightarrow> string" where
  "js_or_opt a b = (case a of None \<Rightarrow> b | Some s \<Rightarrow> js_or s b)"

definition js_nullish :: "'a option \<Rightarrow> 'a \<Rightarrow> 'a" where
  "js_nullish x d = (case x of None \<Rightarrow> d | Some v \<Rightarrow> v)"

text \<open>\<open>String.prototype.toLowerCase\<close> on the ASCII range: upper-case letters
  \<open>A\<close>..\<open>Z\<close> (code points 65..90) move up by 32; every other character is kept.\<close>

definition lower_char :: "char \<Rightarrow> char" where
  "lower_char c = (let n = (of_char c :: nat) in if 65 \<le> n \<and> n \<le> 90 then char_of (n + 32) else c)"

definition to_lower :: "string \<Rightarrow> string" where
  "to_lower s = map lower_char s"

text \<open>\<open>String.prototype.includes\<close> as the scan the engine performs: try the
  needle at every position of the haystack, left to right.\<close>

fun js_includes :: "string \<Rightarrow> string \<Rightarrow> bool" where
  "js_includes [] needle = (needle = [])"
| "js_includes (h # hs) needle = (prefix needle (h # hs) \<or> js_includes hs needle)"

text \<open>\<open>Array.prototype.slice(0, n)\<close>.\<close>

definition js_slice0 :: "nat \<Rightarrow> 'a list \<Rightarrow> 'a list" where
  "js_slice0 n xs = take n xs"

subsection \<open>In-flight requests\<close>

text \<open>
  Every page keeps the requests it has issued and whose promise has not settled yet
  as a list; a response may settle any of them, so a completion names the position
  of the request it settles. \<open>take_pending i ps\<close> is that request and the list
  without it, or \<open>None\<close> if there is no request at that position.
\<close>

definition remove_at :: "nat \<Rightarrow> 'a list \<Rightarrow> 'a list" where
  "remove_at i xs = take i xs @ drop (Suc i) xs"

definition take_pending :: "nat \<Rightarrow> 'a list \<Rightarrow> ('a \<times> 'a list) option" where
  "take_pending i xs = (if i < length xs then Some (xs ! i, remove_at i xs) else None)"

subsection \<open>Lemmas shared by the components\<close>

lemma js_or_empty [simp]: "js_or [] b = b"
  by (simp add: js_or_def)

lemma js_or_nonempty [simp]: "a \<noteq> [] \<Longrightarrow> js_or a b = a"
  by (simp add: js_or_def)

lemma js_or_opt_simps [simp]:
  "js_or_opt None b = b" "js_or_opt (Some s) b = js_or s b"
  by (simp_all add: js_or_opt_def)

lemma js_or_nonempty_result: "b \<noteq> [] \<Longrightarrow> js_or a b \<noteq> []"
  by (simp add: js_or_def)

lemma js_or_opt_nonempty_result: "b \<noteq> [] \<Longrightarrow> js_or_opt a b \<noteq> []"
  by (cases a) (simp_all add: js_or_nonempty_result)

lemma js_nullish_simps [simp]:
  "js_nullish None d = d" "js_nullish (Some v) d = v"
  by (simp_all add: js_nullish_def)

lemma length_to_lower [simp]: "length (to_lower s) = length s"
  by (simp add: to_lower_def)

lemma to_lower_simps [simp]:
  "to_lower [] = []" "to_lower (c # s) = lower_char c # to_lower s"
  by (simp_all add: to_lower_def)

lemma to_lower_append [simp]: "to_lower (a @ b) = to_lower a @ to_lower b"
  by (simp add: to_lower_def)

lemma lower_char_idem [simp]: "lower_char (lower_char c) = lower_char c"
  by (auto simp: lower_char_def Let_def)

lemma to_lower_idem [simp]: "to_lower (to_lower s) = to_lower s"
  by (induction s) simp_all

lemma js_includes_sublist: "js_includes hay needle = sublist needle hay"
  by (induction hay) (simp_all add: sublist_Cons_right)

lemma js_includes_Nil_needle [simp]: "js_includes hay []"
  by (simp add: js_includes_sublist)

lemma length_remove_at [simp]: "i < length xs \<Longrightarrow> length (remove_at i xs) = length xs - 1"
  by (simp add: remove_at_def)

lemma set_remove_at_subset: "set (remove_at i xs) \<subseteq> set xs"
  by (auto simp: remove_at_def dest: in_set_takeD in_set_dropD)

lemma mset_remove_at: "i < length xs \<Longrightarrow> mset xs = add_mset (xs ! i) (mset (remove_at i xs))"
proof -
  assume i: "i < length xs"
  have "xs = take i xs @ xs ! i # drop (Suc i) xs"
    using i by (simp add: id_take_nth_drop)
  then have "mset xs = mset (take i xs @ xs ! i # drop (Suc i) xs)" by simp
  also have "\<dots> = add_mset (xs ! i) (mset (remove_at i xs))"
    by (simp add: remove_at_def)
  finally show ?thesis .
qed

lemma take_pending_SomeD:
  "take_pending i xs = Some (p, ys) \<Longrightarrow> mset xs = add_mset p (mset ys)"
  by (auto simp: take_pending_def mset_remove_at split: if_splits)

lemma take_pending_set:
  "take_pending i xs = Some (p, ys) \<Longrightarrow> p \<in> set xs \<and> set ys \<subseteq> set xs"
  using set_remove_at_subset [of i xs] by (auto simp: take_pending_def split: if_splits)

lemma take_pending_mem:
  "take_pending i xs = Some (p, ys) \<Longrightarrow> q \<in> set ys \<Longrightarrow> q \<in> set xs"
  using take_pending_set [of i xs p ys] by blast

lemma take_pending_count:
  "take_pending i xs = Some (p, ys) \<Longrightarrow> count (mset xs) q = count (mset ys) q + (if q = p then 1 else 0)"
  by (drule take_pending_SomeD) simp

lemma take_pending_simps [simp]:
  "take_pending 0 (x # xs) = Some (x, xs)"
  "take_pending (Suc i) (x # xs) = map_option (\<lambda>(p, ys). (p, x # ys)) (take_pending i xs)"
  "take_pending i [] = None"
  by (simp_all add: take_pending_def remove_at_def)

lemma take_pending_at_length [simp]:
  "take_pending (length xs) (xs @ y # ys) = Some (y, xs @ ys)"
  by (simp add: take_pending_def remove_at_def)

lemma take_pending_at_Suc_length [simp]:
  "take_pending (Suc (length xs)) (xs @ x # y # ys) = Some (y, xs @ x # ys)"
  by (simp add: take_pending_def remove_at_def nth_append)

lemma take_pending_filter_length:
  assumes "take_pending k xs = Some (p, ys)"
  shows "length (filter P xs) = length (filter P ys) + (if P p then 1 else 0)"
proof -
  from assms have "mset xs = add_mset p (mset ys)" by (rule take_pending_SomeD)
  then have "mset (filter P xs) = mset (filter P ys) + (if P p then {#p#} else {#})"
    by (simp add: mset_filter)
  then have "size (mset (filter P xs)) = size (mset (filter P ys)) + (if P p then 1 else 0)"
    by simp
  then show ?thesis by (simp only: size_mset)
qed

lemma take_pending_list_ex:
  assumes "take_pending k xs = Some (p, ys)" and "\<not> P p"
  shows "list_ex P ys = list_ex P xs"
proof -
  have "length (filter P xs) = length (filter P ys)"
    using take_pending_filter_length [OF assms(1), of P] assms(2) by simp
  then have "(filter P ys = []) = (filter P xs = [])" by (metis length_0_conv)
  then show ?thesis by (auto simp: list_ex_iff filter_empty_conv)
qed

lemma list_all_take_pending:
  "take_pending k xs = Some (p, ys) \<Longrightarrow> list_all P xs \<Longrightarrow> P p \<and> list_all P ys"
  using take_pending_set [of k xs p ys] by (auto simp: list_all_iff)

lemma take_pending_mem_other:
  assumes "take_pending k xs = Some (p, ys)" and "q \<noteq> p"
  shows "q \<in> set ys \<longleftrightarrow> q \<in> set xs"
proof -
  have "count (mset xs) q = count (mset ys) q"
    using take_pending_count [OF assms(1), of q] assms(2) by simp
  then show ?thesis by (metis count_mset_0_iff)
qed

lemma take_pending_sum:
  assumes "take_pending k xs = Some (p, ys)"
  shows "sum_list (map (f :: _ \<Rightarrow> nat) xs) = f p + sum_list (map f ys)"
proof -
  have "sum_list (map f xs) = sum_mset (image_mset f (mset xs))"
    by (simp add: sum_mset_sum_list [symmetric])
  also have "\<dots> = f p + sum_mset (image_mset f (mset ys))"
    using take_pending_SomeD [OF assms] by simp
  also have "\<dots> = f p + sum_list (map f ys)"
    by (simp add: sum_mset_sum_list [symmetric])
  finally show ?thesis .
qed

lemma list_ex_filter_length: "list_ex P xs = (0 < length (filter P xs))"
  by (induction xs) auto

lemma subseq_filter_mono: "(\<And>x. P x \<Longrightarrow> Q x) \<Longrightarrow> subseq (filter P xs) (filter Q xs)"
  by (induction xs) auto

end
