(* ===== verification/Api.thy ===== *)
theory Api
  imports Prelude
begin

text \<open>
  The HTTP client of \<open>src/frontend/src/api/api.js\<close> and the data it carries.
  The entities are those the backend sends and receives (spec section 3); each exported
  request function of \<open>api.js\<close> is a definition building the request it sends, and
  \<open>api_call\<close> is the interface the pages and the backend agree on. The backend's
  route table (spec section 6) is \<open>route\<close>, which reads a request back into a call
  from what reaches the server after axios, the browser's URL parser and the server's
  decoding (\<open>url_parts\<close>); these are modelled from the standards and the spec, the
  backend not being part of the repository.
\<close>

subsection \<open>Entities\<close>

record employee =
  employee_id :: string
  full_name :: string
  email :: string
  department :: string

datatype att_status = Present | Absent

definition status_name :: "att_status \<Rightarrow> string" where
  "status_name st = (case st of Present \<Rightarrow> ''Present'' | Absent \<Rightarrow> ''Absent'')"

record att_record =
  rec_id :: nat
  rec_employee :: string
  rec_date :: string
  rec_status :: att_status

record att_summary =
  total_days :: nat
  present_days :: nat
  absent_days :: nat

record dash_stats =
  total_employees :: nat
  departments :: nat
  present_today :: nat
  absent_today :: nat

subsection \<open>Requests\<close>

datatype http_method = GET | POST | DELETE

datatype payload = NoBody | EmployeeBody employee | MarkBody string string att_status

record request =
  req_method :: http_method
  req_path :: string
  req_params :: "(string \<times> string) list"
  req_body :: payload

text \<open>The axios instance: base URL from \<open>VITE_API_URL\<close> when it is set and
  non-empty, JSON content type on every request.\<close>

definition api_base :: "string option \<Rightarrow> string" where
  "api_base env = js_or_opt env ''http://localhost:8000''"

definition api_headers :: "(string \<times> string) list" where
  "api_headers = [(''Content-Type'', ''application/json'')]"

definition getEmployees :: request where
  "getEmployees = \<lparr>req_method = GET, req_path = ''/employees/'', req_params = [], req_body = NoBody\<rparr>"

definition addEmployee :: "employee \<Rightarrow> request" where
  "addEmployee e = \<lparr>req_method = POST, req_path = ''/employees/'', req_params = [],
                    req_body = EmployeeBody e\<rparr>"

definition deleteEmployee :: "string \<Rightarrow> request" where
  "deleteEmployee i = \<lparr>req_method = DELETE, req_path = ''/employees/'' @ i, req_params = [],
                       req_body = NoBody\<rparr>"

text \<open>\<open>getAttendance(empId, date)\<close> sends the \<open>date\<close> parameter only when
  \<open>date\<close> is truthy: absent (\<open>None\<close>, JavaScript's \<open>undefined\<close>) and the
  empty string send none.\<close>

definition getAttendance :: "string \<Rightarrow> string option \<Rightarrow> request" where
  "getAttendance emp date = \<lparr>req_method = GET, req_path = ''/attendance/'' @ emp,
      req_params = (case date of None \<Rightarrow> [] | Some d \<Rightarrow> if d = [] then [] else [(''date'', d)]),
      req_body = NoBody\<rparr>"

definition markAttendance :: "string \<Rightarrow> string \<Rightarrow> att_status \<Rightarrow> request" where
  "markAttendance emp d st = \<lparr>req_method = POST, req_path = ''/attendance/'', req_params = [],
      req_body = MarkBody emp d st\<rparr>"

definition getAttendanceSummary :: "string \<Rightarrow> request" where
  "getAttendanceSummary emp = \<lparr>req_method = GET, req_path = ''/attendance/summary/'' @ emp,
      req_params = [], req_body = NoBody\<rparr>"

definition getDashboardStats :: request where
  "getDashboardStats = \<lparr>req_method = GET, req_path = ''/dashboard/stats'', req_params = [],
      req_body = NoBody\<rparr>"

subsection \<open>The interface: backend operations\<close>

datatype api_call =
    GetEmployees
  | AddEmployee employee
  | DeleteEmployee string
  | GetAttendance string "string option"
  | MarkAttendance string string att_status
  | GetAttendanceSummary string
  | GetDashboardStats

fun request_of :: "api_call \<Rightarrow> request" where
  "request_of GetEmployees = getEmployees"
| "request_of (AddEmployee e) = addEmployee e"
| "request_of (DeleteEmployee i) = deleteEmployee i"
| "request_of (GetAttendance emp d) = getAttendance emp d"
| "request_of (MarkAttendance emp d st) = markAttendance emp d st"
| "request_of (GetAttendanceSummary emp) = getAttendanceSummary emp"
| "request_of GetDashboardStats = getDashboardStats"

subsection \<open>The backend's router (spec section 6)\<close>

text \<open>A request's URL passes through three hands before the router reads it. axios
  appends the parameters: when there are any it first cuts the URL at \<open>#\<close>, then
  joins them with \<open>?\<close> (or \<open>&\<close> when the URL holds a \<open>?\<close> already), encoding
  their values so that the server reads them back as they were. The browser parses the URL
  (WHATWG URL standard, special scheme): it strips trailing spaces and control characters,
  removes tabs and newlines, drops the fragment from \<open>#\<close> on, splits the query off at
  the first \<open>?\<close>, reads a backslash in the path as \<open>/\<close> and resolves the dot
  segments (\<open>.\<close>, \<open>..\<close> and their percent-encoded spellings); the characters it
  percent-encodes in the path the server decodes back. The server (the default base URL is
  uvicorn's port, a Starlette application) percent-decodes the path before it matches the
  routes, so an encoded \<open>/\<close> separates segments, and parses the query into pairs,
  the last value of a repeated key winning. Decoded bytes are read as single characters.\<close>

fun split_on :: "char \<Rightarrow> string \<Rightarrow> string list" where
  "split_on c [] = [[]]"
| "split_on c (x # xs) =
     (if x = c then [] # split_on c xs
      else (case split_on c xs of w # ws \<Rightarrow> (x # w) # ws | [] \<Rightarrow> [[x]]))"

definition strip_end :: "string \<Rightarrow> string" where
  "strip_end s = rev (dropWhile (\<lambda>c. (of_char c :: nat) \<le> 32) (rev s))"

definition browser_split :: "string \<Rightarrow> string \<times> string" where
  "browser_split u =
     (let v = filter (\<lambda>c. c \<notin> set [CHR 0x09, CHR 0x0A, CHR 0x0D]) u;
          w = takeWhile (\<lambda>c. c \<noteq> CHR ''#'') v
      in (takeWhile (\<lambda>c. c \<noteq> CHR ''?'') w, drop 1 (dropWhile (\<lambda>c. c \<noteq> CHR ''?'') w)))"

definition single_dot_segments :: "string list" where
  "single_dot_segments = [''.'', ''%2e'', ''%2E'']"

definition double_dot_segments :: "string list" where
  "double_dot_segments = [''..'', ''.%2e'', ''.%2E'', ''%2e.'', ''%2E.'', ''%2e%2e'', ''%2e%2E'',
                          ''%2E%2e'', ''%2E%2E'']"

text \<open>Dot-segment removal of the URL standard's path state: \<open>..\<close> drops the segment
  before it, \<open>.\<close> is dropped, and either one ending the path leaves it ending in
  \<open>/\<close>.\<close>

fun remove_dots :: "string list \<Rightarrow> string list \<Rightarrow> string list" where
  "remove_dots out [] = rev out"
| "remove_dots out (s # ss) =
     (if s \<in> set double_dot_segments then
        (if ss = [] then rev ([] # drop 1 out) else remove_dots (drop 1 out) ss)
      else if s \<in> set single_dot_segments then
        (if ss = [] then rev ([] # out) else remove_dots out ss)
      else remove_dots (s # out) ss)"

definition join_path :: "string list \<Rightarrow> string" where
  "join_path segs = (if segs = [] then ''/'' else concat (map (\<lambda>s. CHR ''/'' # s) segs))"

definition browser_path :: "string \<Rightarrow> string" where
  "browser_path p =
     join_path (remove_dots [] (tl (split_on CHR ''/'' (map (\<lambda>c. if c = CHR 0x5C then CHR ''/'' else c) p))))"

definition hex_val :: "char \<Rightarrow> nat option" where
  "hex_val c = (let n = (of_char c :: nat) in
                if 48 \<le> n \<and> n \<le> 57 then Some (n - 48)
                else if 65 \<le> n \<and> n \<le> 70 then Some (n - 55)
                else if 97 \<le> n \<and> n \<le> 102 then Some (n - 87) else None)"

fun percent_decode :: "string \<Rightarrow> string" where
  "percent_decode (c # h1 # h2 # rest) =
     (case (hex_val h1, hex_val h2) of
        (Some a, Some b) \<Rightarrow>
          if c = CHR ''%'' then char_of (16 * a + b) # percent_decode rest
          else c # percent_decode (h1 # h2 # rest)
      | _ \<Rightarrow> c # percent_decode (h1 # h2 # rest))"
| "percent_decode cs = cs"

definition form_decode :: "string \<Rightarrow> string" where
  "form_decode s = percent_decode (map (\<lambda>c. if c = CHR ''+'' then CHR '' '' else c) s)"

definition query_pairs :: "string \<Rightarrow> (string \<times> string) list" where
  "query_pairs q =
     map (\<lambda>kv. (form_decode (takeWhile (\<lambda>c. c \<noteq> CHR ''='') kv),
                form_decode (drop 1 (dropWhile (\<lambda>c. c \<noteq> CHR ''='') kv))))
         (filter (\<lambda>kv. kv \<noteq> []) (split_on CHR ''&'' q))"

text \<open>What the router sees of a request: the decoded path split at \<open>/\<close>, and the
  query's pairs followed by the parameters axios appended.\<close>

definition url_parts :: "request \<Rightarrow> string list \<times> (string \<times> string) list" where
  "url_parts r =
     (case browser_split (if req_params r = [] then strip_end (req_path r) else req_path r) of
        (p, q) \<Rightarrow> (split_on CHR ''/'' (percent_decode (browser_path p)), query_pairs q @ req_params r))"

definition route :: "request \<Rightarrow> api_call option" where
  "route r =
    (let m = req_method r; ss = fst (url_parts r); qs = snd (url_parts r) in
     if m = GET \<and> ss = ['''', ''employees'', ''''] then Some GetEmployees
     else if m = POST \<and> ss = ['''', ''employees'', ''''] then
       (case req_body r of EmployeeBody e \<Rightarrow> Some (AddEmployee e) | _ \<Rightarrow> None)
     else if m = DELETE \<and> length ss = 3 \<and> ss ! 0 = [] \<and> ss ! 1 = ''employees'' \<and> ss ! 2 \<noteq> []
       then Some (DeleteEmployee (ss ! 2))
     else if m = GET \<and> length ss = 4 \<and> ss ! 0 = [] \<and> ss ! 1 = ''attendance''
             \<and> ss ! 2 = ''summary'' \<and> ss ! 3 \<noteq> []
       then Some (GetAttendanceSummary (ss ! 3))
     else if m = POST \<and> ss = ['''', ''attendance'', ''''] then
       (case req_body r of MarkBody e d st \<Rightarrow> Some (MarkAttendance e d st) | _ \<Rightarrow> None)
     else if m = GET \<and> length ss = 3 \<and> ss ! 0 = [] \<and> ss ! 1 = ''attendance'' \<and> ss ! 2 \<noteq> []
       then Some (GetAttendance (ss ! 2) (map_of (rev qs) ''date''))
     else if m = GET \<and> ss = ['''', ''dashboard'', ''stats''] then Some GetDashboardStats
     else None)"

text \<open>A path segment no step of that chain alters: a string of the URL's unreserved
  characters (RFC 3986: letters, digits, \<open>-\<close>, \<open>.\<close>, \<open>_\<close>, \<open>~\<close>) that is
  not a dot segment. An identifier is URL-safe when it is such a segment and non-empty.\<close>

definition url_unreserved :: string where
  "url_unreserved = ''ABCDEFGHIJKLMNOPQRSTUVWXYZabcdefghijklmnopqrstuvwxyz0123456789-._~''"

definition seg_ok :: "string \<Rightarrow> bool" where
  "seg_ok s = (s \<notin> set [''.'', ''..''] \<and> list_all (\<lambda>c. c \<in> set url_unreserved) s)"

definition url_safe :: "string \<Rightarrow> bool" where
  "url_safe s = (s \<noteq> [] \<and> seg_ok s)"

definition path_of :: "string list \<Rightarrow> string" where
  "path_of segs = concat (map (\<lambda>w. CHR ''/'' # w) segs)"

definition plain_seg :: "string \<Rightarrow> bool" where
  "plain_seg s = (s \<notin> set double_dot_segments \<and> s \<notin> set single_dot_segments \<and>
     list_all (\<lambda>c. 32 < (of_char c :: nat) \<and>
                    c \<notin> set [CHR ''/'', CHR ''?'', CHR ''#'', CHR 0x5C, CHR 0x09, CHR 0x0A, CHR 0x0D]) s)"

fun call_url_safe :: "api_call \<Rightarrow> bool" where
  "call_url_safe (DeleteEmployee i) = url_safe i"
| "call_url_safe (GetAttendance e _) = url_safe e"
| "call_url_safe (GetAttendanceSummary e) = url_safe e"
| "call_url_safe _ = True"

text \<open>The call the backend sees: an empty date is not sent.\<close>

fun norm_call :: "api_call \<Rightarrow> api_call" where
  "norm_call (GetAttendance e (Some d)) = GetAttendance e (if d = [] then None else Some d)"
| "norm_call c = c"

subsection \<open>Lemmas\<close>

lemma status_name_simps [simp]:
  "status_name Present = ''Present''" "status_name Absent = ''Absent''"
  by (simp_all add: status_name_def)

lemma status_name_inj: "status_name a = status_name b \<longleftrightarrow> a = b"
  by (cases a; cases b) simp_all

lemma unreserved_char:
  "c \<in> set url_unreserved \<Longrightarrow>
     32 < (of_char c :: nat) \<and> c \<notin> set [CHR ''/'', CHR ''?'', CHR ''#'', CHR ''%'', CHR 0x5C, CHR 0x09, CHR 0x0A, CHR 0x0D]"
  by (auto simp: url_unreserved_def)

lemma split_on_sep_free: "w \<in> set (split_on c s) \<Longrightarrow> c \<notin> set w"
proof (induction s arbitrary: w)
  case (Cons x xs)
  then show ?case by (auto split: if_splits list.splits)
qed simp

lemma split_on_no_sep [simp]: "c \<notin> set w \<Longrightarrow> split_on c w = [w]"
  by (induction w) auto

lemma split_on_append_sep:
  "c \<notin> set w \<Longrightarrow> split_on c (w @ c # rest) = w # split_on c rest"
  by (induction w) auto

lemma split_on_join:
  "c \<notin> set s \<Longrightarrow> list_all (\<lambda>w. c \<notin> set w) ss \<Longrightarrow>
     split_on c (s @ concat (map (\<lambda>w. c # w) ss)) = s # ss"
proof (induction ss arbitrary: s)
  case (Cons t ts)
  then show ?case by (simp add: split_on_append_sep)
qed simp

lemma remove_dots_id:
  "list_all (\<lambda>s. s \<notin> set double_dot_segments \<and> s \<notin> set single_dot_segments) ss \<Longrightarrow>
     remove_dots out ss = rev out @ ss"
  by (induction out ss rule: remove_dots.induct) auto

lemma percent_decode_id: "CHR ''%'' \<notin> set s \<Longrightarrow> percent_decode s = s"
  by (induction s rule: percent_decode.induct) (auto split: option.splits)

lemma seg_ok_not_dot:
  "seg_ok s \<Longrightarrow> s \<notin> set double_dot_segments \<and> s \<notin> set single_dot_segments"
  by (auto simp: seg_ok_def double_dot_segments_def single_dot_segments_def url_unreserved_def)

lemma seg_ok_chars: "seg_ok s \<Longrightarrow> c \<in> set s \<Longrightarrow> c \<in> set url_unreserved"
  by (auto simp: seg_ok_def list_all_iff)

lemma strip_end_id: "\<forall>c \<in> set P. 32 < (of_char c :: nat) \<Longrightarrow> strip_end P = P"
  by (cases "rev P") (auto simp: strip_end_def dest: arg_cong [of _ _ set])

lemma strip_end_keep:
  "32 < (of_char x :: nat) \<Longrightarrow> \<exists>q'. strip_end (P @ x # q) = P @ x # q'"
proof (cases "\<forall>c \<in> set q. (of_char c :: nat) \<le> 32")
  case True
  assume x: "32 < (of_char x :: nat)"
  have "dropWhile (\<lambda>c. (of_char c :: nat) \<le> 32) (rev q @ x # rev P)
          = dropWhile (\<lambda>c. (of_char c :: nat) \<le> 32) (x # rev P)"
    by (rule dropWhile_append2) (use True in auto)
  then show ?thesis using x by (simp add: strip_end_def)
next
  case False
  then obtain c where c: "c \<in> set (rev q)" "\<not> (of_char c :: nat) \<le> 32" by auto
  then have "dropWhile (\<lambda>c. (of_char c :: nat) \<le> 32) (rev q @ x # rev P)
               = dropWhile (\<lambda>c. (of_char c :: nat) \<le> 32) (rev q) @ x # rev P"
    by (rule dropWhile_append1)
  then show ?thesis by (simp add: strip_end_def)
qed

lemma seg_ok_plain: "seg_ok s \<Longrightarrow> plain_seg s"
  using seg_ok_not_dot [of s] unreserved_char by (fastforce simp: plain_seg_def list_all_iff dest: seg_ok_chars)

lemma path_of_plain_chars:
  "list_all plain_seg segs \<Longrightarrow> c \<in> set (path_of segs) \<Longrightarrow>
     32 < (of_char c :: nat) \<and> c \<notin> set [CHR ''?'', CHR ''#'', CHR 0x5C, CHR 0x09, CHR 0x0A, CHR 0x0D]"
  by (fastforce simp: path_of_def plain_seg_def list_all_iff split: if_splits)

lemma path_of_plain:
  assumes ok: "list_all plain_seg segs" and ne: "segs \<noteq> []"
  shows "strip_end (path_of segs) = path_of segs"
    and "browser_split (path_of segs) = (path_of segs, [])"
    and "browser_path (path_of segs) = path_of segs"
    and "split_on CHR ''/'' (path_of segs) = [] # segs"
proof -
  have ch: "c \<in> set (path_of segs) \<Longrightarrow>
      32 < (of_char c :: nat) \<and> c \<notin> set [CHR ''?'', CHR ''#'', CHR 0x5C, CHR 0x09, CHR 0x0A, CHR 0x0D]" for c
    using path_of_plain_chars [OF ok] .
  then show "strip_end (path_of segs) = path_of segs" by (intro strip_end_id) blast
  have ch': "\<forall>c \<in> set (path_of segs). c \<noteq> CHR ''?'' \<and> c \<noteq> CHR ''#'' \<and> c \<noteq> CHR 0x09
                   \<and> c \<noteq> CHR 0x0A \<and> c \<noteq> CHR 0x0D"
    using ch by fastforce
  show "browser_split (path_of segs) = (path_of segs, [])"
  proof -
    have t1: "takeWhile (\<lambda>c. c \<noteq> CHR ''#'') (path_of segs) = path_of segs"
      using ch' by (simp add: takeWhile_eq_all_conv)
    have t2: "takeWhile (\<lambda>c. c \<noteq> CHR ''?'') (path_of segs) = path_of segs"
      using ch' by (simp add: takeWhile_eq_all_conv)
    have d: "dropWhile (\<lambda>c. c \<noteq> CHR ''?'') (path_of segs) = []"
      using ch' by (simp add: dropWhile_eq_Nil_conv)
    show ?thesis using ch' by (simp add: browser_split_def Let_def filter_id_conv t1 t2 d)
  qed
  have m: "map (\<lambda>c. if c = CHR 0x5C then CHR ''/'' else c) (path_of segs) = path_of segs"
    using ch by (auto intro: map_idI)
  have sep: "list_all (\<lambda>w. CHR ''/'' \<notin> set w) segs"
    using ok by (fastforce simp: list_all_iff plain_seg_def)
  show sp: "split_on CHR ''/'' (path_of segs) = [] # segs"
    using split_on_join [OF _ sep, of "[]"] by (simp add: path_of_def)
  have rd: "remove_dots [] segs = segs"
    using ok by (simp add: remove_dots_id list_all_iff plain_seg_def)
  show "browser_path (path_of segs) = path_of segs"
    unfolding browser_path_def m sp using ne by (simp add: rd join_path_def path_of_def)
qed

lemma path_of_safe:
  assumes ok: "list_all seg_ok segs" and ne: "segs \<noteq> []"
  shows "split_on CHR ''/'' (percent_decode (browser_path (path_of segs))) = [] # segs"
proof -
  have pl: "list_all plain_seg segs" using ok by (simp add: list_all_iff seg_ok_plain)
  have "CHR ''%'' \<notin> set (path_of segs)"
    using ok by (fastforce simp: path_of_def list_all_iff seg_ok_def url_unreserved_def split: if_splits)
  then show ?thesis by (simp add: path_of_plain [OF pl ne] percent_decode_id)
qed

lemma url_parts_fst:
  "fst (url_parts r) = split_on CHR ''/'' (percent_decode (browser_path
     (fst (browser_split (if req_params r = [] then strip_end (req_path r) else req_path r)))))"
  by (simp add: url_parts_def split: prod.split)

lemma url_parts_safe:
  assumes "list_all seg_ok segs" and "segs \<noteq> []" and "req_path r = path_of segs"
  shows "url_parts r = ([] # segs, req_params r)"
proof -
  have pl: "list_all plain_seg segs" using assms(1) by (simp add: list_all_iff seg_ok_plain)
  show ?thesis
    using assms path_of_safe [OF assms(1,2)] path_of_plain [OF pl assms(2)]
    by (simp add: url_parts_def query_pairs_def)
qed

lemma percent_decode_Cons: "CHR ''%'' \<noteq> c \<Longrightarrow> percent_decode (c # cs) = c # percent_decode cs"
  by (cases cs rule: percent_decode.cases) (auto split: option.splits)

lemma percent_decode_append:
  "CHR ''%'' \<notin> set xs \<Longrightarrow> percent_decode (xs @ ys) = xs @ percent_decode ys"
  by (induction xs) (simp_all add: percent_decode_Cons)

lemma hex_val_plain:
  "hex_val h = Some a \<Longrightarrow>
     32 < (of_char h :: nat) \<and> h \<notin> set [CHR ''/'', CHR ''?'', CHR ''#'', CHR 0x5C, CHR 0x09, CHR 0x0A, CHR 0x0D]"
  by (auto simp: hex_val_def Let_def split: if_splits)

lemma hex_digit_not_dot:
  "hex_val h = Some b \<Longrightarrow> b < 10 \<Longrightarrow> h \<notin> set [CHR ''.'', CHR ''e'', CHR ''E'']"
  by (auto simp: hex_val_def)

lemma not_dot_by_last:
  "s \<noteq> [] \<Longrightarrow> last s \<notin> set [CHR ''.'', CHR ''e'', CHR ''E''] \<Longrightarrow>
     s \<notin> set double_dot_segments \<and> s \<notin> set single_dot_segments"
  by (auto simp: double_dot_segments_def single_dot_segments_def)

lemma browser_split_cut:
  assumes "\<forall>c \<in> set P. c \<notin> set [CHR 0x09, CHR 0x0A, CHR 0x0D, CHR ''?'', CHR ''#'']"
    and "x \<in> {CHR ''?'', CHR ''#''}"
  shows "fst (browser_split (P @ x # q)) = P"
proof -
  have f: "filter (\<lambda>c. c \<noteq> CHR 0x09 \<and> c \<noteq> CHR 0x0A \<and> c \<noteq> CHR 0x0D) P = P"
    using assms(1) by (auto simp: filter_id_conv)
  have t: "takeWhile (\<lambda>c. c \<noteq> CHR ''#'') (P @ r) = P @ takeWhile (\<lambda>c. c \<noteq> CHR ''#'') r" for r
    using assms(1) by (intro takeWhile_append2) auto
  have t': "takeWhile (\<lambda>c. c \<noteq> CHR ''?'') (P @ r) = P @ takeWhile (\<lambda>c. c \<noteq> CHR ''?'') r" for r
    using assms(1) by (intro takeWhile_append2) auto
  show ?thesis using assms(2) by (auto simp: browser_split_def Let_def f t t')
qed

lemmas request_defs = getEmployees_def addEmployee_def deleteEmployee_def getAttendance_def
  markAttendance_def getAttendanceSummary_def getDashboardStats_def

lemma request_fields [simp]:
  "req_method getEmployees = GET" "req_params getEmployees = []"
  "req_method (addEmployee e) = POST" "req_body (addEmployee e) = EmployeeBody e"
  "req_params (addEmployee e) = []"
  "req_method (deleteEmployee i) = DELETE" "req_params (deleteEmployee i) = []"
  "req_method (getAttendance emp d) = GET"
  "req_params (getAttendance emp d) = (case d of None \<Rightarrow> [] | Some x \<Rightarrow> if x = [] then [] else [(''date'', x)])"
  "req_method (markAttendance emp x st) = POST" "req_body (markAttendance emp x st) = MarkBody emp x st"
  "req_params (markAttendance emp x st) = []"
  "req_method (getAttendanceSummary emp) = GET" "req_params (getAttendanceSummary emp) = []"
  "req_method getDashboardStats = GET" "req_params getDashboardStats = []"
  by (simp_all add: request_defs)

lemma url_safe_nonempty: "url_safe e \<Longrightarrow> e \<noteq> []"
  by (simp add: url_safe_def)

lemma url_safe_segs:
  "url_safe e \<Longrightarrow> list_all seg_ok [''employees'', e] \<and> list_all seg_ok [''attendance'', e]
                   \<and> list_all seg_ok [''attendance'', ''summary'', e]"
  by (simp add: url_safe_def seg_ok_def url_unreserved_def)

lemma url_parts_client [simp]:
  "url_parts getEmployees = ([[], ''employees'', []], [])"
  "url_parts (addEmployee f) = ([[], ''employees'', []], [])"
  "url_parts (markAttendance emp x st) = ([[], ''attendance'', []], [])"
  "url_parts getDashboardStats = ([[], ''dashboard'', ''stats''], [])"
  "url_safe e \<Longrightarrow> url_parts (deleteEmployee e) = ([[], ''employees'', e], [])"
  "url_safe e \<Longrightarrow> url_parts (getAttendance e d) = ([[], ''attendance'', e], req_params (getAttendance e d))"
  "url_safe e \<Longrightarrow> url_parts (getAttendanceSummary e) = ([[], ''attendance'', ''summary'', e], [])"
proof -
  have c: "list_all seg_ok [''employees'', []]" "list_all seg_ok [''attendance'', []]"
    "list_all seg_ok [''dashboard'', ''stats'']"
    by (simp_all add: seg_ok_def url_unreserved_def)
  show "url_parts getEmployees = ([[], ''employees'', []], [])"
    using url_parts_safe [OF c(1), of getEmployees] by (simp add: getEmployees_def path_of_def)
  show "url_parts (addEmployee f) = ([[], ''employees'', []], [])"
    using url_parts_safe [OF c(1), of "addEmployee f"] by (simp add: addEmployee_def path_of_def)
  show "url_parts (markAttendance emp x st) = ([[], ''attendance'', []], [])"
    using url_parts_safe [OF c(2), of "markAttendance emp x st"] by (simp add: markAttendance_def path_of_def)
  show "url_parts getDashboardStats = ([[], ''dashboard'', ''stats''], [])"
    using url_parts_safe [OF c(3), of getDashboardStats] by (simp add: getDashboardStats_def path_of_def)
  assume u: "url_safe e"
  note s = url_safe_segs [OF u]
  show "url_parts (deleteEmployee e) = ([[], ''employees'', e], [])"
    using url_parts_safe [OF conjunct1 [OF s], of "deleteEmployee e"] by (simp add: deleteEmployee_def path_of_def)
  show "url_parts (getAttendance e d) = ([[], ''attendance'', e], req_params (getAttendance e d))"
    using url_parts_safe [OF conjunct1 [OF conjunct2 [OF s]], of "getAttendance e d"]
    by (simp add: getAttendance_def path_of_def)
  show "url_parts (getAttendanceSummary e) = ([[], ''attendance'', ''summary'', e], [])"
    using url_parts_safe [OF conjunct2 [OF conjunct2 [OF s]], of "getAttendanceSummary e"]
    by (simp add: getAttendanceSummary_def path_of_def)
qed

lemma url_parts_cut:
  assumes ok: "list_all seg_ok segs" and ne: "segs \<noteq> []" and pr: "req_params r = []"
    and rp: "req_path r = path_of segs @ x # q" and x: "x \<in> {CHR ''?'', CHR ''#''}"
  shows "fst (url_parts r) = [] # segs"
proof -
  have pl: "list_all plain_seg segs" using ok by (simp add: list_all_iff seg_ok_plain)
  have "32 < (of_char x :: nat)" using x by auto
  then obtain q' where st: "strip_end (path_of segs @ x # q) = path_of segs @ x # q'"
    using strip_end_keep by blast
  have "\<forall>c \<in> set (path_of segs). c \<notin> set [CHR 0x09, CHR 0x0A, CHR 0x0D, CHR ''?'', CHR ''#'']"
    using path_of_plain_chars [OF pl] by fastforce
  then have "fst (browser_split (path_of segs @ x # q')) = path_of segs" using x by (rule browser_split_cut)
  then show ?thesis using path_of_safe [OF ok ne] by (simp add: url_parts_fst pr rp st)
qed

lemma url_parts_percent:
  assumes "url_safe p" and h1: "hex_val h1 = Some a" and h2: "hex_val h2 = Some b" and "b < 10"
    and d: "char_of (16 * a + b) \<noteq> CHR ''/''"
  shows "fst (url_parts (deleteEmployee (p @ [CHR ''%'', h1, h2]))) = [[], ''employees'', p @ [char_of (16 * a + b)]]"
proof -
  let ?s = "p @ [CHR ''%'', h1, h2]" and ?d = "char_of (16 * a + b) :: char"
  have ok: "list_all seg_ok [''employees'', p]" using url_safe_segs [OF assms(1)] by simp
  have pp: "plain_seg p" and pe: "plain_seg ''employees''" using ok by (simp_all add: seg_ok_plain)
  have "plain_seg ?s"
    using pp hex_val_plain [OF h1] hex_val_plain [OF h2] not_dot_by_last [of ?s]
          hex_digit_not_dot [OF h2 assms(4)]
    by (simp add: plain_seg_def)
  with pe have pl: "list_all plain_seg [''employees'', ?s]" by simp
  have nop: "CHR ''%'' \<notin> set (''/employees/'' @ p)"
    using ok by (fastforce simp: list_all_iff seg_ok_def url_unreserved_def)
  have dec: "percent_decode (path_of [''employees'', ?s]) = path_of [''employees'', p @ [?d]]"
  proof -
    have "path_of [''employees'', ?s] = (''/employees/'' @ p) @ [CHR ''%'', h1, h2]"
      by (simp add: path_of_def)
    moreover have "percent_decode [CHR ''%'', h1, h2] = [?d]"
      using h1 h2 by simp
    ultimately show ?thesis using percent_decode_append [OF nop, of "[CHR ''%'', h1, h2]"]
      by (simp add: path_of_def)
  qed
  have sep: "list_all (\<lambda>w. CHR ''/'' \<notin> set w) [''employees'', p @ [?d]]"
    using pp d by (auto simp: plain_seg_def list_all_iff)
  have sp: "split_on CHR ''/'' (path_of [''employees'', p @ [?d]]) = [[], ''employees'', p @ [?d]]"
    using split_on_join [OF _ sep, of "[]"] by (simp add: path_of_def)
  have rp: "req_path (deleteEmployee ?s) = path_of [''employees'', ?s]"
    by (simp add: deleteEmployee_def path_of_def)
  have "fst (url_parts (deleteEmployee ?s))
          = split_on CHR ''/'' (percent_decode (browser_path (fst (browser_split (strip_end (path_of [''employees'', ?s]))))))"
    unfolding url_parts_fst rp by simp
  also have "\<dots> = split_on CHR ''/'' (percent_decode (path_of [''employees'', ?s]))"
    using path_of_plain [OF pl list.simps(3)] by (simp only: fst_conv)
  also have "\<dots> = [[], ''employees'', p @ [?d]]"
    by (simp only: dec sp)
  finally show ?thesis .
qed

lemma route_delete_target:
  assumes "route (deleteEmployee i) = Some (DeleteEmployee x)"
  shows "x \<in> set (fst (url_parts (deleteEmployee i)))"
proof -
  obtain ss qs where u: "url_parts (deleteEmployee i) = (ss, qs)" by fastforce
  from assms have "length ss = 3 \<and> x = ss ! 2"
    by (simp add: route_def Let_def u split: if_splits)
  then show ?thesis by (simp add: u)
qed

lemma route_cut:
  assumes u: "url_safe p" and x: "x \<in> {CHR ''?'', CHR ''#''}"
  shows "\<exists>d. route (getAttendance (p @ x # q) None) = Some (GetAttendance p d)"
    and "route (getAttendanceSummary (p @ x # q)) = Some (GetAttendanceSummary p)"
proof -
  note s = url_safe_segs [OF u]
  have "req_path (getAttendance (p @ x # q) None) = path_of [''attendance'', p] @ x # q"
    by (simp add: getAttendance_def path_of_def)
  then have "fst (url_parts (getAttendance (p @ x # q) None)) = [[], ''attendance'', p]"
    using url_parts_cut [OF conjunct1 [OF conjunct2 [OF s]] _ _ _ x] by simp
  then show "\<exists>d. route (getAttendance (p @ x # q) None) = Some (GetAttendance p d)"
    using url_safe_nonempty [OF u] by (simp add: route_def)
  have "req_path (getAttendanceSummary (p @ x # q)) = path_of [''attendance'', ''summary'', p] @ x # q"
    by (simp add: getAttendanceSummary_def path_of_def)
  then have "fst (url_parts (getAttendanceSummary (p @ x # q))) = [[], ''attendance'', ''summary'', p]"
    using url_parts_cut [OF conjunct2 [OF conjunct2 [OF s]] _ _ _ x] by simp
  then show "route (getAttendanceSummary (p @ x # q)) = Some (GetAttendanceSummary p)"
    using url_safe_nonempty [OF u] by (simp add: route_def)
qed

subsection \<open>The client and the router agree\<close>

text \<open>C4. Round trip: every request the client builds for a call whose identifiers are
  URL-safe is routed by the backend back to that call (with an empty date dropped, as the
  client drops it).\<close>

theorem route_request_of:
  "call_url_safe c \<Longrightarrow> route (request_of c) = Some (norm_call c)"
  by (cases c) (auto simp: route_def url_safe_nonempty split: option.splits)

theorem route_request_of_witness:
  "call_url_safe (DeleteEmployee ''EMP001'') \<and>
   route (request_of (DeleteEmployee ''EMP001'')) = Some (DeleteEmployee ''EMP001'')"
proof -
  have h: "call_url_safe (DeleteEmployee ''EMP001'')" by (simp add: url_safe_def seg_ok_def url_unreserved_def)
  show ?thesis using h route_request_of [OF h] by simp
qed

text \<open>C5. The client interpolates employee identifiers into the path without encoding
  them, so the backend deletes another employee, or none, whenever the identifier holds a
  character the URL gives a meaning to. For every URL-safe \<open>p\<close>: deleting
  \<open>p?q\<close> or \<open>p#q\<close> deletes \<open>p\<close> whatever \<open>q\<close> is; deleting \<open>p%XY\<close>, with
  \<open>XY\<close> the hexadecimal code of a character other than \<open>/\<close>, deletes \<open>p\<close>
  followed by that character (\<open>E%31\<close> deletes \<open>E1\<close>); an identifier holding
  \<open>/\<close> is never the one deleted; and \<open>..\<close> reaches no route, the browser resolving
  \<open>/employees/..\<close> to \<open>/\<close>.\<close>

theorem delete_unencoded_id_misrouted:
  assumes "url_safe p"
  shows "(x \<in> {CHR ''?'', CHR ''#''} \<longrightarrow> route (deleteEmployee (p @ x # q)) = Some (DeleteEmployee p))
       \<and> (hex_val h1 = Some a \<and> hex_val h2 = Some b \<and> b < 10 \<and> char_of (16 * a + b) \<noteq> CHR ''/''
            \<longrightarrow> route (deleteEmployee (p @ [CHR ''%'', h1, h2]))
                  = Some (DeleteEmployee (p @ [char_of (16 * a + b)])))
       \<and> (CHR ''/'' \<in> set i \<longrightarrow> route (deleteEmployee i) \<noteq> Some (DeleteEmployee i))
       \<and> route (deleteEmployee ''..'') = None"
proof (intro conjI impI)
  assume "x \<in> {CHR ''?'', CHR ''#''}"
  moreover have "req_path (deleteEmployee (p @ x # q)) = path_of [''employees'', p] @ x # q"
    by (simp add: deleteEmployee_def path_of_def)
  ultimately have "fst (url_parts (deleteEmployee (p @ x # q))) = [[], ''employees'', p]"
    using url_parts_cut [OF conjunct1 [OF url_safe_segs [OF assms]]] by simp
  with url_safe_nonempty [OF assms]
  show "route (deleteEmployee (p @ x # q)) = Some (DeleteEmployee p)" by (simp add: route_def)
next
  assume h: "hex_val h1 = Some a \<and> hex_val h2 = Some b \<and> b < 10 \<and> char_of (16 * a + b) \<noteq> CHR ''/''"
  then show "route (deleteEmployee (p @ [CHR ''%'', h1, h2])) = Some (DeleteEmployee (p @ [char_of (16 * a + b)]))"
    using url_parts_percent [OF assms, of h1 a h2 b] by (simp add: route_def)
next
  assume "CHR ''/'' \<in> set i"
  then show "route (deleteEmployee i) \<noteq> Some (DeleteEmployee i)"
    using route_delete_target [of i i] split_on_sep_free by (fastforce simp: url_parts_fst)
next
  show "route (deleteEmployee ''..'') = None"
    by (simp add: route_def url_parts_def deleteEmployee_def strip_end_def browser_split_def browser_path_def
                  join_path_def single_dot_segments_def double_dot_segments_def query_pairs_def)
qed

theorem delete_unencoded_id_misrouted_witness:
  "route (deleteEmployee ''E1?x'') = Some (DeleteEmployee ''E1'')
   \<and> route (deleteEmployee ''E%31'') = Some (DeleteEmployee ''E1'')
   \<and> route (deleteEmployee ''A/B'') \<noteq> Some (DeleteEmployee ''A/B'')"
proof -
  have u: "url_safe ''E''" by (simp add: url_safe_def seg_ok_def url_unreserved_def)
  have h: "hex_val CHR ''3'' = Some 3" "hex_val CHR ''1'' = Some 1" by (simp_all add: hex_val_def)
  have c: "char_of (16 * 3 + 1 :: nat) = CHR ''1''" by (simp add: char_of_def bit_simps)
  have u1: "url_safe ''E1''" by (simp add: url_safe_def seg_ok_def url_unreserved_def)
  have 1: "route (deleteEmployee ''E1?x'') = Some (DeleteEmployee ''E1'')"
    using delete_unencoded_id_misrouted [OF u1, where x = "CHR ''?''" and q = "''x''"] by simp
  have 2: "route (deleteEmployee ''E%31'') = Some (DeleteEmployee ''E1'')"
    using delete_unencoded_id_misrouted [OF u, of _ _ "CHR ''3''" 3 "CHR ''1''" 1]
          h c by simp
  have 3: "route (deleteEmployee ''A/B'') \<noteq> Some (DeleteEmployee ''A/B'')"
    using delete_unencoded_id_misrouted [OF u1, where i = "''A/B''"] by simp
  from 1 2 3 show ?thesis by blast
qed

end
