(* ===== verification/Employees.thy ===== *)
theory Employees
  imports Api
begin

text \<open>
  The Employees page, \<open>src/frontend/src/pages/Employees.jsx\<close>, in the same style as
  the Attendance page: React state as the record \<open>emp_state\<close>, promises in flight as
  \<open>e_pending\<close> with what their continuations closed over, user actions and settled
  promises as \<open>emp_event\<close>, one step function. The search is the pure function
  \<open>emp_filter\<close>, re-derived from the loaded roster at each render. The add modal and
  the delete confirmation (\<open>components/UI.jsx\<close>, \<open>Modal\<close> and
  \<open>ConfirmDialog\<close>) cover the page while open, so the page's own controls are
  offered only while neither is.
\<close>

subsection \<open>State\<close>

definition DEPARTMENTS :: "string list" where
  "DEPARTMENTS = [''Engineering'', ''Design'', ''Product'', ''Marketing'',
                  ''Sales'', ''Finance'', ''HR'', ''Operations'', ''Legal'', ''Support'']"

datatype emp_pending = EPLoad | EPAdd employee | EPDelete employee

record emp_state =
  e_employees :: "employee list"
  e_loading :: bool
  e_error :: string
  e_success :: string
  e_search :: string
  e_show_add :: bool
  e_form :: employee
  e_form_error :: string
  e_saving :: bool
  e_delete_target :: "employee option"
  e_deleting :: bool
  e_pending :: "emp_pending list"

datatype emp_field = FieldId | FieldName | FieldEmail | FieldDept

datatype emp_event =
    SetSearch string
  | OpenAdd
  | CloseAdd
  | EditField emp_field string
  | SubmitAdd
  | RequestDelete employee
  | CancelDelete
  | ConfirmDelete
  | DismissPageError
  | DismissPageSuccess
  | DismissFormError
  | LoadSettled nat "employee list option"
  | AddSettled nat "string option + unit"
  | DeleteSettled nat "string option + unit"

definition empty_form :: employee where
  "empty_form = \<lparr>employee_id = [], full_name = [], email = [], department = []\<rparr>"

text \<open>\<open>load()\<close>: the loading flag and a roster request.\<close>

definition emp_load :: "emp_state \<Rightarrow> emp_state" where
  "emp_load s = s\<lparr>e_loading := True, e_pending := e_pending s @ [EPLoad]\<rparr>"

text \<open>The page as mounted: the mount effect has run \<open>load()\<close>.\<close>

definition emp_init :: emp_state where
  "emp_init = \<lparr>e_employees = [], e_loading = True, e_error = [], e_success = [], e_search = [],
     e_show_add = False, e_form = empty_form, e_form_error = [], e_saving = False,
     e_delete_target = None, e_deleting = False, e_pending = [EPLoad]\<rparr>"

subsection \<open>Search\<close>

text \<open>An employee matches when the lower-cased query is a substring of the lower-cased
  name, email, department or id.\<close>

definition emp_matches :: "string \<Rightarrow> employee \<Rightarrow> bool" where
  "emp_matches q e =
     (js_includes (to_lower (full_name e)) (to_lower q) \<or>
      js_includes (to_lower (email e)) (to_lower q) \<or>
      js_includes (to_lower (department e)) (to_lower q) \<or>
      js_includes (to_lower (employee_id e)) (to_lower q))"

definition emp_filter :: "string \<Rightarrow> employee list \<Rightarrow> employee list" where
  "emp_filter q es = filter (emp_matches q) es"

subsection \<open>Handlers\<close>

definition set_field :: "emp_field \<Rightarrow> string \<Rightarrow> employee \<Rightarrow> employee" where
  "set_field f v e = (case f of FieldId \<Rightarrow> e\<lparr>employee_id := v\<rparr> | FieldName \<Rightarrow> e\<lparr>full_name := v\<rparr>
                       | FieldEmail \<Rightarrow> e\<lparr>email := v\<rparr> | FieldDept \<Rightarrow> e\<lparr>department := v\<rparr>)"

text \<open>The browser's checks before \<open>onSubmit\<close>: every field is \<open>required\<close>, the
  department comes from the select (its placeholder has the value \<open>""\<close>), and the email
  passes the \<open>type="email"\<close> check, approximated here as exactly one \<open>@\<close> with
  text on both sides.\<close>

definition email_shape_ok :: "string \<Rightarrow> bool" where
  "email_shape_ok s = (length (filter (\<lambda>c. c = CHR ''@'') s) = 1 \<and> s \<noteq> [] \<and>
                       hd s \<noteq> CHR ''@'' \<and> last s \<noteq> CHR ''@'')"

definition add_form_valid :: "employee \<Rightarrow> bool" where
  "add_form_valid f = (employee_id f \<noteq> [] \<and> full_name f \<noteq> [] \<and> email_shape_ok (email f)
                       \<and> department f \<in> set DEPARTMENTS)"

definition handle_add :: "emp_state \<Rightarrow> emp_state" where
  "handle_add s = s\<lparr>e_form_error := [], e_saving := True, e_pending := e_pending s @ [EPAdd (e_form s)]\<rparr>"

definition handle_delete :: "employee \<Rightarrow> emp_state \<Rightarrow> emp_state" where
  "handle_delete t s = s\<lparr>e_deleting := True, e_pending := e_pending s @ [EPDelete t]\<rparr>"

definition settle_load :: "employee list option \<Rightarrow> emp_state \<Rightarrow> emp_state" where
  "settle_load r s =
     (case r of Some es \<Rightarrow> s\<lparr>e_employees := es\<rparr>
              | None \<Rightarrow> s\<lparr>e_error := ''Failed to load employees.''\<rparr>)\<lparr>e_loading := False\<rparr>"

definition settle_add :: "employee \<Rightarrow> string option + unit \<Rightarrow> emp_state \<Rightarrow> emp_state" where
  "settle_add f r s =
     (case r of
        Inr _ \<Rightarrow> emp_load (s\<lparr>e_success := ''Employee \"'' @ full_name f @ ''\" added successfully.'',
                             e_show_add := False, e_form := empty_form\<rparr>)
      | Inl detail \<Rightarrow> s\<lparr>e_form_error := js_or_opt detail ''Failed to add employee.''\<rparr>)\<lparr>e_saving := False\<rparr>"

definition settle_delete :: "employee \<Rightarrow> string option + unit \<Rightarrow> emp_state \<Rightarrow> emp_state" where
  "settle_delete t r s =
     (case r of
        Inr _ \<Rightarrow> emp_load (s\<lparr>e_success := ''Employee \"'' @ full_name t @ ''\" deleted.'',
                             e_delete_target := None\<rparr>)
      | Inl _ \<Rightarrow> s\<lparr>e_error := ''Failed to delete employee.''\<rparr>)\<lparr>e_deleting := False\<rparr>"

subsection \<open>What the page offers\<close>

definition page_free :: "emp_state \<Rightarrow> bool" where
  "page_free s = (\<not> e_show_add s \<and> e_delete_target s = None)"

fun emp_step :: "emp_state \<Rightarrow> emp_event \<Rightarrow> emp_state option" where
  "emp_step s (SetSearch q) = (if page_free s then Some (s\<lparr>e_search := q\<rparr>) else None)"
| "emp_step s OpenAdd = (if page_free s then Some (s\<lparr>e_show_add := True\<rparr>) else None)"
| "emp_step s CloseAdd =
     (if e_show_add s then Some (s\<lparr>e_show_add := False, e_form_error := []\<rparr>) else None)"
| "emp_step s (EditField f v) =
     (if e_show_add s then Some (s\<lparr>e_form := set_field f v (e_form s)\<rparr>) else None)"
| "emp_step s SubmitAdd =
     (if e_show_add s \<and> \<not> e_saving s \<and> add_form_valid (e_form s) then Some (handle_add s) else None)"
| "emp_step s (RequestDelete t) =
     (if page_free s \<and> \<not> e_loading s \<and> t \<in> set (emp_filter (e_search s) (e_employees s))
      then Some (s\<lparr>e_delete_target := Some t\<rparr>) else None)"
| "emp_step s CancelDelete =
     (if e_delete_target s \<noteq> None then Some (s\<lparr>e_delete_target := None\<rparr>) else None)"
| "emp_step s ConfirmDelete =
     (case e_delete_target s of
        Some t \<Rightarrow> if \<not> e_deleting s then Some (handle_delete t s) else None
      | None \<Rightarrow> None)"
| "emp_step s DismissPageError =
     (if page_free s \<and> e_error s \<noteq> [] then Some (s\<lparr>e_error := []\<rparr>) else None)"
| "emp_step s DismissPageSuccess =
     (if page_free s \<and> e_success s \<noteq> [] then Some (s\<lparr>e_success := []\<rparr>) else None)"
| "emp_step s DismissFormError =
     (if e_show_add s \<and> e_form_error s \<noteq> [] then Some (s\<lparr>e_form_error := []\<rparr>) else None)"
| "emp_step s (LoadSettled k r) =
     (case take_pending k (e_pending s) of
        Some (EPLoad, ps) \<Rightarrow> Some (settle_load r (s\<lparr>e_pending := ps\<rparr>))
      | _ \<Rightarrow> None)"
| "emp_step s (AddSettled k r) =
     (case take_pending k (e_pending s) of
        Some (EPAdd f, ps) \<Rightarrow> Some (settle_add f r (s\<lparr>e_pending := ps\<rparr>))
      | _ \<Rightarrow> None)"
| "emp_step s (DeleteSettled k r) =
     (case take_pending k (e_pending s) of
        Some (EPDelete t, ps) \<Rightarrow> Some (settle_delete t r (s\<lparr>e_pending := ps\<rparr>))
      | _ \<Rightarrow> None)"

fun emp_run :: "emp_state \<Rightarrow> emp_event list \<Rightarrow> emp_state option" where
  "emp_run s [] = Some s"
| "emp_run s (e # es) = (case emp_step s e of None \<Rightarrow> None | Some s' \<Rightarrow> emp_run s' es)"

inductive emp_reach :: "emp_state \<Rightarrow> bool" where
  init: "emp_reach emp_init"
| step: "emp_reach s \<Longrightarrow> emp_step s e = Some s' \<Longrightarrow> emp_reach s'"

subsection \<open>Analysis\<close>

fun is_add :: "emp_pending \<Rightarrow> bool" where
  "is_add (EPAdd _) = True"
| "is_add _ = False"

fun is_delete :: "emp_pending \<Rightarrow> bool" where
  "is_delete (EPDelete _) = True"
| "is_delete _ = False"

fun emp_pending_calls :: "emp_pending \<Rightarrow> api_call list" where
  "emp_pending_calls EPLoad = [GetEmployees]"
| "emp_pending_calls (EPAdd f) = [AddEmployee f]"
| "emp_pending_calls (EPDelete t) = [DeleteEmployee (employee_id t)]"

definition emp_issued :: "emp_state \<Rightarrow> api_call list" where
  "emp_issued s = concat (map emp_pending_calls (e_pending s))"

definition emp_flags_ok :: "emp_state \<Rightarrow> bool" where
  "emp_flags_ok s =
     (length (filter is_add (e_pending s)) = (if e_saving s then 1 else 0) \<and>
      length (filter is_delete (e_pending s)) = (if e_deleting s then 1 else 0) \<and>
      (e_loading s \<longrightarrow> EPLoad \<in> set (e_pending s)))"

subsection \<open>Concrete data for the witnesses\<close>

definition demo_b :: employee where
  "demo_b = \<lparr>employee_id = ''EMP002'', full_name = ''Ravi Kumar'', email = ''ravi@x.com'',
             department = ''Sales''\<rparr>"

definition demo_c :: employee where
  "demo_c = \<lparr>employee_id = ''EMP003'', full_name = ''Meera Iyer'', email = ''meera@x.com'',
             department = ''HR''\<rparr>"

text \<open>The page loaded with \<open>demo_b\<close>; the operator deletes \<open>demo_b\<close> and, while
  the roster reload that follows is in flight, adds \<open>demo_c\<close>: two reloads in flight.\<close>

definition race_events :: "emp_event list" where
  "race_events = [LoadSettled 0 (Some [demo_b]), RequestDelete demo_b, ConfirmDelete,
     DeleteSettled 0 (Inr ()), OpenAdd, EditField FieldId ''EMP003'', EditField FieldName ''Meera Iyer'',
     EditField FieldEmail ''meera@x.com'', EditField FieldDept ''HR'', SubmitAdd, AddSettled 1 (Inr ())]"

definition demo_idle :: emp_state where
  "demo_idle = emp_init\<lparr>e_loading := False, e_pending := [], e_employees := [demo_b]\<rparr>"

lemmas emp_demo_defs = demo_b_def demo_c_def demo_idle_def emp_init_def

subsection \<open>Basic lemmas\<close>

lemmas emp_handler_defs [page_simps] = emp_load_def handle_add_def handle_delete_def
  settle_load_def settle_add_def settle_delete_def

lemma emp_run_reach: "emp_reach s \<Longrightarrow> emp_run s es = Some t \<Longrightarrow> emp_reach t"
proof (induction es arbitrary: s)
  case Nil
  then show ?case by simp
next
  case (Cons e es)
  then obtain s' where s': "emp_step s e = Some s'" and r: "emp_run s' es = Some t"
    by (auto split: option.splits)
  from Cons.prems(1) s' have "emp_reach s'" by (rule emp_reach.step)
  then show ?case using r by (rule Cons.IH)
qed


lemma emp_flags_init: "emp_flags_ok emp_init"
  by (simp add: emp_flags_ok_def emp_init_def)

lemma emp_step_flags:
  assumes c: "emp_flags_ok s" and st: "emp_step s e = Some t"
  shows "emp_flags_ok t"
proof (cases e)
  case (LoadSettled k r)
  with st obtain ps where tp: "take_pending k (e_pending s) = Some (EPLoad, ps)"
    and t: "t = settle_load r (s\<lparr>e_pending := ps\<rparr>)"
    by (auto split: option.splits emp_pending.splits)
  from tp have "length (filter is_add (e_pending s)) = length (filter is_add ps)"
    and "length (filter is_delete (e_pending s)) = length (filter is_delete ps)"
    by (simp_all add: take_pending_filter_length [OF tp])
  with t c show ?thesis
    by (auto simp: emp_flags_ok_def settle_load_def split: option.splits)
next
  case (AddSettled k r)
  with st obtain f ps where tp: "take_pending k (e_pending s) = Some (EPAdd f, ps)"
    and t: "t = settle_add f r (s\<lparr>e_pending := ps\<rparr>)"
    by (auto split: option.splits emp_pending.splits)
  from tp have "length (filter is_add (e_pending s)) = Suc (length (filter is_add ps))"
    and "length (filter is_delete (e_pending s)) = length (filter is_delete ps)"
    and "EPLoad \<in> set ps \<longleftrightarrow> EPLoad \<in> set (e_pending s)"
    by (simp_all add: take_pending_filter_length [OF tp] take_pending_mem_other [OF tp])
  with t c show ?thesis
    by (auto simp: emp_flags_ok_def settle_add_def emp_load_def split: sum.splits if_splits)
next
  case (DeleteSettled k r)
  with st obtain x ps where tp: "take_pending k (e_pending s) = Some (EPDelete x, ps)"
    and t: "t = settle_delete x r (s\<lparr>e_pending := ps\<rparr>)"
    by (auto split: option.splits emp_pending.splits)
  from tp have "length (filter is_add (e_pending s)) = length (filter is_add ps)"
    and "length (filter is_delete (e_pending s)) = Suc (length (filter is_delete ps))"
    and "EPLoad \<in> set ps \<longleftrightarrow> EPLoad \<in> set (e_pending s)"
    by (simp_all add: take_pending_filter_length [OF tp] take_pending_mem_other [OF tp])
  with t c show ?thesis
    by (auto simp: emp_flags_ok_def settle_delete_def emp_load_def split: sum.splits if_splits)
qed (use c st in \<open>auto simp: emp_flags_ok_def handle_add_def handle_delete_def
        split: if_splits option.splits\<close>)

lemma emp_reach_flags: "emp_reach s \<Longrightarrow> emp_flags_ok s"
  by (induction rule: emp_reach.induct) (auto intro: emp_flags_init emp_step_flags)

lemma emp_run_race:
  "\<exists>s. emp_run emp_init race_events = Some s \<and> e_pending s = [] @ [EPLoad, EPLoad] \<and> e_loading s"
  by (simp add: race_events_def emp_init_def emp_handler_defs emp_filter_def emp_matches_def demo_b_def
     add_form_valid_def email_shape_ok_def DEPARTMENTS_def set_field_def page_free_def)

subsection \<open>Search\<close>


subsection \<open>Flags and races\<close>

text \<open>C14. In every reachable state at most one add and at most one delete is in flight,
  \<open>saving\<close> and \<open>deleting\<close> hold exactly while one is, and \<open>loading\<close> only while
  a roster request is.\<close>

theorem emp_reach_single_add_delete:
  "emp_reach s \<Longrightarrow> length (filter is_add (e_pending s)) = (if e_saving s then 1 else 0)
                 \<and> length (filter is_delete (e_pending s)) = (if e_deleting s then 1 else 0)
                 \<and> (e_loading s \<longrightarrow> EPLoad \<in> set (e_pending s))"
  by (drule emp_reach_flags) (simp add: emp_flags_ok_def)

theorem emp_reach_single_add_delete_witness:
  "\<exists>s. emp_run emp_init race_events = Some s \<and> e_loading s \<and> EPLoad \<in> set (e_pending s)
       \<and> \<not> e_saving s \<and> filter is_add (e_pending s) = []"
proof -
  obtain s where run: "emp_run emp_init race_events = Some s" and p: "e_pending s = [] @ [EPLoad, EPLoad]"
    and l: "e_loading s"
    using emp_run_race by blast
  have "length (filter is_add (e_pending s)) = (if e_saving s then 1 else 0)
        \<and> length (filter is_delete (e_pending s)) = (if e_deleting s then 1 else 0)
        \<and> (e_loading s \<longrightarrow> EPLoad \<in> set (e_pending s))"
    by (rule emp_reach_single_add_delete [OF emp_run_reach [OF emp_reach.init run]])
  then show ?thesis using run p l by auto
qed

text \<open>C15. Roster reloads are not ordered: with two reloads in flight, the older one
  settling last replaces the roster with its (older) list. After deleting one employee
  and adding another, the roster can show the deleted employee or miss the added one.\<close>

theorem older_roster_response_wins:
  assumes "e_pending s = ps @ [EPLoad, EPLoad]"
  shows "\<exists>t. emp_run s [LoadSettled (Suc (length ps)) (Some newer), LoadSettled (length ps) (Some older)] = Some t
           \<and> e_employees t = older \<and> \<not> e_loading t \<and> e_pending t = ps"
  using assms by (simp add: settle_load_def)

theorem older_roster_response_wins_witness:
  "\<exists>s t. emp_run emp_init race_events = Some s \<and> e_pending s = [] @ [EPLoad, EPLoad]
         \<and> emp_run s [LoadSettled 1 (Some [demo_c]), LoadSettled 0 (Some [])] = Some t
         \<and> e_employees t = [] \<and> \<not> e_loading t"
proof -
  obtain s where run: "emp_run emp_init race_events = Some s" and p: "e_pending s = [] @ [EPLoad, EPLoad]"
    using emp_run_race by blast
  from older_roster_response_wins [OF p, of "[demo_c]" "[]"] run p show ?thesis by auto
qed

subsection \<open>Adding and deleting\<close>

text \<open>C16. A rejected add keeps the modal open with the values entered, leaves the roster
  alone and shows the backend's detail or the generic message; saving ends.\<close>

theorem add_failure_keeps_form:
  assumes "emp_step s (AddSettled k (Inl detail)) = Some t"
  shows "e_show_add t = e_show_add s \<and> e_form t = e_form s \<and> e_employees t = e_employees s
         \<and> e_form_error t = js_or_opt detail ''Failed to add employee.'' \<and> e_form_error t \<noteq> []
         \<and> \<not> e_saving t"
  using assms
  by (auto simp: settle_add_def js_or_opt_nonempty_result split: option.splits emp_pending.splits)

theorem add_failure_keeps_form_witness:
  "\<exists>t. emp_step (handle_add (demo_idle\<lparr>e_show_add := True, e_form := demo_c\<rparr>))
                 (AddSettled 0 (Inl (Some ''Employee ID already exists''))) = Some t
       \<and> e_form t = demo_c \<and> e_show_add t \<and> e_form_error t = ''Employee ID already exists''"
proof -
  obtain t where st: "emp_step (handle_add (demo_idle\<lparr>e_show_add := True, e_form := demo_c\<rparr>))
                 (AddSettled 0 (Inl (Some ''Employee ID already exists''))) = Some t"
    by (simp add: handle_add_def emp_demo_defs)
  from add_failure_keeps_form [OF st] st show ?thesis by (auto simp: handle_add_def)
qed

text \<open>C17. A successful add closes the modal, clears the form, reloads the roster and
  names the added employee in the success message.\<close>

theorem add_success_closes_and_reloads:
  assumes "take_pending k (e_pending s) = Some (EPAdd f, ps)"
    and "emp_step s (AddSettled k (Inr ())) = Some t"
  shows "\<not> e_show_add t \<and> e_form t = empty_form \<and> e_loading t \<and> \<not> e_saving t
         \<and> e_pending t = ps @ [EPLoad]
         \<and> e_success t = ''Employee \"'' @ full_name f @ ''\" added successfully.''"
  using assms by (auto simp: settle_add_def emp_load_def)

theorem add_success_closes_and_reloads_witness:
  "\<exists>t. emp_step (handle_add (demo_idle\<lparr>e_show_add := True, e_form := demo_c\<rparr>)) (AddSettled 0 (Inr ())) = Some t
       \<and> e_pending t = [EPLoad] \<and> e_success t = ''Employee \"Meera Iyer\" added successfully.''"
proof -
  let ?s = "handle_add (demo_idle\<lparr>e_show_add := True, e_form := demo_c\<rparr>)"
  have tp: "take_pending 0 (e_pending ?s) = Some (EPAdd demo_c, [])"
    by (simp add: handle_add_def emp_demo_defs)
  obtain t where st: "emp_step ?s (AddSettled 0 (Inr ())) = Some t"
    by (simp add: handle_add_def emp_demo_defs)
  from add_success_closes_and_reloads [OF tp st] st show ?thesis by (auto simp: demo_c_def)
qed

text \<open>C18. A failed delete shows only the generic message (the backend's detail is
  dropped), keeps the confirmation open on the same employee and leaves the roster.\<close>

theorem delete_failure_generic:
  assumes "emp_step s (DeleteSettled k (Inl detail)) = Some t"
  shows "e_error t = ''Failed to delete employee.'' \<and> e_delete_target t = e_delete_target s
         \<and> e_employees t = e_employees s \<and> \<not> e_deleting t"
  using assms by (auto simp: settle_delete_def split: option.splits emp_pending.splits)

theorem delete_failure_generic_witness:
  "\<exists>t. emp_step (handle_delete demo_b (demo_idle\<lparr>e_delete_target := Some demo_b\<rparr>))
                 (DeleteSettled 0 (Inl (Some ''Employee not found''))) = Some t
       \<and> e_error t = ''Failed to delete employee.'' \<and> e_delete_target t = Some demo_b"
proof -
  obtain t where st: "emp_step (handle_delete demo_b (demo_idle\<lparr>e_delete_target := Some demo_b\<rparr>))
                 (DeleteSettled 0 (Inl (Some ''Employee not found''))) = Some t"
    by (simp add: handle_delete_def emp_demo_defs)
  from delete_failure_generic [OF st] st show ?thesis by (auto simp: handle_delete_def)
qed

text \<open>C19. Confirming issues exactly one delete request, for the employee named in the
  open confirmation, and only while no delete is in flight.\<close>

theorem confirm_delete_issues_request:
  assumes "emp_step s ConfirmDelete = Some t"
  shows "\<exists>x. e_delete_target s = Some x \<and> \<not> e_deleting s \<and> e_deleting t
             \<and> emp_issued t = emp_issued s @ [DeleteEmployee (employee_id x)]"
  using assms by (auto simp: emp_issued_def handle_delete_def split: option.splits if_splits)

theorem confirm_delete_issues_request_witness:
  "\<exists>t. emp_step (demo_idle\<lparr>e_delete_target := Some demo_b\<rparr>) ConfirmDelete = Some t
       \<and> emp_issued t = [DeleteEmployee ''EMP002'']"
proof -
  obtain t where st: "emp_step (demo_idle\<lparr>e_delete_target := Some demo_b\<rparr>) ConfirmDelete = Some t"
    by (simp add: emp_demo_defs)
  from confirm_delete_issues_request [OF st] st show ?thesis
    by (auto simp: emp_issued_def emp_demo_defs)
qed

end
