(* ===== verification/Dashboard.thy ===== *)
theory Dashboard
  imports Api
begin

text \<open>
  The Dashboard page, \<open>src/frontend/src/pages/Dashboard.jsx\<close>: one joined request
  for the stats and the roster at mount (\<open>Promise.all\<close>), a preview of the first five
  employees, and four stat cards that read \<open>stats?.x ?? 0\<close>. The only events are the
  settling of that request and dismissing the error banner. The stat cards and the
  preview table are rendered as \<open>dash_view\<close> (\<open>StatCard\<close> of
  \<open>components/UI.jsx\<close> shows a skeleton while loading).
\<close>

subsection \<open>State and handlers\<close>

record dash_state =
  d_stats :: "dash_stats option"
  d_employees :: "employee list"
  d_loading :: bool
  d_error :: string
  d_in_flight :: bool

datatype dash_event = DashSettled "(dash_stats \<times> employee list) option" | DismissDashError

definition dash_init :: dash_state where
  "dash_init = \<lparr>d_stats = None, d_employees = [], d_loading = True, d_error = [], d_in_flight = True\<rparr>"

definition dash_calls :: "api_call list" where
  "dash_calls = [GetDashboardStats, GetEmployees]"

definition settle_dash :: "(dash_stats \<times> employee list) option \<Rightarrow> dash_state \<Rightarrow> dash_state" where
  "settle_dash r s =
     (case r of Some (st, es) \<Rightarrow> s\<lparr>d_stats := Some st, d_employees := js_slice0 5 es\<rparr>
              | None \<Rightarrow> s\<lparr>d_error := ''Failed to load dashboard data.''\<rparr>)
     \<lparr>d_loading := False, d_in_flight := False\<rparr>"

fun dash_step :: "dash_state \<Rightarrow> dash_event \<Rightarrow> dash_state option" where
  "dash_step s (DashSettled r) = (if d_in_flight s then Some (settle_dash r s) else None)"
| "dash_step s DismissDashError = (if d_error s \<noteq> [] then Some (s\<lparr>d_error := []\<rparr>) else None)"

inductive dash_reach :: "dash_state \<Rightarrow> bool" where
  init: "dash_reach dash_init"
| step: "dash_reach s \<Longrightarrow> dash_step s e = Some s' \<Longrightarrow> dash_reach s'"

subsection \<open>Rendering\<close>

text \<open>A stat card shows \<open>None\<close> (the skeleton) while loading, else its value.\<close>

definition stat_card :: "bool \<Rightarrow> nat \<Rightarrow> nat option" where
  "stat_card loading v = (if loading then None else Some v)"

definition dash_values :: "dash_state \<Rightarrow> nat list" where
  "dash_values s =
     [js_nullish (map_option total_employees (d_stats s)) 0,
      js_nullish (map_option departments (d_stats s)) 0,
      js_nullish (map_option present_today (d_stats s)) 0,
      js_nullish (map_option absent_today (d_stats s)) 0]"

datatype recent_view = RecentLoading | RecentEmpty | RecentRows "(string \<times> string \<times> string \<times> string) list"

definition dash_recent :: "dash_state \<Rightarrow> recent_view" where
  "dash_recent s =
     (if d_loading s then RecentLoading
      else if d_employees s = [] then RecentEmpty
      else RecentRows (map (\<lambda>e. (full_name e, email e, employee_id e, department e)) (d_employees s)))"

record dash_view =
  v_error :: "string option"
  v_cards :: "nat option list"
  v_recent :: recent_view

definition dash_render :: "dash_state \<Rightarrow> dash_view" where
  "dash_render s = \<lparr>v_error = (if d_error s = [] then None else Some (d_error s)),
                    v_cards = map (stat_card (d_loading s)) (dash_values s),
                    v_recent = dash_recent s\<rparr>"

text \<open>A roster of six for the witnesses.\<close>

definition demo_staff :: "employee list" where
  "demo_staff = map (\<lambda>i. \<lparr>employee_id = [CHR ''E'', i], full_name = [i], email = ''e@x'',
                          department = ''HR''\<rparr>) ''123456''"

definition demo_stats :: dash_stats where
  "demo_stats = \<lparr>total_employees = 6, departments = 1, present_today = 5, absent_today = 1\<rparr>"

subsection \<open>Lemmas\<close>

lemma dash_step_cases:
  "dash_step s e = Some t \<Longrightarrow>
     (\<exists>r. e = DashSettled r \<and> d_in_flight s \<and> t = settle_dash r s) \<or>
     (e = DismissDashError \<and> d_error s \<noteq> [] \<and> t = s\<lparr>d_error := []\<rparr>)"
  by (cases e) (auto split: if_splits)

lemma dash_settle_demo:
  "\<exists>t. dash_step dash_init (DashSettled (Some (demo_stats, demo_staff))) = Some t \<and> length (d_employees t) = 5"
  by (simp add: dash_init_def settle_dash_def js_slice0_def demo_staff_def)

subsection \<open>Properties\<close>

text \<open>C20. The preview is the first five employees of the roster the backend sent, in its
  order, and the stat cards read the stats that came with it.\<close>

theorem dash_preview_first_five:
  "dash_step s (DashSettled (Some (st, es))) = Some t \<Longrightarrow>
      d_employees t = take 5 es \<and> prefix (d_employees t) es \<and> d_stats t = Some st"
  by (auto simp: settle_dash_def js_slice0_def take_is_prefix split: if_splits)

theorem dash_preview_first_five_witness:
  "\<exists>t. dash_step dash_init (DashSettled (Some (demo_stats, demo_staff))) = Some t
       \<and> d_employees t = take 5 demo_staff \<and> length (d_employees t) = 5"
proof -
  obtain t where st: "dash_step dash_init (DashSettled (Some (demo_stats, demo_staff))) = Some t"
    and l: "length (d_employees t) = 5"
    using dash_settle_demo by blast
  from dash_preview_first_five [OF st] st l show ?thesis by blast
qed

text \<open>C21. When the joined request fails the page stays usable: the error banner reads
  the dashboard message, every stat card shows 0 and the preview shows its empty state.\<close>

theorem dash_failure_zero_placeholders:
  "dash_step dash_init (DashSettled None) = Some t \<Longrightarrow>
     dash_render t = \<lparr>v_error = Some ''Failed to load dashboard data.'',
                      v_cards = [Some 0, Some 0, Some 0, Some 0], v_recent = RecentEmpty\<rparr>"
  by (auto simp: dash_init_def settle_dash_def dash_render_def dash_values_def stat_card_def dash_recent_def)

theorem dash_failure_zero_placeholders_witness:
  "\<exists>t. dash_step dash_init (DashSettled None) = Some t \<and> v_cards (dash_render t) = [Some 0, Some 0, Some 0, Some 0]"
proof -
  obtain t where st: "dash_step dash_init (DashSettled None) = Some t" by (simp add: dash_init_def)
  from dash_failure_zero_placeholders [OF st] st show ?thesis by simp
qed

end
