(* ===== verification/Shell.thy ===== *)
theory Shell
  imports Prelude
begin

text \<open>
  The shell: \<open>src/frontend/src/App.jsx\<close> and \<open>components/Layout.jsx\<close>. Both keep
  a \<open>dark\<close> flag initialised from \<open>localStorage.theme\<close> and an effect that writes it
  back and sets the \<open>dark\<close> class of the document. App passes \<open>toggleTheme\<close> and
  \<open>dark\<close> to Layout, but Layout reads only \<open>children\<close>: the theme button toggles
  Layout's own flag. At mount React runs the child's effect (Layout) before the parent's
  (App); afterwards only Layout's flag changes, so only its effect runs. Local storage is a
  map from keys to strings. The router maps a path to a view and \<open>NavLink\<close> marks the
  active link (\<open>end\<close> for \<open>/\<close>, prefix match otherwise).
\<close>

subsection \<open>Theme\<close>

record shell_state =
  sh_storage :: "string \<rightharpoonup> string"
  sh_html_dark :: bool
  sh_app_dark :: bool
  sh_layout_dark :: bool
  sh_path :: string

datatype shell_event = ToggleTheme | Navigate string

definition read_theme :: "(string \<rightharpoonup> string) \<Rightarrow> bool" where
  "read_theme st = (st ''theme'' = Some ''dark'')"

definition theme_effect :: "bool \<Rightarrow> shell_state \<Rightarrow> shell_state" where
  "theme_effect d s = s\<lparr>sh_html_dark := d,
                        sh_storage := (sh_storage s)(''theme'' \<mapsto> (if d then ''dark'' else ''light''))\<rparr>"

definition shell_mount :: "(string \<rightharpoonup> string) \<Rightarrow> bool \<Rightarrow> string \<Rightarrow> shell_state" where
  "shell_mount st html p =
     (let d = read_theme st;
          s = \<lparr>sh_storage = st, sh_html_dark = html, sh_app_dark = d, sh_layout_dark = d, sh_path = p\<rparr>
      in theme_effect (sh_app_dark s) (theme_effect (sh_layout_dark s) s))"

fun shell_step :: "shell_state \<Rightarrow> shell_event \<Rightarrow> shell_state" where
  "shell_step s ToggleTheme =
     (let s' = s\<lparr>sh_layout_dark := \<not> sh_layout_dark s\<rparr> in theme_effect (sh_layout_dark s') s')"
| "shell_step s (Navigate p) = s\<lparr>sh_path := p\<rparr>"

definition shell_run :: "shell_state \<Rightarrow> shell_event list \<Rightarrow> shell_state" where
  "shell_run s es = fold (\<lambda>e s. shell_step s e) es s"

subsection \<open>Routes and navigation\<close>

datatype view = DashboardView | EmployeesView | AttendanceView

definition route_view :: "string \<Rightarrow> view option" where
  "route_view p = (if p = ''/'' then Some DashboardView
                   else if p = ''/employees'' then Some EmployeesView
                   else if p = ''/attendance'' then Some AttendanceView else None)"

definition nav_links :: "string list" where
  "nav_links = [''/'', ''/employees'', ''/attendance'']"

definition nav_active :: "string \<Rightarrow> string \<Rightarrow> bool" where
  "nav_active to p = (if to = ''/'' then p = to else p = to \<or> prefix (to @ ''/'') p)"

subsection \<open>Lemmas\<close>

definition theme_ok :: "shell_state \<Rightarrow> bool" where
  "theme_ok s = (sh_html_dark s = sh_layout_dark s \<and> read_theme (sh_storage s) = sh_layout_dark s)"

lemma read_theme_effect [simp]: "read_theme (sh_storage (theme_effect d s)) = d"
  by (simp add: read_theme_def theme_effect_def)

lemma theme_ok_mount: "theme_ok (shell_mount st html p)"
  by (simp add: theme_ok_def shell_mount_def Let_def theme_effect_def read_theme_def)

lemma theme_ok_step: "theme_ok s \<Longrightarrow> theme_ok (shell_step s e)"
  by (cases e) (simp_all add: theme_ok_def theme_effect_def Let_def read_theme_def)

lemma theme_ok_run: "theme_ok s \<Longrightarrow> theme_ok (shell_run s es)"
  by (induction es arbitrary: s) (simp_all add: shell_run_def theme_ok_step)

lemma shell_run_app_dark: "sh_app_dark (shell_run s es) = sh_app_dark s"
proof (induction es arbitrary: s)
  case Nil
  then show ?case by (simp add: shell_run_def)
next
  case (Cons e es)
  have "sh_app_dark (shell_step s e) = sh_app_dark s"
    by (cases e) (simp_all add: theme_effect_def Let_def)
  with Cons.IH [of "shell_step s e"] show ?case by (simp add: shell_run_def)
qed

subsection \<open>Properties\<close>

text \<open>C22. The theme survives a reload: after mounting on any stored value and any
  sequence of toggles and navigations, the document class agrees with the button, and
  mounting again on what was stored restores the same theme.\<close>

theorem theme_persists_across_reload:
  "s = shell_run (shell_mount st html p) es \<Longrightarrow>
     sh_html_dark s = sh_layout_dark s \<and>
     sh_layout_dark (shell_mount (sh_storage s) html' p') = sh_layout_dark s \<and>
     sh_html_dark (shell_mount (sh_storage s) html' p') = sh_layout_dark s"
proof -
  assume s: "s = shell_run (shell_mount st html p) es"
  have ok: "theme_ok s" unfolding s by (rule theme_ok_run [OF theme_ok_mount])
  then show ?thesis
    by (simp add: theme_ok_def shell_mount_def Let_def theme_effect_def)
qed

theorem theme_persists_across_reload_witness:
  "sh_layout_dark (shell_mount (sh_storage (shell_run (shell_mount Map.empty False ''/'') [ToggleTheme]))
                   False ''/'') = True"
proof -
  let ?s = "shell_run (shell_mount Map.empty False ''/'') [ToggleTheme]"
  have "sh_layout_dark (shell_mount (sh_storage ?s) False ''/'') = sh_layout_dark ?s"
    using theme_persists_across_reload [of ?s Map.empty False "''/''" "[ToggleTheme]" False "''/''"] by simp
  moreover have "sh_layout_dark ?s = True"
    by (simp add: shell_run_def shell_mount_def Let_def theme_effect_def read_theme_def)
  ultimately show ?thesis by simp
qed

text \<open>C23. App's own theme flag goes stale: the button toggles Layout's flag only, so after
  one toggle App's \<open>dark\<close> (which it passes to Layout as a prop) disagrees with the theme
  shown and stored, and stays as it was at mount for the whole session.\<close>

theorem app_theme_flag_stale:
  "sh_app_dark (shell_run (shell_mount st html p) es) = read_theme st \<and>
   sh_app_dark (shell_step (shell_mount st html p) ToggleTheme) \<noteq>
     sh_layout_dark (shell_step (shell_mount st html p) ToggleTheme)"
  by (simp add: shell_run_app_dark shell_mount_def Let_def theme_effect_def)

text \<open>The router shows one view for each of the three links, and on each of those
  paths exactly its own link is marked active; a path below a link (\<open>/employees/x\<close>)
  marks that link active but matches no route.\<close>

theorem nav_routes_and_active_links:
  "map (\<lambda>p. (route_view p, filter (\<lambda>l. nav_active l p) nav_links)) nav_links =
     [(Some DashboardView, [''/'']), (Some EmployeesView, [''/employees'']),
      (Some AttendanceView, [''/attendance''])] \<and>
   route_view ''/employees/x'' = None \<and>
   filter (\<lambda>l. nav_active l ''/employees/x'') nav_links = [''/employees'']"
  by (simp add: nav_links_def route_view_def nav_active_def)

end
