(* ===== verification/ShellView.thy ===== *)
theory ShellView
  imports Shell
begin

text \<open>
  What the shell renders (\<open>components/Layout.jsx\<close>, the JSX after the theme effect):
  the sidebar's links with their labels and which one is active, the theme button (its
  gradient, the knob's side and the icon of the mode a click switches to, all read from
  Layout's \<open>dark\<close>), and the page content, the view App's \<open>Routes\<close> picks for the
  path. Classes other than these and the logo are not modelled.
\<close>

definition nav_label :: "string \<Rightarrow> string" where
  "nav_label to = (if to = ''/'' then ''Dashboard'' else if to = ''/employees'' then ''Employees''
                   else ''Attendance'')"

record layout_view =
  lv_links :: "(string \<times> string \<times> bool) list"
  lv_gradient :: string
  lv_knob_right :: bool
  lv_toggle_icon :: string
  lv_content :: "view option"

definition layout_render :: "shell_state \<Rightarrow> layout_view" where
  "layout_render s =
     \<lparr>lv_links = map (\<lambda>to. (to, nav_label to, nav_active to (sh_path s))) nav_links,
      lv_gradient = (if sh_layout_dark s then ''from-indigo-500 to-purple-600'' else ''from-indigo-400 to-indigo-500''),
      lv_knob_right = sh_layout_dark s,
      lv_toggle_icon = (if sh_layout_dark s then ''sun'' else ''moon''),
      lv_content = route_view (sh_path s)\<rparr>"

subsection \<open>Properties\<close>

text \<open>The theme button shows the mode a click switches to: in every session the icon is the
  sun exactly while the document is dark, and a click turns the document dark exactly when
  the icon was the moon.\<close>

theorem toggle_icon_names_next_mode:
  assumes "s = shell_run (shell_mount st html p) es"
  shows "lv_toggle_icon (layout_render s) = (if sh_html_dark s then ''sun'' else ''moon'')
         \<and> sh_html_dark (shell_step s ToggleTheme) = (lv_toggle_icon (layout_render s) = ''moon'')
         \<and> lv_knob_right (layout_render s) = sh_html_dark s"
proof -
  have "theme_ok s" unfolding assms by (rule theme_ok_run [OF theme_ok_mount])
  then show ?thesis
    by (simp add: theme_ok_def layout_render_def theme_effect_def Let_def)
qed

theorem toggle_icon_names_next_mode_witness:
  "lv_toggle_icon (layout_render (shell_run (shell_mount Map.empty False ''/'') [ToggleTheme])) = ''sun''
   \<and> \<not> sh_html_dark (shell_step (shell_run (shell_mount Map.empty False ''/'') [ToggleTheme]) ToggleTheme)"
  using toggle_icon_names_next_mode [of "shell_run (shell_mount Map.empty False ''/'') [ToggleTheme]"
                                        Map.empty False "''/''" "[ToggleTheme]"]
  by (simp add: shell_run_def shell_mount_def Let_def theme_effect_def read_theme_def)

end
