(* ===== verification/Attendance.thy ===== *)
theory Attendance
  imports Api
begin

text \<open>
  The Attendance page, \<open>src/frontend/src/pages/Attendance.jsx\<close>: its React state
  as the record \<open>att_state\<close>, each handler as a function on that state, and the
  promises it has issued and that have not settled as the list \<open>a_pending\<close>
  (\<open>att_pending\<close> keeps what the continuation of each promise closed over). A user
  action or the settling of a promise is an \<open>att_event\<close>; \<open>att_step\<close> runs one,
  \<open>None\<close> when the page offers no such action in that state (the control is not
  rendered, or disabled) or the promise named is not of that kind. Responses are inputs:
  a settle event carries what the backend answered, \<open>None\<close> or \<open>Inl\<close> for a
  rejected promise. Which pending promise settles next is the event's choice, so every
  interleaving of responses is a run.
\<close>

subsection \<open>State\<close>

record mark_form =
  form_date :: string
  form_status :: att_status

datatype att_pending =
    PEmployees
  | PLoad string string
  | PMark string mark_form string "employee list"

record att_state =
  a_employees :: "employee list"
  a_selected :: string
  a_records :: "att_record list"
  a_summary :: "att_summary option"
  a_loading_emps :: bool
  a_loading_recs :: bool
  a_saving :: bool
  a_error :: string
  a_success :: string
  a_form_error :: string
  a_form :: mark_form
  a_filter :: string
  a_pending :: "att_pending list"

datatype att_event =
    SelectEmployee string
  | FilterDate string
  | SetFormDate string
  | SetFormStatus att_status
  | SubmitMark string
  | DismissError
  | DismissSuccess
  | DismissFormError
  | EmployeesSettled nat "employee list option"
  | RecordsSettled nat "(att_record list \<times> att_summary) option"
  | MarkSettled nat "string option + unit"

text \<open>The page as mounted on day \<open>today\<close>: the mount effect has issued the roster
  request.\<close>

definition att_init :: "string \<Rightarrow> att_state" where
  "att_init today = \<lparr>a_employees = [], a_selected = [], a_records = [], a_summary = None,
     a_loading_emps = True, a_loading_recs = False, a_saving = False,
     a_error = [], a_success = [], a_form_error = [],
     a_form = \<lparr>form_date = today, form_status = Present\<rparr>, a_filter = [],
     a_pending = [PEmployees]\<rparr>"

subsection \<open>Handlers\<close>

text \<open>\<open>loadRecords(empId, date)\<close>: nothing for an empty id; otherwise the loading
  flag and one combined request for the records and the summary.\<close>

definition load_records :: "string \<Rightarrow> string \<Rightarrow> att_state \<Rightarrow> att_state" where
  "load_records emp date s =
     (if emp = [] then s
      else s\<lparr>a_loading_recs := True, a_pending := a_pending s @ [PLoad emp date]\<rparr>)"

text \<open>The two requests \<open>Promise.all\<close> issues for a \<open>PLoad\<close>.\<close>

definition load_calls :: "string \<Rightarrow> string \<Rightarrow> api_call list" where
  "load_calls emp date =
     [GetAttendance emp (if date = [] then None else Some date), GetAttendanceSummary emp]"

definition handle_select_employee :: "string \<Rightarrow> att_state \<Rightarrow> att_state" where
  "handle_select_employee i s =
     load_records i [] (s\<lparr>a_selected := i, a_filter := [], a_records := [], a_summary := None,
                          a_form_error := [], a_success := []\<rparr>)"

definition handle_filter_date :: "string \<Rightarrow> att_state \<Rightarrow> att_state" where
  "handle_filter_date d s = load_records (a_selected s) d (s\<lparr>a_filter := d\<rparr>)"

text \<open>Submitting the mark form: the continuation closes over the selection, the form,
  the filter and the roster of this render.\<close>

definition handle_mark :: "att_state \<Rightarrow> att_state" where
  "handle_mark s =
     s\<lparr>a_form_error := [], a_saving := True,
       a_pending := a_pending s @ [PMark (a_selected s) (a_form s) (a_filter s) (a_employees s)]\<rparr>"

text \<open>\<open>`Attendance marked as ${form.status} for ${emp?.full_name} on ${form.date}.`\<close>:
  an employee not in the roster prints as \<open>undefined\<close>.\<close>

definition mark_success_msg :: "string \<Rightarrow> mark_form \<Rightarrow> employee list \<Rightarrow> string" where
  "mark_success_msg sel f emps =
     ''Attendance marked as '' @ status_name (form_status f) @ '' for '' @
     (case find (\<lambda>e. employee_id e = sel) emps of None \<Rightarrow> ''undefined'' | Some e \<Rightarrow> full_name e) @
     '' on '' @ form_date f @ ''.''"

definition settle_employees :: "employee list option \<Rightarrow> att_state \<Rightarrow> att_state" where
  "settle_employees r s =
     (case r of Some es \<Rightarrow> s\<lparr>a_employees := es\<rparr>
              | None \<Rightarrow> s\<lparr>a_error := ''Failed to load employees.''\<rparr>)\<lparr>a_loading_emps := False\<rparr>"

definition settle_records :: "(att_record list \<times> att_summary) option \<Rightarrow> att_state \<Rightarrow> att_state" where
  "settle_records r s =
     (case r of Some (rs, sm) \<Rightarrow> s\<lparr>a_records := rs, a_summary := Some sm\<rparr>
              | None \<Rightarrow> s\<lparr>a_error := ''Failed to load attendance records.''\<rparr>)\<lparr>a_loading_recs := False\<rparr>"

definition settle_mark :: "string \<Rightarrow> mark_form \<Rightarrow> string \<Rightarrow> employee list \<Rightarrow>
    string option + unit \<Rightarrow> att_state \<Rightarrow> att_state" where
  "settle_mark sel f filt emps r s =
     (case r of Inr _ \<Rightarrow> load_records sel filt (s\<lparr>a_success := mark_success_msg sel f emps\<rparr>)
              | Inl detail \<Rightarrow> s\<lparr>a_form_error := js_or_opt detail ''Failed to mark attendance.''\<rparr>)
     \<lparr>a_saving := False\<rparr>"

subsection \<open>What the page offers\<close>

text \<open>The roster buttons are rendered once the roster has loaded and is non-empty; the
  mark form, the filter and the banners of steps 2 and 3 only while an employee is
  selected. The mark button is disabled while saving, and the browser refuses to submit
  the form with an empty date or a date after \<open>today\<close> (\<open>required\<close>,
  \<open>max={today()}\<close>); ISO dates compare as strings.\<close>

definition roster_offers :: "att_state \<Rightarrow> string \<Rightarrow> bool" where
  "roster_offers s i = (\<not> a_loading_emps s \<and> a_employees s \<noteq> [] \<and> i \<in> set (map employee_id (a_employees s)))"

definition mark_enabled :: "string \<Rightarrow> att_state \<Rightarrow> bool" where
  "mark_enabled today s = (a_selected s \<noteq> [] \<and> \<not> a_saving s \<and> form_date (a_form s) \<noteq> []
                           \<and> form_date (a_form s) \<le> today)"

fun att_step :: "att_state \<Rightarrow> att_event \<Rightarrow> att_state option" where
  "att_step s (SelectEmployee i) =
     (if roster_offers s i then Some (handle_select_employee i s) else None)"
| "att_step s (FilterDate d) =
     (if a_selected s \<noteq> [] then Some (handle_filter_date d s) else None)"
| "att_step s (SetFormDate d) =
     (if a_selected s \<noteq> [] then Some (s\<lparr>a_form := (a_form s)\<lparr>form_date := d\<rparr>\<rparr>) else None)"
| "att_step s (SetFormStatus st) =
     (if a_selected s \<noteq> [] then Some (s\<lparr>a_form := (a_form s)\<lparr>form_status := st\<rparr>\<rparr>) else None)"
| "att_step s (SubmitMark today) =
     (if mark_enabled today s then Some (handle_mark s) else None)"
| "att_step s DismissError =
     (if a_error s \<noteq> [] then Some (s\<lparr>a_error := []\<rparr>) else None)"
| "att_step s DismissSuccess =
     (if a_selected s \<noteq> [] \<and> a_success s \<noteq> [] then Some (s\<lparr>a_success := []\<rparr>) else None)"
| "att_step s DismissFormError =
     (if a_selected s \<noteq> [] \<and> a_form_error s \<noteq> [] then Some (s\<lparr>a_form_error := []\<rparr>) else None)"
| "att_step s (EmployeesSettled k r) =
     (case take_pending k (a_pending s) of
        Some (PEmployees, ps) \<Rightarrow> Some (settle_employees r (s\<lparr>a_pending := ps\<rparr>))
      | _ \<Rightarrow> None)"
| "att_step s (RecordsSettled k r) =
     (case take_pending k (a_pending s) of
        Some (PLoad _ _, ps) \<Rightarrow> Some (settle_records r (s\<lparr>a_pending := ps\<rparr>))
      | _ \<Rightarrow> None)"
| "att_step s (MarkSettled k r) =
     (case take_pending k (a_pending s) of
        Some (PMark sel f filt emps, ps) \<Rightarrow> Some (settle_mark sel f filt emps r (s\<lparr>a_pending := ps\<rparr>))
      | _ \<Rightarrow> None)"

fun att_run :: "att_state \<Rightarrow> att_event list \<Rightarrow> att_state option" where
  "att_run s [] = Some s"
| "att_run s (e # es) = (case att_step s e of None \<Rightarrow> None | Some s' \<Rightarrow> att_run s' es)"

inductive att_reach :: "att_state \<Rightarrow> bool" where
  init: "att_reach (att_init today)"
| step: "att_reach s \<Longrightarrow> att_step s e = Some s' \<Longrightarrow> att_reach s'"

subsection \<open>Analysis: what each promise targets and requests\<close>

text \<open>The employee whose records a pending promise will show when it settles (the mark's
  continuation reloads the records of the employee it closed over), and the backend calls
  a pending promise stands for.\<close>

fun pending_target :: "att_pending \<Rightarrow> string option" where
  "pending_target PEmployees = None"
| "pending_target (PLoad e _) = Some e"
| "pending_target (PMark e _ _ _) = Some e"

fun is_mark :: "att_pending \<Rightarrow> bool" where
  "is_mark (PMark _ _ _ _) = True"
| "is_mark _ = False"

fun is_load :: "att_pending \<Rightarrow> bool" where
  "is_load (PLoad _ _) = True"
| "is_load _ = False"

fun pending_calls :: "att_pending \<Rightarrow> api_call list" where
  "pending_calls PEmployees = [GetEmployees]"
| "pending_calls (PLoad e d) = load_calls e d"
| "pending_calls (PMark e f _ _) = [MarkAttendance e (form_date f) (form_status f)]"

definition issued :: "att_state \<Rightarrow> api_call list" where
  "issued s = concat (map pending_calls (a_pending s))"

text \<open>The records shown are the selected employee's, and every promise that will show
  records targets the selected employee.\<close>

definition att_consistent :: "att_state \<Rightarrow> bool" where
  "att_consistent s =
     (list_all (\<lambda>r. rec_employee r = a_selected s) (a_records s) \<and>
      list_all (\<lambda>p. pending_target p = None \<or> pending_target p = Some (a_selected s)) (a_pending s))"

text \<open>A response is honest when the records it carries are those of the employee (and
  date, if any) the request asked for: the backend's contract, spec section 3.\<close>

definition att_honest :: "att_state \<Rightarrow> att_event \<Rightarrow> bool" where
  "att_honest s ev =
     (case ev of
        RecordsSettled k (Some (rs, _)) \<Rightarrow>
          (case take_pending k (a_pending s) of
             Some (PLoad e d, _) \<Rightarrow> list_all (\<lambda>r. rec_employee r = e \<and> (d = [] \<or> rec_date r = d)) rs
           | _ \<Rightarrow> True)
      | _ \<Rightarrow> True)"

text \<open>The operator waits: no new selection while a records request or a mark is in flight.\<close>

definition att_quiet :: "att_state \<Rightarrow> att_event \<Rightarrow> bool" where
  "att_quiet s ev =
     (case ev of SelectEmployee _ \<Rightarrow> list_all (\<lambda>p. pending_target p = None) (a_pending s) | _ \<Rightarrow> True)"

inductive att_reach_ok :: "att_state \<Rightarrow> bool" where
  init: "att_reach_ok (att_init today)"
| step: "att_reach_ok s \<Longrightarrow> att_honest s e \<Longrightarrow> att_quiet s e \<Longrightarrow> att_step s e = Some s' \<Longrightarrow> att_reach_ok s'"

fun att_run_ok :: "att_state \<Rightarrow> att_event list \<Rightarrow> att_state option" where
  "att_run_ok s [] = Some s"
| "att_run_ok s (e # es) =
     (if att_honest s e \<and> att_quiet s e
      then (case att_step s e of None \<Rightarrow> None | Some s' \<Rightarrow> att_run_ok s' es) else None)"

text \<open>The flags against the promises: \<open>saving\<close> exactly while one mark is in flight,
  \<open>loadingEmps\<close> exactly while the roster request is, and \<open>loadingRecs\<close> only
  while some records request is.\<close>

definition att_flags_ok :: "att_state \<Rightarrow> bool" where
  "att_flags_ok s =
     (length (filter is_mark (a_pending s)) = (if a_saving s then 1 else 0) \<and>
      count (mset (a_pending s)) PEmployees = (if a_loading_emps s then 1 else 0) \<and>
      (a_loading_recs s \<longrightarrow> list_ex is_load (a_pending s)))"

subsection \<open>Concrete data for the witnesses\<close>

text \<open>A roster of two employees, the page once it has loaded, with Asha selected, and
  with a mark in flight; one record and its summary.\<close>

definition demo_asha :: employee where
  "demo_asha = \<lparr>employee_id = ''EMP001'', full_name = ''Asha Rao'', email = ''asha@x.com'',
                department = ''Engineering''\<rparr>"

definition demo_ravi :: employee where
  "demo_ravi = \<lparr>employee_id = ''EMP002'', full_name = ''Ravi Kumar'', email = ''ravi@x.com'',
                department = ''Sales''\<rparr>"

definition demo_loaded :: att_state where
  "demo_loaded = (att_init ''2024-01-10'')\<lparr>a_employees := [demo_asha, demo_ravi],
                    a_loading_emps := False, a_pending := []\<rparr>"

definition demo_selected :: att_state where
  "demo_selected = demo_loaded\<lparr>a_selected := ''EMP001''\<rparr>"

definition demo_rec :: att_record where
  "demo_rec = \<lparr>rec_id = 1, rec_employee = ''EMP001'', rec_date = ''2024-01-10'', rec_status = Present\<rparr>"

definition demo_sum :: att_summary where
  "demo_sum = \<lparr>total_days = 1, present_days = 1, absent_days = 0\<rparr>"

lemmas demo_defs = demo_asha_def demo_ravi_def demo_loaded_def demo_selected_def att_init_def

subsection \<open>Basic lemmas\<close>

lemmas att_handler_defs [page_simps] = load_records_def handle_select_employee_def
  handle_filter_date_def handle_mark_def settle_employees_def settle_records_def settle_mark_def

lemma att_run_append:
  "att_run s (xs @ ys) = (case att_run s xs of None \<Rightarrow> None | Some t \<Rightarrow> att_run t ys)"
  by (induction xs arbitrary: s) (simp_all split: option.splits)

lemma att_run_reach: "att_reach s \<Longrightarrow> att_run s es = Some t \<Longrightarrow> att_reach t"
proof (induction es arbitrary: s)
  case Nil
  then show ?case by simp
next
  case (Cons e es)
  then obtain s' where s': "att_step s e = Some s'" and r: "att_run s' es = Some t"
    by (auto split: option.splits)
  from Cons.prems(1) s' have "att_reach s'" by (rule att_reach.step)
  then show ?case using r by (rule Cons.IH)
qed

lemma att_init_reach_run: "att_run (att_init today) es = Some t \<Longrightarrow> att_reach t"
  by (rule att_run_reach [OF att_reach.init])


lemma att_run_ok_reach: "att_reach_ok s \<Longrightarrow> att_run_ok s es = Some t \<Longrightarrow> att_reach_ok t"
proof (induction es arbitrary: s)
  case Nil
  then show ?case by simp
next
  case (Cons e es)
  then obtain s' where h: "att_honest s e" and q: "att_quiet s e"
    and s': "att_step s e = Some s'" and r: "att_run_ok s' es = Some t"
    by (auto split: if_splits option.splits)
  from Cons.prems(1) h q s' have "att_reach_ok s'" by (rule att_reach_ok.step)
  then show ?case using r by (rule Cons.IH)
qed

lemma roster_offers_select [simp]:
  "roster_offers (handle_select_employee i s) j = roster_offers s j"
  by (simp add: roster_offers_def handle_select_employee_def load_records_def)

subsection \<open>Consistency of the records shown\<close>

lemma att_consistent_init: "att_consistent (att_init today)"
  by (simp add: att_consistent_def att_init_def)

text \<open>Each step keeps the records consistent with the selection, provided the response
  is honest and no new selection is made while a records request is in flight.\<close>

lemma att_step_consistent:
  assumes c: "att_consistent s" and st: "att_step s e = Some t"
    and h: "att_honest s e" and q: "att_quiet s e"
  shows "att_consistent t"
proof (cases e)
  case (SelectEmployee i)
  with st q show ?thesis
    by (auto simp: att_consistent_def att_quiet_def handle_select_employee_def load_records_def
             list_all_iff split: if_splits)
next
  case (RecordsSettled k r)
  with st obtain e d ps where tp: "take_pending k (a_pending s) = Some (PLoad e d, ps)"
    and t: "t = settle_records r (s\<lparr>a_pending := ps\<rparr>)"
    by (auto split: option.splits att_pending.splits)
  from c tp have "e = a_selected s"
    and "list_all (\<lambda>p. pending_target p = None \<or> pending_target p = Some (a_selected s)) ps"
    by (auto simp: att_consistent_def dest: list_all_take_pending)
  with RecordsSettled h tp t c show ?thesis
    by (auto simp: att_consistent_def att_honest_def settle_records_def list_all_iff split: option.splits)
next
  case (MarkSettled k r)
  with st obtain sel f filt emps ps where tp: "take_pending k (a_pending s) = Some (PMark sel f filt emps, ps)"
    and t: "t = settle_mark sel f filt emps r (s\<lparr>a_pending := ps\<rparr>)"
    by (auto split: option.splits att_pending.splits)
  from c tp have "sel = a_selected s"
    and "list_all (\<lambda>p. pending_target p = None \<or> pending_target p = Some (a_selected s)) ps"
    by (auto simp: att_consistent_def dest: list_all_take_pending)
  with t c show ?thesis
    by (auto simp: att_consistent_def settle_mark_def load_records_def split: sum.splits)
next
  case (EmployeesSettled k r)
  with st obtain ps where tp: "take_pending k (a_pending s) = Some (PEmployees, ps)"
    and t: "t = settle_employees r (s\<lparr>a_pending := ps\<rparr>)"
    by (auto split: option.splits att_pending.splits)
  from c tp have "list_all (\<lambda>p. pending_target p = None \<or> pending_target p = Some (a_selected s)) ps"
    by (auto simp: att_consistent_def dest: list_all_take_pending)
  with t c show ?thesis
    by (auto simp: att_consistent_def settle_employees_def split: option.splits)
qed (use c st in \<open>auto simp: att_consistent_def handle_filter_date_def handle_mark_def
   load_records_def split: if_splits\<close>)

lemma att_reach_ok_consistent: "att_reach_ok s \<Longrightarrow> att_consistent s"
proof (induction rule: att_reach_ok.induct)
  case (init today)
  show ?case by (rule att_consistent_init)
next
  case (step s e s')
  then show ?case by (blast intro: att_step_consistent)
qed

subsection \<open>The flags against the promises in flight\<close>

lemma att_flags_init: "att_flags_ok (att_init today)"
  by (simp add: att_flags_ok_def att_init_def)

lemma att_step_flags:
  assumes c: "att_flags_ok s" and st: "att_step s e = Some t"
  shows "att_flags_ok t"
proof (cases e)
  case (RecordsSettled k r)
  with st obtain e d ps where tp: "take_pending k (a_pending s) = Some (PLoad e d, ps)"
    and t: "t = settle_records r (s\<lparr>a_pending := ps\<rparr>)"
    by (auto split: option.splits att_pending.splits)
  from tp have "length (filter is_mark (a_pending s)) = length (filter is_mark ps)"
    and "count (mset (a_pending s)) PEmployees = count (mset ps) PEmployees"
    by (simp_all add: take_pending_filter_length [OF tp] take_pending_count [OF tp])
  with t c show ?thesis
    by (auto simp: att_flags_ok_def settle_records_def split: option.splits)
next
  case (MarkSettled k r)
  with st obtain sel f filt emps ps where tp: "take_pending k (a_pending s) = Some (PMark sel f filt emps, ps)"
    and t: "t = settle_mark sel f filt emps r (s\<lparr>a_pending := ps\<rparr>)"
    by (auto split: option.splits att_pending.splits)
  from tp have "length (filter is_mark (a_pending s)) = Suc (length (filter is_mark ps))"
    and "count (mset (a_pending s)) PEmployees = count (mset ps) PEmployees"
    by (simp_all add: take_pending_filter_length [OF tp] take_pending_count [OF tp])
  moreover from tp have "list_ex is_load ps = list_ex is_load (a_pending s)"
    by (rule take_pending_list_ex) simp
  ultimately show ?thesis using t c
    by (auto simp: att_flags_ok_def settle_mark_def load_records_def split: sum.splits if_splits)
next
  case (EmployeesSettled k r)
  with st obtain ps where tp: "take_pending k (a_pending s) = Some (PEmployees, ps)"
    and t: "t = settle_employees r (s\<lparr>a_pending := ps\<rparr>)"
    by (auto split: option.splits att_pending.splits)
  from tp have "length (filter is_mark (a_pending s)) = length (filter is_mark ps)"
    and "count (mset (a_pending s)) PEmployees = Suc (count (mset ps) PEmployees)"
    by (simp_all add: take_pending_filter_length [OF tp] take_pending_count [OF tp])
  moreover from tp have "list_ex is_load ps = list_ex is_load (a_pending s)"
    by (rule take_pending_list_ex) simp
  ultimately show ?thesis using t c
    by (auto simp: att_flags_ok_def settle_employees_def split: option.splits if_splits)
qed (use c st in \<open>auto simp: att_flags_ok_def handle_select_employee_def handle_filter_date_def
   handle_mark_def load_records_def mark_enabled_def roster_offers_def split: if_splits\<close>)

lemma att_reach_flags: "att_reach s \<Longrightarrow> att_flags_ok s"
proof (induction rule: att_reach.induct)
  case (init today)
  show ?case by (rule att_flags_init)
next
  case (step s e s')
  then show ?case by (blast intro: att_step_flags)
qed

subsection \<open>Selecting an employee: responses that arrive out of order\<close>

text \<open>C1. The page does not discard a stale response. From any state in which the roster
  offers two employees \<open>a\<close> and \<open>b\<close>, selecting \<open>a\<close> and then \<open>b\<close> and letting
  \<open>b\<close>'s request settle before \<open>a\<close>'s leaves \<open>b\<close> selected while the page shows
  the records and summary of \<open>a\<close>'s response (spec section 5 requires such responses
  to be discarded).\<close>

theorem stale_response_overwrites_selection:
  assumes "roster_offers s a" and "roster_offers s b" and "a \<noteq> []" and "b \<noteq> []"
  shows "\<exists>t. att_run s [SelectEmployee a, SelectEmployee b,
                         RecordsSettled (Suc (length (a_pending s))) (Some (rb, sb)),
                         RecordsSettled (length (a_pending s)) (Some (ra, sa))] = Some t
           \<and> a_selected t = b \<and> a_records t = ra \<and> a_summary t = Some sa"
  using assms by (simp add: handle_select_employee_def load_records_def settle_records_def roster_offers_def)

theorem stale_response_overwrites_selection_witness:
  "roster_offers demo_loaded ''EMP001'' \<and> roster_offers demo_loaded ''EMP002'' \<and>
   (\<exists>t. att_run demo_loaded [SelectEmployee ''EMP001'', SelectEmployee ''EMP002'',
                             RecordsSettled 1 (Some ([], demo_sum)),
                             RecordsSettled 0 (Some ([demo_rec], demo_sum))] = Some t
        \<and> a_selected t = ''EMP002'' \<and> a_records t = [demo_rec] \<and> a_summary t = Some demo_sum)"
proof -
  have r: "roster_offers demo_loaded ''EMP001'' \<and> roster_offers demo_loaded ''EMP002''"
    by (simp add: roster_offers_def demo_defs)
  have p: "length (a_pending demo_loaded) = 0" by (simp add: demo_defs)
  show ?thesis
    using r stale_response_overwrites_selection [of demo_loaded "''EMP001''" "''EMP002''" "[]" demo_sum
                                                  "[demo_rec]" demo_sum]
    by (simp add: p)
qed

text \<open>C2. What the page does guarantee: when every response carries the records of the
  employee (and date) it was asked for, and no employee is selected while a records
  request or a mark is in flight, every record shown belongs to the selected employee.\<close>

theorem att_reach_ok_records_of_selected:
  "att_reach_ok s \<Longrightarrow> list_all (\<lambda>r. rec_employee r = a_selected s) (a_records s)"
  by (drule att_reach_ok_consistent) (simp add: att_consistent_def)

theorem att_reach_ok_records_of_selected_witness:
  "\<exists>t. att_run_ok (att_init ''2024-01-10'')
         [EmployeesSettled 0 (Some [demo_asha, demo_ravi]), SelectEmployee ''EMP001'',
          RecordsSettled 0 (Some ([demo_rec], demo_sum))] = Some t
       \<and> a_records t = [demo_rec] \<and> list_all (\<lambda>r. rec_employee r = a_selected t) (a_records t)"
proof -
  obtain t where run: "att_run_ok (att_init ''2024-01-10'')
         [EmployeesSettled 0 (Some [demo_asha, demo_ravi]), SelectEmployee ''EMP001'',
          RecordsSettled 0 (Some ([demo_rec], demo_sum))] = Some t" and rs: "a_records t = [demo_rec]"
    by (simp add: att_init_def att_handler_defs roster_offers_def att_honest_def att_quiet_def
                  demo_asha_def demo_ravi_def demo_rec_def)
  have "att_reach_ok t" by (rule att_run_ok_reach [OF att_reach_ok.init run])
  then have "list_all (\<lambda>r. rec_employee r = a_selected t) (a_records t)"
    by (rule att_reach_ok_records_of_selected)
  with run rs show ?thesis by blast
qed

subsection \<open>Marking attendance\<close>

text \<open>C3. No duplicate submission: in every reachable state at most one mark request is
  in flight, and \<open>saving\<close> (which disables the mark button) holds exactly while one is.\<close>

theorem att_reach_saving_single_mark:
  "att_reach s \<Longrightarrow> length (filter is_mark (a_pending s)) = (if a_saving s then 1 else 0)"
  by (drule att_reach_flags) (simp add: att_flags_ok_def)

theorem att_reach_saving_single_mark_witness:
  "\<exists>t. att_run (att_init ''2024-01-10'')
         [EmployeesSettled 0 (Some [demo_asha]), SelectEmployee ''EMP001'', SubmitMark ''2024-01-10''] = Some t
       \<and> a_saving t \<and> length (filter is_mark (a_pending t)) = 1"
proof -
  obtain t where run: "att_run (att_init ''2024-01-10'')
         [EmployeesSettled 0 (Some [demo_asha]), SelectEmployee ''EMP001'', SubmitMark ''2024-01-10''] = Some t"
    and sv: "a_saving t"
    by (simp add: att_init_def att_handler_defs roster_offers_def mark_enabled_def demo_asha_def)
  have "length (filter is_mark (a_pending t)) = (if a_saving t then 1 else 0)"
    by (rule att_reach_saving_single_mark [OF att_init_reach_run [OF run]])
  with run sv show ?thesis by simp
qed

subsection \<open>Filtering\<close>

text \<open>C6. Filtering by a date issues a new records request scoped to that date, and
  clearing the filter (the empty date) an unscoped one; in both cases the summary is
  requested again, although spec section 4.1 says a filter does not refetch it.\<close>

theorem filter_refetches_records_and_summary:
  assumes "att_step s (FilterDate d) = Some t"
  shows "issued t = issued s @ [GetAttendance (a_selected s) (if d = [] then None else Some d),
                                GetAttendanceSummary (a_selected s)] \<and> a_filter t = d"
  using assms by (auto simp: issued_def handle_filter_date_def load_records_def load_calls_def split: if_splits)

theorem filter_refetches_records_and_summary_witness:
  "\<exists>t. att_step demo_selected (FilterDate ''2024-01-10'') = Some t \<and>
       issued t = issued demo_selected @ [GetAttendance ''EMP001'' (Some ''2024-01-10''),
                                          GetAttendanceSummary ''EMP001'']"
proof -
  obtain t where st: "att_step demo_selected (FilterDate ''2024-01-10'') = Some t"
    by (simp add: demo_defs)
  have sel: "a_selected demo_selected = ''EMP001''" by (simp add: demo_defs)
  show ?thesis using st filter_refetches_records_and_summary [OF st] sel by auto
qed

text \<open>C7. A stale filter response is shown: filtering by \<open>d1\<close> and then \<open>d2\<close> and
  letting the \<open>d1\<close> request settle last shows \<open>d1\<close>'s records under the filter
  \<open>d2\<close>.\<close>

theorem stale_filter_response_shown:
  assumes "a_selected s \<noteq> []"
  shows "\<exists>t. att_run s [FilterDate d1, FilterDate d2,
                         RecordsSettled (Suc (length (a_pending s))) (Some (r2, s2)),
                         RecordsSettled (length (a_pending s)) (Some (r1, s1))] = Some t
           \<and> a_filter t = d2 \<and> a_records t = r1"
  using assms by (simp add: handle_filter_date_def load_records_def settle_records_def)

theorem stale_filter_response_shown_witness:
  "a_selected demo_selected \<noteq> [] \<and>
   (\<exists>t. att_run demo_selected [FilterDate ''2024-01-09'', FilterDate ''2024-01-10'',
                               RecordsSettled 1 (Some ([demo_rec], demo_sum)),
                               RecordsSettled 0 (Some ([], demo_sum))] = Some t
        \<and> a_filter t = ''2024-01-10'' \<and> a_records t = [])"
proof -
  have h: "a_selected demo_selected \<noteq> []" and p: "length (a_pending demo_selected) = 0"
    by (simp_all add: demo_defs)
  show ?thesis
    using h stale_filter_response_shown [OF h, of "''2024-01-09''" "''2024-01-10''" "[demo_rec]" demo_sum "[]" demo_sum]
    by (simp add: p)
qed

text \<open>C8. The loading indicator of the records table is cleared by the first request
  that settles, although a later request is still in flight.\<close>

theorem loading_cleared_while_load_pending:
  assumes "a_selected s \<noteq> []"
  shows "\<exists>t. att_run s [FilterDate d1, FilterDate d2,
                         RecordsSettled (length (a_pending s)) (Some (r1, s1))] = Some t
           \<and> \<not> a_loading_recs t \<and> a_pending t = a_pending s @ [PLoad (a_selected s) d2]"
  using assms by (simp add: handle_filter_date_def load_records_def settle_records_def)

theorem loading_cleared_while_load_pending_witness:
  "a_selected demo_selected \<noteq> [] \<and>
   (\<exists>t. att_run demo_selected [FilterDate ''2024-01-09'', FilterDate ''2024-01-10'',
                               RecordsSettled 0 (Some ([], demo_sum))] = Some t
        \<and> \<not> a_loading_recs t \<and> a_pending t = [PLoad ''EMP001'' ''2024-01-10''])"
proof -
  have h: "a_selected demo_selected \<noteq> []" and p: "a_pending demo_selected = []"
    and sel: "a_selected demo_selected = ''EMP001''"
    by (simp_all add: demo_defs)
  show ?thesis
    using h loading_cleared_while_load_pending [OF h, of "''2024-01-09''" "''2024-01-10''" "[]" demo_sum]
    by (simp add: p sel)
qed

subsection \<open>Errors and submissions\<close>

text \<open>C9. A failed mark keeps everything on display (records, summary, selection, the
  form's values) and shows the backend's \<open>detail\<close>, or the generic message when there
  is none or it is empty; the error is never blank, and saving ends.\<close>

theorem mark_failure_keeps_records:
  assumes "att_step s (MarkSettled k (Inl detail)) = Some t"
  shows "a_records t = a_records s \<and> a_summary t = a_summary s \<and> a_selected t = a_selected s
         \<and> a_form t = a_form s \<and> a_form_error t = js_or_opt detail ''Failed to mark attendance.''
         \<and> a_form_error t \<noteq> [] \<and> \<not> a_saving t"
  using assms
  by (auto simp: settle_mark_def js_or_opt_nonempty_result split: option.splits att_pending.splits)

theorem mark_failure_keeps_records_witness:
  "\<exists>t. att_step (handle_mark demo_selected) (MarkSettled 0 (Inl None)) = Some t
       \<and> a_form_error t = ''Failed to mark attendance.'' \<and> a_selected t = ''EMP001''"
proof -
  obtain t where st: "att_step (handle_mark demo_selected) (MarkSettled 0 (Inl None)) = Some t"
    by (simp add: handle_mark_def demo_defs)
  have sel: "a_selected (handle_mark demo_selected) = ''EMP001''"
    by (simp add: handle_mark_def demo_defs)
  show ?thesis using st mark_failure_keeps_records [OF st] sel by auto
qed

text \<open>C10. Submitting the form issues exactly one mark request, for the selected employee
  with the form's date and status, and only when an employee is selected, nothing is being
  saved and the date is non-empty and not after today; saving then holds.\<close>

theorem submit_mark_issues_request:
  assumes "att_step s (SubmitMark today) = Some t"
  shows "issued t = issued s @ [MarkAttendance (a_selected s) (form_date (a_form s)) (form_status (a_form s))]
         \<and> a_selected s \<noteq> [] \<and> \<not> a_saving s \<and> form_date (a_form s) \<noteq> []
         \<and> form_date (a_form s) \<le> today \<and> a_saving t"
  using assms by (auto simp: issued_def handle_mark_def mark_enabled_def split: if_splits)

theorem submit_mark_issues_request_witness:
  "\<exists>t. att_step demo_selected (SubmitMark ''2024-01-10'') = Some t \<and>
       issued t = issued demo_selected @ [MarkAttendance ''EMP001'' ''2024-01-10'' Present]"
proof -
  obtain t where st: "att_step demo_selected (SubmitMark ''2024-01-10'') = Some t"
    by (simp add: demo_defs mark_enabled_def)
  have f: "a_selected demo_selected = ''EMP001'' \<and> a_form demo_selected = \<lparr>form_date = ''2024-01-10'', form_status = Present\<rparr>"
    by (simp add: demo_defs)
  show ?thesis using st submit_mark_issues_request [OF st] f by auto
qed

subsection \<open>The workflow of spec section 8\<close>

text \<open>An empty roster suppresses the workflow: once the roster has loaded empty, no
  employee can be selected.\<close>

theorem empty_roster_offers_no_selection:
  "\<exists>t. att_run (att_init today) [EmployeesSettled 0 (Some [])] = Some t
       \<and> a_employees t = [] \<and> \<not> a_loading_emps t \<and> (\<forall>i. att_step t (SelectEmployee i) = None)"
  by (simp add: att_init_def roster_offers_def settle_employees_def)

subsection \<open>Loading flags\<close>

text \<open>C11. In every reachable state the roster spinner shows exactly while the roster
  request is in flight, and the records skeleton only while some records request is.\<close>

theorem att_reach_loading_flags:
  "att_reach s \<Longrightarrow> (a_loading_emps s \<longleftrightarrow> PEmployees \<in> set (a_pending s))
                 \<and> (a_loading_recs s \<longrightarrow> list_ex is_load (a_pending s))"
proof -
  assume "att_reach s"
  then have "att_flags_ok s" by (rule att_reach_flags)
  moreover have "PEmployees \<in> set (a_pending s) \<longleftrightarrow> count (mset (a_pending s)) PEmployees \<noteq> 0"
    by (simp add: count_mset_0_iff)
  ultimately show ?thesis by (simp add: att_flags_ok_def)
qed

theorem att_reach_loading_flags_witness:
  "\<exists>t. att_run (att_init ''2024-01-10'') [EmployeesSettled 0 (Some [demo_asha]), SelectEmployee ''EMP001''] = Some t
       \<and> \<not> a_loading_emps t \<and> PEmployees \<notin> set (a_pending t) \<and> a_loading_recs t \<and> list_ex is_load (a_pending t)"
proof -
  obtain t where run: "att_run (att_init ''2024-01-10'') [EmployeesSettled 0 (Some [demo_asha]), SelectEmployee ''EMP001''] = Some t"
    and f: "\<not> a_loading_emps t \<and> a_loading_recs t"
    by (simp add: att_init_def att_handler_defs roster_offers_def demo_asha_def)
  have "(a_loading_emps t \<longleftrightarrow> PEmployees \<in> set (a_pending t)) \<and> (a_loading_recs t \<longrightarrow> list_ex is_load (a_pending t))"
    by (rule att_reach_loading_flags [OF att_init_reach_run [OF run]])
  with run f show ?thesis by blast
qed

end
