(* ===== verification/Workflow.thy ===== *)
theory Workflow
  imports Attendance
begin

text \<open>
  The Attendance workflow of spec section 4.1 as an abstract state machine, and its
  refinement by the page. The abstract states are \<open>NoEmployeeSelected\<close> and the three
  sub-states of \<open>EmployeeSelected\<close> (\<open>RecordsLoading\<close> for the employee and the date
  filter of the fetch, \<open>RecordsLoaded\<close>, \<open>RecordsFiltered\<close>), with the orthogonal
  \<open>Submitting\<close> flag; the transitions are the spec's: select, filter, mark, and the
  completion of a fetch or of a mark. \<open>att_abs\<close> reads the abstract state off the page's
  state (\<open>selectedEmp\<close>, \<open>loadingRecs\<close>, \<open>filterDate\<close>, \<open>saving\<close>).

  The page refines the machine when the operator works serially: no selection or filter
  while a fetch or a mark is in flight, no mark while a fetch is (the mark button is
  already disabled while saving), and the roster holds no empty identifier (the add form
  requires one). Without that discipline the page leaves the machine: C1, C7 and C8 show the
  runs.
\<close>

datatype wf_state =
    NoEmployeeSelected
  | RecordsLoading string string
  | RecordsLoaded string
  | RecordsFiltered string string

record wf =
  wf_phase :: wf_state
  wf_submitting :: bool

datatype wf_label = WSelect string | WFilter string | WSubmit | WMarkDone bool | WRecordsDone | WStutter

fun wf_selected :: "wf_state \<Rightarrow> string option" where
  "wf_selected NoEmployeeSelected = None"
| "wf_selected (RecordsLoading e _) = Some e"
| "wf_selected (RecordsLoaded e) = Some e"
| "wf_selected (RecordsFiltered e _) = Some e"

fun wf_filter :: "wf_state \<Rightarrow> string" where
  "wf_filter (RecordsLoading _ d) = d"
| "wf_filter (RecordsFiltered _ d) = d"
| "wf_filter _ = []"

definition wf_done :: "string \<Rightarrow> string \<Rightarrow> wf_state" where
  "wf_done e d = (if d = [] then RecordsLoaded e else RecordsFiltered e d)"

text \<open>The transitions of spec section 4.1. A mark that succeeds re-runs the fetch with
  the active filter; one that fails leaves the records as they are; a fetch completes into
  \<open>RecordsLoaded\<close> or \<open>RecordsFiltered\<close> by its filter, whether it succeeded or
  not (a failure shows the error and no records).\<close>

inductive wf_step :: "wf \<Rightarrow> wf_label \<Rightarrow> wf \<Rightarrow> bool" where
  select: "i \<noteq> [] \<Longrightarrow> wf_step w (WSelect i) (w\<lparr>wf_phase := RecordsLoading i []\<rparr>)"
| filter: "wf_selected (wf_phase w) = Some e \<Longrightarrow> wf_step w (WFilter d) (w\<lparr>wf_phase := RecordsLoading e d\<rparr>)"
| submit: "wf_selected (wf_phase w) = Some e \<Longrightarrow> \<not> wf_submitting w \<Longrightarrow>
           wf_step w WSubmit (w\<lparr>wf_submitting := True\<rparr>)"
| mark_ok: "wf_submitting w \<Longrightarrow> wf_selected (wf_phase w) = Some e \<Longrightarrow>
            wf_step w (WMarkDone True) \<lparr>wf_phase = RecordsLoading e (wf_filter (wf_phase w)), wf_submitting = False\<rparr>"
| mark_fail: "wf_submitting w \<Longrightarrow> wf_step w (WMarkDone False) (w\<lparr>wf_submitting := False\<rparr>)"
| records_done: "wf_phase w = RecordsLoading e d \<Longrightarrow> wf_step w WRecordsDone (w\<lparr>wf_phase := wf_done e d\<rparr>)"
| stutter: "wf_step w WStutter w"

text \<open>The abstraction of the page's state, and the abstract transition each event is.\<close>

definition att_abs :: "att_state \<Rightarrow> wf" where
  "att_abs s =
     \<lparr>wf_phase = (if a_selected s = [] then NoEmployeeSelected
                  else if a_loading_recs s then RecordsLoading (a_selected s) (a_filter s)
                  else wf_done (a_selected s) (a_filter s)),
      wf_submitting = a_saving s\<rparr>"

fun event_label :: "att_event \<Rightarrow> wf_label" where
  "event_label (SelectEmployee i) = WSelect i"
| "event_label (FilterDate d) = WFilter d"
| "event_label (SubmitMark _) = WSubmit"
| "event_label (MarkSettled _ r) = WMarkDone (\<not> isl r)"
| "event_label (RecordsSettled _ _) = WRecordsDone"
| "event_label _ = WStutter"

text \<open>The serial operator, and the runs in which the operator works serially.\<close>

fun att_serial :: "att_state \<Rightarrow> att_event \<Rightarrow> bool" where
  "att_serial s (SelectEmployee _) = list_all (\<lambda>p. \<not> is_load p \<and> \<not> is_mark p) (a_pending s)"
| "att_serial s (FilterDate _) = list_all (\<lambda>p. \<not> is_load p \<and> \<not> is_mark p) (a_pending s)"
| "att_serial s (SubmitMark _) = list_all (\<lambda>p. \<not> is_load p) (a_pending s)"
| "att_serial s (EmployeesSettled _ (Some es)) = list_all (\<lambda>e. employee_id e \<noteq> []) es"
| "att_serial s _ = True"

inductive att_serial_reach :: "att_state \<Rightarrow> bool" where
  init: "att_serial_reach (att_init today)"
| step: "att_serial_reach s \<Longrightarrow> att_serial s e \<Longrightarrow> att_step s e = Some t \<Longrightarrow> att_serial_reach t"

text \<open>What serial runs keep: the loading flag is up exactly while the one fetch is in
  flight, a fetch and a mark are never in flight together, and every fetch and mark in
  flight is for the selection and the active filter.\<close>

fun pending_fits :: "string \<Rightarrow> string \<Rightarrow> att_pending \<Rightarrow> bool" where
  "pending_fits sel flt (PLoad e d) = (e = sel \<and> d = flt \<and> e \<noteq> [])"
| "pending_fits sel flt (PMark e _ filt _) = (e = sel \<and> filt = flt \<and> e \<noteq> [])"
| "pending_fits sel flt PEmployees = True"

definition serial_core :: "att_state \<Rightarrow> bool" where
  "serial_core s =
     ((a_loading_recs s = list_ex is_load (a_pending s)) \<and>
      length (filter is_load (a_pending s)) \<le> 1 \<and>
      \<not> (list_ex is_load (a_pending s) \<and> list_ex is_mark (a_pending s)) \<and>
      list_all (pending_fits (a_selected s) (a_filter s)) (a_pending s) \<and>
      list_all (\<lambda>e. employee_id e \<noteq> []) (a_employees s))"

definition att_serial_ok :: "att_state \<Rightarrow> bool" where
  "att_serial_ok s = (att_flags_ok s \<and> serial_core s)"

subsection \<open>The invariant of serial runs\<close>

lemma serial_core_init: "serial_core (att_init today)"
  by (simp add: serial_core_def att_init_def)

lemma serial_settle_records:
  assumes ok: "serial_core s" and tp: "take_pending k (a_pending s) = Some (PLoad e d, ps)"
  shows "serial_core (settle_records r (s\<lparr>a_pending := ps\<rparr>))"
proof -
  have "length (filter is_load (a_pending s)) = Suc (length (filter is_load ps))"
    using take_pending_filter_length [OF tp, of is_load] by simp
  with ok have noload: "\<not> list_ex is_load ps" "length (filter is_load ps) = 0"
    by (simp_all add: serial_core_def list_ex_filter_length)
  have "list_ex is_mark ps \<Longrightarrow> list_ex is_mark (a_pending s)"
    using take_pending_list_ex [OF tp, of is_mark] by simp
  moreover have "list_ex is_load (a_pending s)"
    using take_pending_set [OF tp] by (auto simp: list_ex_iff intro: bexI [of _ "PLoad e d"])
  moreover have "list_all (pending_fits (a_selected s) (a_filter s)) ps"
    using ok list_all_take_pending [OF tp, of "pending_fits (a_selected s) (a_filter s)"]
    by (simp add: serial_core_def)
  ultimately show ?thesis using ok noload
    by (simp add: serial_core_def) (auto simp: settle_records_def split: option.splits)
qed

lemma serial_settle_mark:
  assumes ok: "att_serial_ok s" and tp: "take_pending k (a_pending s) = Some (PMark sel f filt emps, ps)"
  shows "serial_core (settle_mark sel f filt emps r (s\<lparr>a_pending := ps\<rparr>))"
proof -
  have fits: "pending_fits (a_selected s) (a_filter s) (PMark sel f filt emps)"
    and fits_ps: "list_all (pending_fits (a_selected s) (a_filter s)) ps"
    using ok list_all_take_pending [OF tp, of "pending_fits (a_selected s) (a_filter s)"]
    by (auto simp: att_serial_ok_def serial_core_def)
  have "list_ex is_mark (a_pending s)"
    using take_pending_set [OF tp] by (auto simp: list_ex_iff intro: bexI [of _ "PMark sel f filt emps"])
  with ok have noload_s: "\<not> list_ex is_load (a_pending s)" and nl: "\<not> a_loading_recs s"
    by (auto simp: att_serial_ok_def serial_core_def)
  then have noload: "\<not> list_ex is_load ps" "length (filter is_load ps) = 0"
    using take_pending_list_ex [OF tp, of is_load] by (simp_all add: list_ex_filter_length)
  have "length (filter is_mark (a_pending s)) = Suc (length (filter is_mark ps))"
    using take_pending_filter_length [OF tp, of is_mark] by simp
  with ok have nomark: "\<not> list_ex is_mark ps"
    by (simp add: att_serial_ok_def att_flags_ok_def list_ex_filter_length split: if_splits)
  show ?thesis
    using ok fits fits_ps noload nomark nl
    by (cases r) (auto simp: serial_core_def att_serial_ok_def settle_mark_def load_records_def
                             list_ex_filter_length)
qed

lemma serial_settle_employees:
  assumes ok: "serial_core s" and tp: "take_pending k (a_pending s) = Some (PEmployees, ps)"
    and ids: "\<And>es. r = Some es \<Longrightarrow> list_all (\<lambda>e. employee_id e \<noteq> []) es"
  shows "serial_core (settle_employees r (s\<lparr>a_pending := ps\<rparr>))"
proof -
  have "list_ex is_load ps = list_ex is_load (a_pending s)" "list_ex is_mark ps = list_ex is_mark (a_pending s)"
    "length (filter is_load ps) = length (filter is_load (a_pending s))"
    using take_pending_list_ex [OF tp, of is_load] take_pending_list_ex [OF tp, of is_mark]
      take_pending_filter_length [OF tp, of is_load] by simp_all
  moreover have "list_all (pending_fits (a_selected s) (a_filter s)) ps"
    using ok list_all_take_pending [OF tp, of "pending_fits (a_selected s) (a_filter s)"]
    by (simp add: serial_core_def)
  ultimately show ?thesis using ok ids
    by (cases r) (auto simp: serial_core_def settle_employees_def)
qed

lemma idle_pending_fits:
  "list_all (\<lambda>p. \<not> is_load p \<and> \<not> is_mark p) xs \<Longrightarrow> list_all (pending_fits sel flt) xs"
proof (induction xs)
  case (Cons p xs) then show ?case by (cases p) simp_all
qed simp

lemma idle_no_load:
  "list_all (\<lambda>p. \<not> is_load p \<and> \<not> is_mark p) xs \<Longrightarrow>
     filter is_load xs = [] \<and> \<not> list_ex is_load xs \<and> \<not> list_ex is_mark xs"
  by (induction xs) auto

lemma no_load_filter: "list_all (\<lambda>p. \<not> is_load p) xs \<Longrightarrow> filter is_load xs = [] \<and> \<not> list_ex is_load xs"
  by (induction xs) auto

lemma att_step_serial_ok:
  assumes ok: "att_serial_ok s" and ser: "att_serial s e" and st: "att_step s e = Some t"
  shows "att_serial_ok t"
proof -
  have core: "serial_core s" and fl: "att_flags_ok s" using ok by (simp_all add: att_serial_ok_def)
  have "serial_core t"
  proof (cases e)
    case (SelectEmployee i)
    with st have ro: "roster_offers s i" and t: "t = handle_select_employee i s" by (simp_all split: if_splits)
    from ro core have "i \<noteq> []" by (auto simp: roster_offers_def serial_core_def list_all_iff)
    with ser SelectEmployee t core show ?thesis
      by (auto simp: serial_core_def handle_select_employee_def load_records_def
                     idle_pending_fits dest: idle_no_load)
  next
    case (FilterDate d)
    with st have sel: "a_selected s \<noteq> []" and t: "t = handle_filter_date d s" by (simp_all split: if_splits)
    with ser FilterDate core show ?thesis
      by (auto simp: serial_core_def handle_filter_date_def load_records_def
                     idle_pending_fits dest: idle_no_load)
  next
    case (SubmitMark today)
    with st have me: "mark_enabled today s" and t: "t = handle_mark s" by (simp_all split: if_splits)
    with ser SubmitMark core show ?thesis
      by (auto simp: serial_core_def handle_mark_def mark_enabled_def dest: no_load_filter)
  next
    case (EmployeesSettled k r)
    with st obtain ps where tp: "take_pending k (a_pending s) = Some (PEmployees, ps)"
      and t: "t = settle_employees r (s\<lparr>a_pending := ps\<rparr>)"
      by (auto split: option.splits prod.splits att_pending.splits)
    have "\<And>es. r = Some es \<Longrightarrow> list_all (\<lambda>e. employee_id e \<noteq> []) es" using ser EmployeesSettled by auto
    with serial_settle_employees [OF core tp] t show ?thesis by blast
  next
    case (RecordsSettled k r)
    with st obtain e d ps where tp: "take_pending k (a_pending s) = Some (PLoad e d, ps)"
      and t: "t = settle_records r (s\<lparr>a_pending := ps\<rparr>)"
      by (auto split: option.splits prod.splits att_pending.splits)
    with serial_settle_records [OF core tp] show ?thesis by blast
  next
    case (MarkSettled k r)
    with st obtain sel f filt emps ps where tp: "take_pending k (a_pending s) = Some (PMark sel f filt emps, ps)"
      and t: "t = settle_mark sel f filt emps r (s\<lparr>a_pending := ps\<rparr>)"
      by (auto split: option.splits prod.splits att_pending.splits)
    with serial_settle_mark [OF ok tp] show ?thesis by blast
  qed (use st core in \<open>auto simp: serial_core_def split: if_splits\<close>)
  with att_step_flags [OF fl st] show ?thesis by (simp add: att_serial_ok_def)
qed

lemma att_serial_reach_ok: "att_serial_reach s \<Longrightarrow> att_serial_ok s"
proof (induction rule: att_serial_reach.induct)
  case (init today)
  show ?case by (simp add: att_serial_ok_def att_flags_init serial_core_init)
next
  case (step s e t)
  then show ?case by (blast intro: att_step_serial_ok)
qed

subsection \<open>The abstraction\<close>

lemma wf_selected_abs [simp]:
  "a_selected s \<noteq> [] \<Longrightarrow> wf_selected (wf_phase (att_abs s)) = Some (a_selected s)"
  by (simp add: att_abs_def wf_done_def)

lemma wf_filter_abs [simp]:
  "a_selected s \<noteq> [] \<Longrightarrow> wf_filter (wf_phase (att_abs s)) = a_filter s"
  by (simp add: att_abs_def wf_done_def)

lemma att_abs_stutter:
  "a_selected t = a_selected s \<Longrightarrow> a_loading_recs t = a_loading_recs s \<Longrightarrow> a_filter t = a_filter s \<Longrightarrow>
   a_saving t = a_saving s \<Longrightarrow> att_abs t = att_abs s"
  by (simp add: att_abs_def)

lemma serial_pending_fits:
  "att_serial_ok s \<Longrightarrow> take_pending k (a_pending s) = Some (p, ps) \<Longrightarrow>
     pending_fits (a_selected s) (a_filter s) p"
  using list_all_take_pending [of k "a_pending s" p ps "pending_fits (a_selected s) (a_filter s)"]
  by (simp add: att_serial_ok_def serial_core_def)

lemma serial_load_in_flight:
  "att_serial_ok s \<Longrightarrow> take_pending k (a_pending s) = Some (PLoad e d, ps) \<Longrightarrow> a_loading_recs s"
proof -
  assume ok: "att_serial_ok s" and tp: "take_pending k (a_pending s) = Some (PLoad e d, ps)"
  have "list_ex is_load (a_pending s)"
    using take_pending_set [OF tp] by (auto simp: list_ex_iff intro: bexI [of _ "PLoad e d"])
  with ok show ?thesis by (simp add: att_serial_ok_def serial_core_def)
qed

lemma serial_mark_in_flight:
  "att_serial_ok s \<Longrightarrow> take_pending k (a_pending s) = Some (PMark sel f filt emps, ps) \<Longrightarrow> a_saving s"
  using take_pending_filter_length [of k "a_pending s" "PMark sel f filt emps" ps is_mark]
  by (auto simp: att_serial_ok_def att_flags_ok_def split: if_splits)

subsection \<open>Refinement\<close>

text \<open>C31. Refinement of the workflow of spec section 4.1: in every run of the page in
  which the operator works serially, every step the page takes is a transition of the
  spec's state machine between the abstractions of the states before and after
  (selection, filter, mark and completions; every other event a stutter).\<close>

theorem att_step_refines_workflow:
  assumes r: "att_serial_reach s" and ser: "att_serial s e" and st: "att_step s e = Some t"
  shows "wf_step (att_abs s) (event_label e) (att_abs t)"
proof -
  have ok: "att_serial_ok s" using r by (rule att_serial_reach_ok)
  show ?thesis
  proof (cases e)
    case (SelectEmployee i)
    with st have ro: "roster_offers s i" and t: "t = handle_select_employee i s" by (simp_all split: if_splits)
    from ro ok have i: "i \<noteq> []" by (auto simp: roster_offers_def att_serial_ok_def serial_core_def list_all_iff)
    have "att_abs t = (att_abs s)\<lparr>wf_phase := RecordsLoading i []\<rparr>"
      using i by (simp add: t att_abs_def handle_select_employee_def load_records_def)
    with i SelectEmployee show ?thesis by (simp add: wf_step.select)
  next
    case (FilterDate d)
    with st have sel: "a_selected s \<noteq> []" and t: "t = handle_filter_date d s" by (simp_all split: if_splits)
    have "att_abs t = (att_abs s)\<lparr>wf_phase := RecordsLoading (a_selected s) d\<rparr>"
      using sel by (simp add: t att_abs_def handle_filter_date_def load_records_def)
    with sel FilterDate show ?thesis by (simp add: wf_step.filter)
  next
    case (SubmitMark today)
    with st have me: "mark_enabled today s" and t: "t = handle_mark s" by (simp_all split: if_splits)
    have "att_abs t = (att_abs s)\<lparr>wf_submitting := True\<rparr>" by (simp add: t att_abs_def handle_mark_def)
    moreover have "wf_step (att_abs s) WSubmit ((att_abs s)\<lparr>wf_submitting := True\<rparr>)"
      using me by (intro wf_step.submit [of _ "a_selected s"]) (simp_all add: mark_enabled_def att_abs_def wf_done_def)
    ultimately show ?thesis using SubmitMark by simp
  next
    case (MarkSettled k r)
    with st obtain sel f filt emps ps where tp: "take_pending k (a_pending s) = Some (PMark sel f filt emps, ps)"
      and t: "t = settle_mark sel f filt emps r (s\<lparr>a_pending := ps\<rparr>)"
      by (auto split: option.splits prod.splits att_pending.splits)
    have fit: "sel = a_selected s" "filt = a_filter s" "sel \<noteq> []" using serial_pending_fits [OF ok tp] by auto
    have sv: "wf_submitting (att_abs s)" using serial_mark_in_flight [OF ok tp] by (simp add: att_abs_def)
    show ?thesis
    proof (cases r)
      case (Inl detail)
      then have "att_abs t = (att_abs s)\<lparr>wf_submitting := False\<rparr>" by (simp add: t att_abs_def settle_mark_def)
      with sv MarkSettled Inl show ?thesis by (simp add: wf_step.mark_fail)
    next
      case (Inr u)
      then have "att_abs t = \<lparr>wf_phase = RecordsLoading sel filt, wf_submitting = False\<rparr>"
        using fit by (simp add: t att_abs_def settle_mark_def load_records_def)
      moreover have "wf_step (att_abs s) (WMarkDone True)
          \<lparr>wf_phase = RecordsLoading sel (wf_filter (wf_phase (att_abs s))), wf_submitting = False\<rparr>"
        using sv fit by (intro wf_step.mark_ok) simp_all
      ultimately show ?thesis using fit MarkSettled Inr by simp
    qed
  next
    case (RecordsSettled k r)
    with st obtain e' d ps where tp: "take_pending k (a_pending s) = Some (PLoad e' d, ps)"
      and t: "t = settle_records r (s\<lparr>a_pending := ps\<rparr>)"
      by (auto split: option.splits prod.splits att_pending.splits)
    have fit: "a_selected s \<noteq> []" using serial_pending_fits [OF ok tp] by auto
    have ph: "wf_phase (att_abs s) = RecordsLoading (a_selected s) (a_filter s)"
      using fit serial_load_in_flight [OF ok tp] by (simp add: att_abs_def)
    have "att_abs t = (att_abs s)\<lparr>wf_phase := wf_done (a_selected s) (a_filter s)\<rparr>"
      using fit by (simp add: t att_abs_def settle_records_def split: option.splits)
    with ph RecordsSettled show ?thesis by (simp add: wf_step.records_done)
  next
    case (EmployeesSettled k r)
    with st obtain ps where t: "t = settle_employees r (s\<lparr>a_pending := ps\<rparr>)"
      by (auto split: option.splits prod.splits att_pending.splits)
    have "att_abs t = att_abs s" by (rule att_abs_stutter) (simp_all add: t settle_employees_def split: option.splits)
    with EmployeesSettled show ?thesis by (simp add: wf_step.stutter)
  qed (use st in \<open>auto simp: att_abs_def split: if_splits intro: wf_step.stutter\<close>)
qed

theorem att_step_refines_workflow_witness:
  "\<exists>s t. att_serial_reach s \<and> att_serial s (RecordsSettled 0 (Some ([demo_rec], demo_sum)))
     \<and> att_step s (RecordsSettled 0 (Some ([demo_rec], demo_sum))) = Some t
     \<and> wf_step (att_abs s) WRecordsDone (att_abs t) \<and> wf_phase (att_abs t) = RecordsLoaded ''EMP001''"
proof -
  let ?s0 = "att_init ''2024-01-10''"
  obtain s1 where st1: "att_step ?s0 (EmployeesSettled 0 (Some [demo_asha])) = Some s1"
    and s1: "s1 = settle_employees (Some [demo_asha]) (?s0\<lparr>a_pending := []\<rparr>)"
    by (simp add: att_init_def)
  have r1: "att_serial_reach s1"
    by (rule att_serial_reach.step [OF att_serial_reach.init _ st1]) (simp add: demo_asha_def)
  obtain s2 where st2: "att_step s1 (SelectEmployee ''EMP001'') = Some s2"
    and s2: "s2 = handle_select_employee ''EMP001'' s1"
    by (simp add: s1 att_init_def settle_employees_def roster_offers_def demo_asha_def)
  have r2: "att_serial_reach s2"
    by (rule att_serial_reach.step [OF r1 _ st2]) (simp add: s1 att_init_def settle_employees_def)
  obtain t where st: "att_step s2 (RecordsSettled 0 (Some ([demo_rec], demo_sum))) = Some t"
    and ph: "wf_phase (att_abs t) = RecordsLoaded ''EMP001''"
    by (simp add: s2 s1 att_init_def settle_employees_def handle_select_employee_def load_records_def
                  settle_records_def att_abs_def wf_done_def)
  have ser: "att_serial s2 (RecordsSettled 0 (Some ([demo_rec], demo_sum)))" by simp
  show ?thesis using att_step_refines_workflow [OF r2 ser st] r2 ser st ph by auto
qed

end
