(* ===== verification/Backend.thy ===== *)
theory Backend
  imports Api
begin

text \<open>
  The backend collaborator, which the repository does not contain: modelled from the
  spec (sections 3, 6 and 8) so that the front end's requests can be followed to their
  answers. Its state is the roster and the attendance records; \<open>serve\<close> answers one
  \<open>api_call\<close>, \<open>Inl\<close> with an optional \<open>detail\<close> for an error response;
  \<open>serve_request\<close> first routes the HTTP request the client built (\<open>Api.route\<close>),
  answering 404 when no route matches. Deleting an employee removes their records, as the
  Employees page's confirmation says. A second mark for the same employee and date is
  refused, which keeps (employee, date) unique (spec section 3).
\<close>

record backend =
  b_employees :: "employee list"
  b_records :: "att_record list"
  b_next_id :: nat

datatype response =
    RespEmployees "employee list"
  | RespEmployee employee
  | RespDeleted
  | RespRecords "att_record list"
  | RespRecord att_record
  | RespSummary att_summary
  | RespStats dash_stats

definition known :: "backend \<Rightarrow> string \<Rightarrow> bool" where
  "known b e = (e \<in> set (map employee_id (b_employees b)))"

definition records_of :: "backend \<Rightarrow> string \<Rightarrow> string option \<Rightarrow> att_record list" where
  "records_of b e d = filter (\<lambda>r. rec_employee r = e \<and> (case d of None \<Rightarrow> True | Some x \<Rightarrow> rec_date r = x))
                             (b_records b)"

definition summary_of :: "att_record list \<Rightarrow> att_summary" where
  "summary_of rs = \<lparr>total_days = length rs,
                    present_days = length (filter (\<lambda>r. rec_status r = Present) rs),
                    absent_days = length (filter (\<lambda>r. rec_status r = Absent) rs)\<rparr>"

definition stats_of :: "string \<Rightarrow> backend \<Rightarrow> dash_stats" where
  "stats_of today b =
     \<lparr>total_employees = length (b_employees b),
      departments = length (remdups (map department (b_employees b))),
      present_today = length (filter (\<lambda>r. rec_date r = today \<and> rec_status r = Present) (b_records b)),
      absent_today = length (filter (\<lambda>r. rec_date r = today \<and> rec_status r = Absent) (b_records b))\<rparr>"

fun serve :: "string \<Rightarrow> backend \<Rightarrow> api_call \<Rightarrow> backend \<times> (string option + response)" where
  "serve today b GetEmployees = (b, Inr (RespEmployees (b_employees b)))"
| "serve today b (AddEmployee e) =
     (if known b (employee_id e) then (b, Inl (Some ''Employee ID already exists.''))
      else (b\<lparr>b_employees := b_employees b @ [e]\<rparr>, Inr (RespEmployee e)))"
| "serve today b (DeleteEmployee i) =
     (if known b i
      then (b\<lparr>b_employees := filter (\<lambda>e. employee_id e \<noteq> i) (b_employees b),
              b_records := filter (\<lambda>r. rec_employee r \<noteq> i) (b_records b)\<rparr>, Inr RespDeleted)
      else (b, Inl (Some ''Employee not found.'')))"
| "serve today b (GetAttendance e d) =
     (if known b e then (b, Inr (RespRecords (records_of b e d)))
      else (b, Inl (Some ''Employee not found.'')))"
| "serve today b (MarkAttendance e d st) =
     (if \<not> known b e then (b, Inl (Some ''Employee not found.''))
      else if records_of b e (Some d) \<noteq> [] then (b, Inl (Some ''Attendance already marked for this date.''))
      else (let r = \<lparr>rec_id = b_next_id b, rec_employee = e, rec_date = d, rec_status = st\<rparr>
            in (b\<lparr>b_records := b_records b @ [r], b_next_id := Suc (b_next_id b)\<rparr>, Inr (RespRecord r))))"
| "serve today b (GetAttendanceSummary e) =
     (if known b e then (b, Inr (RespSummary (summary_of (records_of b e None))))
      else (b, Inl (Some ''Employee not found.'')))"
| "serve today b GetDashboardStats = (b, Inr (RespStats (stats_of today b)))"

definition serve_request :: "string \<Rightarrow> backend \<Rightarrow> request \<Rightarrow> backend \<times> (string option + response)" where
  "serve_request today b req =
     (case route req of None \<Rightarrow> (b, Inl (Some ''Not Found'')) | Some c \<Rightarrow> serve today b c)"

text \<open>The backend's contract of spec section 3: (employee, date) identifies a record.\<close>

definition backend_ok :: "backend \<Rightarrow> bool" where
  "backend_ok b = distinct (map (\<lambda>r. (rec_employee r, rec_date r)) (b_records b))"

subsection \<open>Lemmas\<close>

lemma records_of_None_Some:
  "records_of b e (Some d) = filter (\<lambda>r. rec_date r = d) (records_of b e None)"
  by (simp add: records_of_def)

lemma serve_read_only:
  "c \<in> {GetEmployees, GetDashboardStats} \<or> (\<exists>e d. c = GetAttendance e d) \<or> (\<exists>e. c = GetAttendanceSummary e)
   \<Longrightarrow> fst (serve today b c) = b"
  by (auto split: if_splits)

lemma distinct_map_filter: "distinct (map f xs) \<Longrightarrow> distinct (map f (filter P xs))"
  by (induction xs) auto

lemma route_client [simp]:
  "url_safe e \<Longrightarrow> route (getAttendance e d) = Some (norm_call (GetAttendance e d))"
  "url_safe e \<Longrightarrow> route (getAttendanceSummary e) = Some (GetAttendanceSummary e)"
  "url_safe e \<Longrightarrow> route (deleteEmployee e) = Some (DeleteEmployee e)"
  "route (markAttendance e dt st) = Some (MarkAttendance e dt st)"
  "route getEmployees = Some GetEmployees"
  "route (addEmployee emp) = Some (AddEmployee emp)"
  "route getDashboardStats = Some GetDashboardStats"
  by (simp_all add: route_def url_safe_nonempty split: option.splits)

lemma filter_status_partition:
  "length (filter (\<lambda>r. rec_status r = Present) rs) + length (filter (\<lambda>r. rec_status r = Absent) rs)
     = length rs"
proof (induction rs)
  case (Cons r rs) then show ?case by (cases "rec_status r") auto
qed simp

lemma serve_backend_ok: "backend_ok b \<Longrightarrow> backend_ok (fst (serve today b c))"
proof (cases c)
  case (MarkAttendance e d st)
  assume ok: "backend_ok b"
  show ?thesis
  proof (cases "known b e \<and> records_of b e (Some d) = []")
    case True
    then have "(e, d) \<notin> set (map (\<lambda>r. (rec_employee r, rec_date r)) (b_records b))"
      by (auto simp: records_of_def filter_empty_conv)
    with ok True MarkAttendance show ?thesis by (simp add: backend_ok_def Let_def)
  next
    case False
    with ok MarkAttendance show ?thesis by (auto simp: backend_ok_def)
  qed
next
  case (DeleteEmployee i)
  assume ok: "backend_ok b"
  with DeleteEmployee show ?thesis by (simp add: backend_ok_def distinct_map_filter)
qed (auto simp: backend_ok_def)

end
