(* ===== verification/Connected.thy ===== *)
theory Connected
  imports Attendance Backend
begin

text \<open>
  The Attendance page connected to the backend. A promise of the page settles with the
  answer the backend gives to the requests it stands for (\<open>pending_calls\<close>, built
  by the client of \<open>api.js\<close> and routed by \<open>route\<close>): \<open>Promise.all\<close> of
  the records and the summary settles with both or fails, a mark settles with the
  backend's error detail or succeeds. The backend serves a promise's requests when the
  promise settles; as settling may happen in any order, every order in which the backend
  serves the page's requests is a run. The user's actions are the page's other events.
\<close>

record att_sys =
  sys_backend :: backend
  sys_page :: att_state

datatype sys_event = UserAct att_event | Deliver nat

fun is_settle :: "att_event \<Rightarrow> bool" where
  "is_settle (EmployeesSettled _ _) = True"
| "is_settle (RecordsSettled _ _) = True"
| "is_settle (MarkSettled _ _) = True"
| "is_settle _ = False"

text \<open>The event with which the backend settles promise \<open>k\<close>, and the backend after
  serving it.\<close>

fun answer :: "string \<Rightarrow> backend \<Rightarrow> nat \<Rightarrow> att_pending \<Rightarrow> backend \<times> att_event" where
  "answer today b k PEmployees =
     (case serve_request today b (request_of GetEmployees) of
        (b', Inr (RespEmployees es)) \<Rightarrow> (b', EmployeesSettled k (Some es))
      | (b', _) \<Rightarrow> (b', EmployeesSettled k None))"
| "answer today b k (PLoad e d) =
     (case serve_request today b (request_of (load_calls e d ! 0)) of
        (b1, r1) \<Rightarrow>
          (case serve_request today b1 (request_of (load_calls e d ! 1)) of
             (b2, r2) \<Rightarrow>
               (b2, RecordsSettled k (case (r1, r2) of
                                       (Inr (RespRecords rs), Inr (RespSummary sm)) \<Rightarrow> Some (rs, sm)
                                     | _ \<Rightarrow> None))))"
| "answer today b k (PMark e f _ _) =
     (case serve_request today b (request_of (MarkAttendance e (form_date f) (form_status f))) of
        (b', Inl detail) \<Rightarrow> (b', MarkSettled k (Inl detail))
      | (b', Inr _) \<Rightarrow> (b', MarkSettled k (Inr ())))"

fun sys_step :: "string \<Rightarrow> att_sys \<Rightarrow> sys_event \<Rightarrow> att_sys option" where
  "sys_step today S (UserAct ev) =
     (if is_settle ev then None
      else map_option (\<lambda>s. S\<lparr>sys_page := s\<rparr>) (att_step (sys_page S) ev))"
| "sys_step today S (Deliver k) =
     (if k < length (a_pending (sys_page S))
      then (case answer today (sys_backend S) k (a_pending (sys_page S) ! k) of
              (b', ev) \<Rightarrow> map_option (\<lambda>s. \<lparr>sys_backend = b', sys_page = s\<rparr>) (att_step (sys_page S) ev))
      else None)"

fun sys_run :: "string \<Rightarrow> att_sys \<Rightarrow> sys_event list \<Rightarrow> att_sys option" where
  "sys_run today S [] = Some S"
| "sys_run today S (e # es) = (case sys_step today S e of None \<Rightarrow> None | Some S' \<Rightarrow> sys_run today S' es)"

text \<open>Connected runs in which the operator waits for the page (\<open>att_quiet\<close>), from a
  backend keeping its contract whose employee identifiers are URL-safe.\<close>

definition ids_safe :: "backend \<Rightarrow> bool" where
  "ids_safe b = list_all (\<lambda>e. url_safe (employee_id e)) (b_employees b)"

fun sys_quiet :: "att_sys \<Rightarrow> sys_event \<Rightarrow> bool" where
  "sys_quiet S (UserAct ev) = att_quiet (sys_page S) ev"
| "sys_quiet S (Deliver _) = True"

inductive sys_reach_ok :: "string \<Rightarrow> att_sys \<Rightarrow> bool" where
  init: "backend_ok b \<Longrightarrow> ids_safe b \<Longrightarrow> sys_reach_ok today \<lparr>sys_backend = b, sys_page = att_init d\<rparr>"
| step: "sys_reach_ok today S \<Longrightarrow> sys_quiet S e \<Longrightarrow> sys_step today S e = Some S' \<Longrightarrow> sys_reach_ok today S'"

text \<open>What the page holds of identifiers: the roster's, the selection and the target of
  every promise are URL-safe.\<close>

definition page_ids_ok :: "att_state \<Rightarrow> bool" where
  "page_ids_ok s =
     (list_all (\<lambda>e. url_safe (employee_id e)) (a_employees s) \<and>
      (a_selected s = [] \<or> url_safe (a_selected s)) \<and>
      list_all (\<lambda>p. case pending_target p of None \<Rightarrow> True | Some e \<Rightarrow> url_safe e) (a_pending s))"

fun emps_safe :: "att_event \<Rightarrow> bool" where
  "emps_safe (EmployeesSettled _ (Some es)) = list_all (\<lambda>e. url_safe (employee_id e)) es"
| "emps_safe _ = True"

text \<open>The work still owed to the page: a mark counts twice, as its success starts a
  reload.\<close>

fun pending_weight :: "att_pending \<Rightarrow> nat" where
  "pending_weight (PMark _ _ _ _) = 2"
| "pending_weight _ = 1"

definition pend_measure :: "att_state \<Rightarrow> nat" where
  "pend_measure s = sum_list (map pending_weight (a_pending s))"

subsection \<open>Lemmas\<close>

lemma serve_request_GET: "req_method r = GET \<Longrightarrow> fst (serve_request today b r) = b"
  by (auto simp: serve_request_def route_def Let_def split: option.splits if_splits payload.splits)

lemma serve_request_mark:
  "serve_request today b (markAttendance e d st) = serve today b (MarkAttendance e d st)"
  by (simp add: serve_request_def)

lemma answer_fst:
  "fst (answer today b k p) =
     (case p of PMark e f _ _ \<Rightarrow> fst (serve today b (MarkAttendance e (form_date f) (form_status f)))
              | _ \<Rightarrow> b)"
proof (cases p)
  case PEmployees
  then show ?thesis
    using serve_request_GET [of getEmployees today b]
    by (cases "serve_request today b getEmployees") (auto simp: getEmployees_def split: sum.splits response.splits)
next
  case (PLoad e d)
  obtain b1 r1 where 1: "serve_request today b (request_of (load_calls e d ! 0)) = (b1, r1)"
    by (cases "serve_request today b (request_of (load_calls e d ! 0))")
  obtain b2 r2 where 2: "serve_request today b1 (request_of (load_calls e d ! 1)) = (b2, r2)"
    by (cases "serve_request today b1 (request_of (load_calls e d ! 1))")
  have "b1 = b" using serve_request_GET [of "request_of (load_calls e d ! 0)" today b] 1
    by (simp add: load_calls_def getAttendance_def)
  moreover have "b2 = b1" using serve_request_GET [of "request_of (load_calls e d ! 1)" today b1] 2
    by (simp add: load_calls_def getAttendanceSummary_def)
  ultimately show ?thesis using PLoad 1 2 by simp
next
  case (PMark e f filt emps)
  then show ?thesis
    by (cases "serve today b (MarkAttendance e (form_date f) (form_status f))")
       (auto simp: serve_request_mark split: sum.splits)
qed


lemma answer_employees:
  "answer today b k PEmployees = (b, EmployeesSettled k (Some (b_employees b)))"
  by (simp add: serve_request_def)

lemma answer_load:
  "url_safe e \<Longrightarrow> answer today b k (PLoad e d) =
     (b, RecordsSettled k (if known b e
                           then Some (records_of b e (if d = [] then None else Some d),
                                      summary_of (records_of b e None))
                           else None))"
  by (simp add: load_calls_def serve_request_def)

lemma answer_load_cut:
  assumes "url_safe p" and "x \<in> {CHR ''?'', CHR ''#''}"
  shows "\<exists>d. answer today b k (PLoad (p @ x # q) []) =
           (b, RecordsSettled k (if known b p then Some (records_of b p d, summary_of (records_of b p None))
                                 else None))"
proof -
  obtain d where r1: "route (getAttendance (p @ x # q) None) = Some (GetAttendance p d)"
    using route_cut(1) [OF assms] by blast
  have r2: "route (getAttendanceSummary (p @ x # q)) = Some (GetAttendanceSummary p)"
    using route_cut(2) [OF assms] .
  show ?thesis
    by (intro exI [of _ d]) (simp add: load_calls_def serve_request_def r1 r2)
qed

lemma answer_mark:
  "answer today b k (PMark e f filt emps) =
     (case serve today b (MarkAttendance e (form_date f) (form_status f)) of
        (b', Inl detail) \<Rightarrow> (b', MarkSettled k (Inl detail))
      | (b', Inr _) \<Rightarrow> (b', MarkSettled k (Inr ())))"
  by (simp add: serve_request_mark)

lemma answer_honest:
  assumes "k < length (a_pending s)" and "a_pending s ! k = p"
    and "case pending_target p of None \<Rightarrow> True | Some e \<Rightarrow> url_safe e"
  shows "att_honest s (snd (answer today b k p))"
proof (cases p)
  case (PLoad e d)
  with assms have u: "url_safe e" by simp
  with assms PLoad show ?thesis
    by (auto simp: answer_load [OF u] att_honest_def records_of_def list_all_iff take_pending_def
                   simp del: answer.simps)
next
  case (PMark e f filt emps)
  then show ?thesis
    by (auto simp: answer_mark att_honest_def split: prod.splits sum.splits)
qed (simp add: answer_employees att_honest_def del: answer.simps)

lemma page_ids_init: "page_ids_ok (att_init d)"
  by (simp add: page_ids_ok_def att_init_def)

lemma page_ids_load:
  "page_ids_ok s \<Longrightarrow> (e = [] \<or> url_safe e) \<Longrightarrow> page_ids_ok (load_records e d s)"
  by (auto simp: page_ids_ok_def load_records_def)

lemma page_ids_settle:
  assumes "page_ids_ok s" and "take_pending k (a_pending s) = Some (p, ps)"
  shows "page_ids_ok (s\<lparr>a_pending := ps\<rparr>)"
    and "case pending_target p of None \<Rightarrow> True | Some e \<Rightarrow> url_safe e"
  using assms list_all_take_pending [OF assms(2), of "\<lambda>p. case pending_target p of None \<Rightarrow> True | Some e \<Rightarrow> url_safe e"]
  by (simp_all add: page_ids_ok_def)

lemma page_ids_step:
  assumes ok: "page_ids_ok s" and st: "att_step s ev = Some t" and es: "emps_safe ev"
  shows "page_ids_ok t"
proof (cases ev)
  case (SelectEmployee i)
  with st have "roster_offers s i" by (simp split: if_splits)
  with ok have "url_safe i" by (auto simp: roster_offers_def page_ids_ok_def list_all_iff)
  with ok st SelectEmployee show ?thesis
    by (auto simp: handle_select_employee_def page_ids_ok_def load_records_def split: if_splits)
next
  case (EmployeesSettled k r)
  with st obtain ps where tp: "take_pending k (a_pending s) = Some (PEmployees, ps)"
    and t: "t = settle_employees r (s\<lparr>a_pending := ps\<rparr>)"
    by (auto split: option.splits prod.splits att_pending.splits)
  with page_ids_settle(1) [OF ok tp] es EmployeesSettled show ?thesis
    by (auto simp: settle_employees_def page_ids_ok_def split: option.splits)
next
  case (RecordsSettled k r)
  with st obtain e d ps where tp: "take_pending k (a_pending s) = Some (PLoad e d, ps)"
    and t: "t = settle_records r (s\<lparr>a_pending := ps\<rparr>)"
    by (auto split: option.splits prod.splits att_pending.splits)
  with page_ids_settle(1) [OF ok tp] show ?thesis
    by (auto simp: settle_records_def page_ids_ok_def split: option.splits)
next
  case (MarkSettled k r)
  with st obtain sel f filt emps ps where tp: "take_pending k (a_pending s) = Some (PMark sel f filt emps, ps)"
    and t: "t = settle_mark sel f filt emps r (s\<lparr>a_pending := ps\<rparr>)"
    by (auto split: option.splits prod.splits att_pending.splits)
  have "page_ids_ok (s\<lparr>a_pending := ps\<rparr>)" and "url_safe sel"
    using page_ids_settle [OF ok tp] by simp_all
  then show ?thesis using t
    by (auto simp: settle_mark_def page_ids_ok_def load_records_def split: sum.splits)
qed (use ok st in \<open>auto simp: page_ids_ok_def handle_filter_date_def load_records_def handle_mark_def
                             mark_enabled_def split: if_splits\<close>)

lemma answer_load_event: "\<exists>r. snd (answer today b k (PLoad e d)) = RecordsSettled k r"
  by (simp split: prod.split)

lemma answer_event:
  "ids_safe b \<Longrightarrow> is_settle (snd (answer today b k p)) \<and> emps_safe (snd (answer today b k p))"
proof (cases p)
  case (PLoad e d)
  then show ?thesis using answer_load_event [of today b k e d] by auto
qed (auto simp: answer_employees answer_mark ids_safe_def simp del: answer.simps
          split: prod.splits sum.splits)

lemma answer_backend:
  assumes "backend_ok b" and "ids_safe b"
  shows "backend_ok (fst (answer today b k p)) \<and> ids_safe (fst (answer today b k p))"
proof -
  have "b_employees (fst (serve today b (MarkAttendance e d st))) = b_employees b" for e d st
    by (simp add: Let_def)
  with assms serve_backend_ok show ?thesis
    by (cases p) (simp_all add: answer_fst ids_safe_def del: serve.simps answer.simps)
qed

lemma not_settle_honest_quiet:
  "\<not> is_settle ev \<Longrightarrow> att_honest s ev \<and> emps_safe ev"
  by (cases ev) (simp_all add: att_honest_def)

lemma settle_quiet: "is_settle ev \<Longrightarrow> att_quiet s ev"
  by (cases ev) (simp_all add: att_quiet_def)

lemma sys_reach_ok_inv:
  "sys_reach_ok today S \<Longrightarrow>
     att_reach_ok (sys_page S) \<and> backend_ok (sys_backend S) \<and> ids_safe (sys_backend S) \<and>
     page_ids_ok (sys_page S)"
proof (induction rule: sys_reach_ok.induct)
  case (init b today d)
  then show ?case by (simp add: att_reach_ok.init page_ids_init)
next
  case (step today S e S')
  then have ok: "att_reach_ok (sys_page S)" "backend_ok (sys_backend S)" "ids_safe (sys_backend S)"
    "page_ids_ok (sys_page S)" by simp_all
  show ?case
  proof (cases e)
    case (UserAct ev)
    with step.hyps(3) obtain t where st: "att_step (sys_page S) ev = Some t"
      and S': "S' = S\<lparr>sys_page := t\<rparr>" and ns: "\<not> is_settle ev"
      by (auto split: if_splits)
    have q: "att_quiet (sys_page S) ev" using step.hyps(2) UserAct by simp
    from not_settle_honest_quiet [OF ns] have "att_honest (sys_page S) ev" "emps_safe ev" by simp_all
    with ok st q S' show ?thesis by (auto intro: att_reach_ok.step page_ids_step)
  next
    case (Deliver k)
    let ?p = "a_pending (sys_page S) ! k"
    obtain b' ev where a: "answer today (sys_backend S) k ?p = (b', ev)"
      by (cases "answer today (sys_backend S) k ?p")
    from step.hyps(3) Deliver a obtain t where k: "k < length (a_pending (sys_page S))"
      and st: "att_step (sys_page S) ev = Some t" and S': "S' = \<lparr>sys_backend = b', sys_page = t\<rparr>"
      by (auto split: if_splits)
    have tgt: "case pending_target ?p of None \<Rightarrow> True | Some e \<Rightarrow> url_safe e"
      using ok(4) k by (simp add: page_ids_ok_def list_all_iff)
    have h: "att_honest (sys_page S) ev"
      using answer_honest [OF k refl tgt, of today "sys_backend S"] a by simp
    have "is_settle ev" "emps_safe ev" using answer_event [OF ok(3), of today k ?p] a by simp_all
    moreover have "backend_ok b'" "ids_safe b'" using answer_backend [OF ok(2,3), of today k ?p] a by simp_all
    ultimately show ?thesis using ok st S' h
      by (auto intro: att_reach_ok.step page_ids_step settle_quiet)
  qed
qed

lemma settle_decreases:
  assumes st: "att_step s ev = Some t" and se: "is_settle ev"
  shows "pend_measure t < pend_measure s"
proof (cases ev)
  case (EmployeesSettled k r)
  with st obtain ps where tp: "take_pending k (a_pending s) = Some (PEmployees, ps)"
    and t: "t = settle_employees r (s\<lparr>a_pending := ps\<rparr>)"
    by (auto split: option.splits prod.splits att_pending.splits)
  then show ?thesis
    using take_pending_sum [OF tp, of pending_weight] by (simp add: pend_measure_def settle_employees_def split: option.splits)
next
  case (RecordsSettled k r)
  with st obtain e d ps where tp: "take_pending k (a_pending s) = Some (PLoad e d, ps)"
    and t: "t = settle_records r (s\<lparr>a_pending := ps\<rparr>)"
    by (auto split: option.splits prod.splits att_pending.splits)
  then show ?thesis
    using take_pending_sum [OF tp, of pending_weight] by (simp add: pend_measure_def settle_records_def split: option.splits)
next
  case (MarkSettled k r)
  with st obtain sel f filt emps ps where tp: "take_pending k (a_pending s) = Some (PMark sel f filt emps, ps)"
    and t: "t = settle_mark sel f filt emps r (s\<lparr>a_pending := ps\<rparr>)"
    by (auto split: option.splits prod.splits att_pending.splits)
  then show ?thesis
    using take_pending_sum [OF tp, of pending_weight]
    by (simp add: pend_measure_def settle_mark_def load_records_def split: sum.splits)
qed (use se in simp_all)

lemma answer_is_settle: "is_settle (snd (answer today b k p))"
proof (cases p)
  case (PLoad e d)
  then show ?thesis using answer_load_event [of today b k e d] by auto
qed (auto simp: answer_employees answer_mark simp del: answer.simps split: prod.splits sum.splits)

lemma deliver_decreases:
  assumes "sys_step today S (Deliver k) = Some S'"
  shows "pend_measure (sys_page S') < pend_measure (sys_page S)"
proof -
  let ?p = "a_pending (sys_page S) ! k"
  obtain b' ev where a: "answer today (sys_backend S) k ?p = (b', ev)"
    by (cases "answer today (sys_backend S) k ?p")
  from assms a obtain t where st: "att_step (sys_page S) ev = Some t" and S': "S' = \<lparr>sys_backend = b', sys_page = t\<rparr>"
    by (auto split: if_splits)
  have "is_settle ev" using answer_is_settle [of today "sys_backend S" k ?p] a by simp
  with settle_decreases [OF st] S' show ?thesis by simp
qed

end
