(* ===== verification/Quiescence.thy ===== *)
theory Quiescence
  imports Connected
begin

text \<open>
  Every request of the Attendance page is answered. \<open>sys_drain\<close> lets the backend
  answer the oldest promise in flight until none is left; it terminates because every
  settling lowers the work owed (\<open>pend_measure\<close>: a mark counts twice, as its success
  starts one reload, every other promise once). The page then rests: no promise in flight
  and no loading, saving or roster flag up.
\<close>

function sys_drain :: "string \<Rightarrow> att_sys \<Rightarrow> att_sys" where
  "sys_drain today S =
     (case sys_step today S (Deliver 0) of None \<Rightarrow> S | Some S' \<Rightarrow> sys_drain today S')"
  by pat_completeness auto
termination
  by (relation "measure (\<lambda>(today, S). pend_measure (sys_page S))") (auto simp del: sys_step.simps intro: deliver_decreases)

declare sys_drain.simps [simp del]

subsection \<open>Lemmas\<close>

lemma deliver_first_total:
  assumes "a_pending (sys_page S) \<noteq> []"
  shows "\<exists>S'. sys_step today S (Deliver 0) = Some S'"
proof -
  obtain p ps where pp: "a_pending (sys_page S) = p # ps" using assms by (cases "a_pending (sys_page S)") auto
  obtain b' ev where a: "answer today (sys_backend S) 0 p = (b', ev)"
    by (cases "answer today (sys_backend S) 0 p")
  have "\<exists>t. att_step (sys_page S) ev = Some t"
  proof (cases p)
    case PEmployees
    then show ?thesis using a pp by (auto simp: answer_employees simp del: answer.simps)
  next
    case (PLoad e d)
    then obtain r where "ev = RecordsSettled 0 r" using a answer_load_event [of today "sys_backend S" 0 e d] by auto
    with PLoad pp show ?thesis by simp
  next
    case (PMark e f filt emps)
    then obtain r where "ev = MarkSettled 0 r" using a
      by (auto simp: answer_mark simp del: answer.simps split: prod.splits sum.splits)
    with PMark pp show ?thesis by simp
  qed
  with a pp show ?thesis by auto
qed

lemma sys_step_att_reach:
  assumes r: "att_reach (sys_page S)" and st: "sys_step today S e = Some S'"
  shows "att_reach (sys_page S')"
proof (cases e)
  case (UserAct ev)
  with st r show ?thesis by (auto split: if_splits intro: att_reach.step)
next
  case (Deliver k)
  with st r show ?thesis by (auto split: if_splits prod.splits intro: att_reach.step)
qed

lemma sys_drain_idle_reach:
  "a_pending (sys_page (sys_drain today S)) = [] \<and>
   (att_reach (sys_page S) \<longrightarrow> att_reach (sys_page (sys_drain today S)))"
proof (induction today S rule: sys_drain.induct)
  case (1 today S)
  show ?case
  proof (cases "sys_step today S (Deliver 0)")
    case None
    then have "a_pending (sys_page S) = []" using deliver_first_total [of S today] by (auto simp del: sys_step.simps)
    with None show ?thesis by (simp add: sys_drain.simps)
  next
    case (Some S')
    with "1.IH" sys_step_att_reach [of S today "Deliver 0" S'] show ?thesis
      by (simp add: sys_drain.simps [of today S])
  qed
qed

subsection \<open>Properties\<close>

text \<open>C32. Termination: letting the backend answer the oldest promise in flight, over and
  over, ends after at most \<open>pend_measure\<close> answers (one per promise, two per mark) in a
  state with no promise in flight; \<open>sys_drain\<close> is that run's end.\<close>

theorem sys_drain_terminates:
  "\<exists>n. sys_run today S (replicate n (Deliver 0)) = Some (sys_drain today S)
       \<and> n \<le> pend_measure (sys_page S) \<and> a_pending (sys_page (sys_drain today S)) = []"
proof (induction today S rule: sys_drain.induct)
  case (1 today S)
  show ?case
  proof (cases "sys_step today S (Deliver 0)")
    case None
    then have "a_pending (sys_page S) = []" using deliver_first_total [of S today] by (auto simp del: sys_step.simps)
    with None show ?thesis by (intro exI [of _ 0]) (simp add: sys_drain.simps)
  next
    case (Some S')
    with "1.IH" obtain n where run: "sys_run today S' (replicate n (Deliver 0)) = Some (sys_drain today S')"
      and n: "n \<le> pend_measure (sys_page S')" and e: "a_pending (sys_page (sys_drain today S')) = []"
      by blast
    have "pend_measure (sys_page S') < pend_measure (sys_page S)" by (rule deliver_decreases [OF Some])
    with Some run n e show ?thesis
      by (intro exI [of _ "Suc n"]) (simp add: sys_drain.simps [of today S])
  qed
qed


text \<open>C33. Liveness: from every reachable state of the page, once the backend has answered
  everything in flight the page rests: no request pending, and the roster, records and
  saving flags are all down, so every control the flags disable is enabled again.\<close>

theorem drain_page_idle:
  assumes "att_reach (sys_page S)"
  shows "a_pending (sys_page (sys_drain today S)) = [] \<and> \<not> a_saving (sys_page (sys_drain today S))
         \<and> \<not> a_loading_recs (sys_page (sys_drain today S)) \<and> \<not> a_loading_emps (sys_page (sys_drain today S))"
proof -
  have e: "a_pending (sys_page (sys_drain today S)) = []"
    and r: "att_reach (sys_page (sys_drain today S))"
    using sys_drain_idle_reach [of today S] assms by simp_all
  from att_reach_flags [OF r] e show ?thesis by (simp add: att_flags_ok_def split: if_splits)
qed

theorem drain_page_idle_witness:
  "att_reach (sys_page \<lparr>sys_backend = \<lparr>b_employees = [demo_asha], b_records = [], b_next_id = 1\<rparr>,
                        sys_page = att_init ''2024-01-10''\<rparr>) \<and>
   \<not> a_loading_emps (sys_page (sys_drain ''2024-01-10''
        \<lparr>sys_backend = \<lparr>b_employees = [demo_asha], b_records = [], b_next_id = 1\<rparr>,
         sys_page = att_init ''2024-01-10''\<rparr>))"
proof -
  let ?S = "\<lparr>sys_backend = \<lparr>b_employees = [demo_asha], b_records = [], b_next_id = 1\<rparr>,
             sys_page = att_init ''2024-01-10''\<rparr>"
  have r: "att_reach (sys_page ?S)" by (simp add: att_reach.init)
  from drain_page_idle [OF r, of "''2024-01-10''"] r show ?thesis by simp
qed

end
