(* ===== verification/UI.thy ===== *)
theory UI
  imports Prelude
begin

text \<open>
  The presentational primitives of \<open>src/frontend/src/components/UI.jsx\<close> that decide
  what is shown and which handler a click reaches: \<open>Spinner\<close>'s size class,
  \<open>LoadingRows\<close>' skeleton grid, \<open>EmptyState\<close>, the two banners (rendered only for
  a non-empty message, with a dismiss button only when a handler is given), \<open>Modal\<close>
  and \<open>ConfirmDialog\<close>. A click on an open modal is followed through the DOM: the
  element hit is the topmost one under the pointer (the backdrop, \<open>absolute inset-0\<close>,
  covers the root outside the card), and the click bubbles from it to the root, running
  each handler on the way: the close button's \<open>onClose\<close>, and the root's
  \<open>e.target === e.currentTarget && onClose()\<close>. Colours, animation and the random
  skeleton widths are not modelled. \<open>StatCard\<close> is \<open>Dashboard.stat_card\<close>.
\<close>

definition spinner_class :: "string \<Rightarrow> string" where
  "spinner_class sz =
     (if sz = ''sm'' then ''w-4 h-4'' else if sz = ''lg'' then ''w-10 h-10'' else ''w-6 h-6'')"

definition loading_rows :: "nat \<Rightarrow> nat \<Rightarrow> unit list list" where
  "loading_rows cols rows = replicate rows (replicate cols ())"

record empty_view =
  ev_icon :: string
  ev_title :: string
  ev_subtitle :: "string option"

definition empty_state :: "string \<Rightarrow> string \<Rightarrow> string \<Rightarrow> empty_view" where
  "empty_state icon title subtitle =
     \<lparr>ev_icon = icon, ev_title = title, ev_subtitle = (if subtitle = [] then None else Some subtitle)\<rparr>"

record banner_view =
  bn_message :: string
  bn_dismiss :: bool

text \<open>\<open>ErrorBanner\<close> and \<open>SuccessBanner\<close> differ only in colour.\<close>

definition banner :: "string \<Rightarrow> bool \<Rightarrow> banner_view option" where
  "banner message on_dismiss =
     (if message = [] then None else Some \<lparr>bn_message = message, bn_dismiss = on_dismiss\<rparr>)"

subsection \<open>Modal and ConfirmDialog\<close>

datatype modal_elem = ModalRoot | ModalBackdrop | ModalCard | ModalClose

datatype modal_spot = OutsideCard | InsideCard | OnCloseButton

text \<open>The element a click on each spot hits: outside the card the backdrop lies over
  the root (it fills the root, padding included).\<close>

fun modal_hit :: "modal_spot \<Rightarrow> modal_elem" where
  "modal_hit OutsideCard = ModalBackdrop"
| "modal_hit InsideCard = ModalCard"
| "modal_hit OnCloseButton = ModalClose"

text \<open>The bubbling path from the element hit up to the modal's root.\<close>

fun modal_path :: "modal_elem \<Rightarrow> modal_elem list" where
  "modal_path ModalClose = [ModalClose, ModalCard, ModalRoot]"
| "modal_path ModalCard = [ModalCard, ModalRoot]"
| "modal_path ModalBackdrop = [ModalBackdrop, ModalRoot]"
| "modal_path ModalRoot = [ModalRoot]"

text \<open>The handlers on the path: the close button calls \<open>onClose\<close>; the root calls it
  when the target is the root itself.\<close>

definition modal_handler_fires :: "modal_elem \<Rightarrow> modal_elem \<Rightarrow> bool" where
  "modal_handler_fires target el = (el = ModalClose \<or> (el = ModalRoot \<and> target = ModalRoot))"

definition modal_onclose_calls :: "bool \<Rightarrow> modal_spot \<Rightarrow> nat" where
  "modal_onclose_calls opened spot =
     (if \<not> opened then 0
      else length (filter (modal_handler_fires (modal_hit spot)) (modal_path (modal_hit spot))))"

datatype confirm_click = CancelButton | DeleteButton | DialogClick modal_spot

datatype confirm_action = DoCancel | DoConfirm

text \<open>\<open>ConfirmDialog\<close>: a \<open>Modal\<close> whose \<open>onClose\<close> is \<open>onCancel\<close>, with Cancel
  and Delete buttons disabled while \<open>loading\<close>. The buttons sit in the card, so their
  clicks bubble to the root without closing.\<close>

definition confirm_dialog :: "bool \<Rightarrow> bool \<Rightarrow> confirm_click \<Rightarrow> confirm_action list" where
  "confirm_dialog opened loading c =
     (if \<not> opened then []
      else (case c of
              CancelButton \<Rightarrow> if loading then [] else [DoCancel]
            | DeleteButton \<Rightarrow> if loading then [] else [DoConfirm]
            | DialogClick spot \<Rightarrow> replicate (modal_onclose_calls opened spot) DoCancel))"

subsection \<open>Lemmas\<close>

lemma banner_None [simp]: "banner m d = None \<longleftrightarrow> m = []"
  by (simp add: banner_def)

subsection \<open>Properties\<close>

text \<open>C24. Clicking outside the card never closes a modal: the backdrop lies over the
  root, so the root's \<open>e.target === e.currentTarget\<close> test never holds, and only the
  close button calls \<open>onClose\<close> (once). In \<open>ConfirmDialog\<close> while \<open>loading\<close>,
  Cancel and Delete do nothing, yet the close button still cancels.\<close>

theorem modal_closes_only_by_button:
  "modal_onclose_calls True spot = (if spot = OnCloseButton then 1 else 0) \<and>
   confirm_dialog True True c = (if c = DialogClick OnCloseButton then [DoCancel] else [])"
proof -
  have m: "modal_onclose_calls True sp = (if sp = OnCloseButton then 1 else 0)" for sp
    by (cases sp) (simp_all add: modal_onclose_calls_def modal_handler_fires_def)
  show ?thesis using m by (cases c) (simp_all add: confirm_dialog_def)
qed

end
