(* ===== verification/AttendanceView.thy ===== *)
theory AttendanceView
  imports Attendance UI
begin

text \<open>
  What the Attendance page renders (\<open>pages/Attendance.jsx\<close>, the JSX after the
  handlers), as a value computed from the page's state: the error banner, step 1 (the
  roster: a spinner while loading, the empty-roster message, or one button per employee,
  marked when selected), and, while an employee is selected, the summary cards, step 2 (the
  heading with the employee's name, the success and form-error banners, the mark button,
  disabled with a spinner while saving) and step 3 (the clear-filter button and the
  records table: skeleton rows while loading, an empty state whose text depends on the
  filter, or one row per record). Without a selection and with a loaded non-empty roster a
  prompt to select is shown. The weekday column and the avatar letter are not modelled.
\<close>

datatype roster_view =
    RosterLoading
  | RosterEmpty string
  | RosterButtons "(string \<times> string \<times> string \<times> bool) list"

datatype records_view =
    RecordsSkeleton "unit list list"
  | RecordsEmpty empty_view
  | RecordsRows "(string \<times> string) list"

record step_view =
  sv_summary :: "(nat \<times> nat \<times> nat) option"
  sv_heading_name :: string
  sv_success :: "banner_view option"
  sv_form_error :: "banner_view option"
  sv_mark_disabled :: bool
  sv_mark_spinner :: bool
  sv_clear_shown :: bool
  sv_records :: records_view

record att_view =
  av_error :: "banner_view option"
  av_roster :: roster_view
  av_steps :: "step_view option"
  av_prompt :: "empty_view option"

definition roster_view_of :: "att_state \<Rightarrow> roster_view" where
  "roster_view_of s =
     (if a_loading_emps s then RosterLoading
      else if a_employees s = [] then RosterEmpty ''No employees found. Add employees first.''
      else RosterButtons (map (\<lambda>e. (employee_id e, full_name e, department e, a_selected s = employee_id e))
                              (a_employees s)))"

definition records_view_of :: "att_state \<Rightarrow> records_view" where
  "records_view_of s =
     (if a_loading_recs s then RecordsSkeleton (loading_rows 3 4)
      else if a_records s = [] then
        RecordsEmpty (if a_filter s \<noteq> []
                      then empty_state ''calendar'' ''No records for this date'' ''Try a different date''
                      else empty_state ''calendar'' ''No attendance records yet'' ''Mark attendance above to get started'')
      else RecordsRows (map (\<lambda>r. (rec_date r, status_name (rec_status r))) (a_records s)))"

text \<open>\<open>selectedEmpObj?.full_name\<close>: an id not in the roster renders no name.\<close>

definition heading_name :: "att_state \<Rightarrow> string" where
  "heading_name s = (case find (\<lambda>e. employee_id e = a_selected s) (a_employees s) of
                       None \<Rightarrow> [] | Some e \<Rightarrow> full_name e)"

definition att_render :: "att_state \<Rightarrow> att_view" where
  "att_render s =
     \<lparr>av_error = banner (a_error s) True,
      av_roster = roster_view_of s,
      av_steps = (if a_selected s = [] then None
                  else Some \<lparr>sv_summary = map_option (\<lambda>m. (total_days m, present_days m, absent_days m)) (a_summary s),
                             sv_heading_name = heading_name s,
                             sv_success = banner (a_success s) True,
                             sv_form_error = banner (a_form_error s) True,
                             sv_mark_disabled = a_saving s,
                             sv_mark_spinner = a_saving s,
                             sv_clear_shown = (a_filter s \<noteq> []),
                             sv_records = records_view_of s\<rparr>),
      av_prompt = (if a_selected s = [] \<and> \<not> a_loading_emps s \<and> a_employees s \<noteq> []
                   then Some (empty_state ''pointing'' ''Select an employee above''
                                          ''Choose an employee to view and mark their attendance'')
                   else None)\<rparr>"

end
