(* ===== verification/EmployeesDialog.thy ===== *)
theory EmployeesDialog
  imports Employees UI
begin

text \<open>
  The Employees page's two modals wired through the primitives of \<open>UI\<close>
  (\<open>pages/Employees.jsx\<close>, the \<open>Modal\<close> of the add form and the
  \<open>ConfirmDialog\<close> of a delete): a click on a modal becomes the page events its handlers
  run, in the order they run. The add modal's \<open>onClose\<close> is \<open>CloseAdd\<close>; the delete
  dialog is open while \<open>deleteTarget\<close> is set, loading while \<open>deleting\<close>, its
  \<open>onConfirm\<close> is \<open>handleDelete\<close> and its \<open>onCancel\<close> clears the target. Page
  inputs (the rows' delete buttons, the search box, a promise settling) are page events as
  they are.
\<close>

fun confirm_event :: "confirm_action \<Rightarrow> emp_event" where
  "confirm_event DoCancel = CancelDelete"
| "confirm_event DoConfirm = ConfirmDelete"

definition delete_dialog_events :: "emp_state \<Rightarrow> confirm_click \<Rightarrow> emp_event list" where
  "delete_dialog_events s c =
     map confirm_event (confirm_dialog (e_delete_target s \<noteq> None) (e_deleting s) c)"

definition add_modal_events :: "emp_state \<Rightarrow> modal_spot \<Rightarrow> emp_event list" where
  "add_modal_events s spot = replicate (modal_onclose_calls (e_show_add s) spot) CloseAdd"

datatype emp_input =
    PageInput emp_event
  | DeleteDialogClick confirm_click
  | AddModalClick modal_spot

fun emp_input_events :: "emp_state \<Rightarrow> emp_input \<Rightarrow> emp_event list" where
  "emp_input_events s (PageInput e) = [e]"
| "emp_input_events s (DeleteDialogClick c) = delete_dialog_events s c"
| "emp_input_events s (AddModalClick spot) = add_modal_events s spot"

fun emp_input_run :: "emp_state \<Rightarrow> emp_input list \<Rightarrow> emp_state option" where
  "emp_input_run s [] = Some s"
| "emp_input_run s (i # is) =
     (case emp_run s (emp_input_events s i) of None \<Rightarrow> None | Some s' \<Rightarrow> emp_input_run s' is)"

definition demo_two :: emp_state where
  "demo_two = emp_init\<lparr>e_loading := False, e_pending := [], e_employees := [demo_b, demo_c]\<rparr>"

subsection \<open>Lemmas\<close>

lemma delete_dialog_events_busy:
  assumes "e_delete_target s \<noteq> None" and "e_deleting s"
  shows "delete_dialog_events s c = (if c = DialogClick OnCloseButton then [CancelDelete] else [])"
proof -
  have "modal_onclose_calls True sp = (if sp = OnCloseButton then 1 else 0)" for sp
    by (cases sp) (simp_all add: modal_onclose_calls_def modal_handler_fires_def)
  then show ?thesis using assms
    by (cases c) (simp_all add: delete_dialog_events_def confirm_dialog_def)
qed

subsection \<open>Properties\<close>

text \<open>C13. A delete's success closes whatever dialog is open: while a delete is in flight the
  dialog's close button still cancels (Cancel and Delete are disabled), the operator can open
  the dialog for another employee, whose Delete is disabled, and when the first delete
  succeeds \<open>setDeleteTarget(null)\<close> closes that second dialog: the other employee is
  not deleted, only the reload is in flight, and the banner names the first.\<close>

theorem delete_success_closes_other_dialog:
  assumes "e_pending s = ps @ [EPDelete a]" and "e_delete_target s = Some a" and "e_deleting s"
    and "\<not> e_loading s" and "\<not> e_show_add s" and "b \<in> set (emp_filter (e_search s) (e_employees s))"
  shows "\<exists>t. emp_input_run s [DeleteDialogClick (DialogClick OnCloseButton), PageInput (RequestDelete b),
                              DeleteDialogClick DeleteButton, PageInput (DeleteSettled (length ps) (Inr ()))] = Some t
           \<and> e_delete_target t = None \<and> e_pending t = ps @ [EPLoad] \<and> e_employees t = e_employees s
           \<and> e_success t = ''Employee \"'' @ full_name a @ ''\" deleted.''"
proof -
  have close: "delete_dialog_events s (DialogClick OnCloseButton) = [CancelDelete]"
    using assms(2,3) delete_dialog_events_busy [of s] by simp
  let ?s1 = "s\<lparr>e_delete_target := None\<rparr>"
  let ?s2 = "?s1\<lparr>e_delete_target := Some b\<rparr>"
  have req: "emp_step ?s1 (RequestDelete b) = Some ?s2"
    using assms(4-6) by (simp add: page_free_def)
  have none: "delete_dialog_events ?s2 DeleteButton = []"
    using assms(3) delete_dialog_events_busy [of ?s2] by simp
  show ?thesis
    using assms(1,2) close req none by (simp add: settle_delete_def emp_load_def)
qed

theorem delete_success_closes_other_dialog_witness:
  "\<exists>s t. emp_run demo_two [RequestDelete demo_b, ConfirmDelete] = Some s
     \<and> e_pending s = [] @ [EPDelete demo_b] \<and> e_delete_target s = Some demo_b \<and> e_deleting s
     \<and> \<not> e_loading s \<and> \<not> e_show_add s \<and> demo_c \<in> set (emp_filter (e_search s) (e_employees s))
     \<and> emp_input_run s [DeleteDialogClick (DialogClick OnCloseButton), PageInput (RequestDelete demo_c),
                        DeleteDialogClick DeleteButton, PageInput (DeleteSettled (length ([] :: emp_pending list)) (Inr ()))] = Some t
     \<and> e_delete_target t = None \<and> e_pending t = [] @ [EPLoad] \<and> e_employees t = e_employees s"
proof -
  obtain s where run: "emp_run demo_two [RequestDelete demo_b, ConfirmDelete] = Some s"
    and p: "e_pending s = [] @ [EPDelete demo_b]" and tg: "e_delete_target s = Some demo_b"
    and d: "e_deleting s" and l: "\<not> e_loading s" and a: "\<not> e_show_add s"
    and c: "demo_c \<in> set (emp_filter (e_search s) (e_employees s))"
    by (simp add: demo_two_def emp_init_def page_free_def handle_delete_def emp_filter_def
                  emp_matches_def demo_b_def demo_c_def)
  from delete_success_closes_other_dialog [OF p tg d l a c] run p tg d l a c show ?thesis by blast
qed

end
