(* ===== verification/EmpConnected.thy ===== *)
theory EmpConnected
  imports Employees Backend
begin

text \<open>
  The Employees page connected to the backend, as \<open>Connected\<close> does for the Attendance
  page: a promise of the page settles with the backend's answer to the request it stands
  for (\<open>emp_pending_calls\<close>, built by \<open>request_of\<close> and routed by
  \<open>route\<close>). The roster request settles with the list or fails; an add settles with
  the backend's error detail or succeeds; a delete likewise (the page ignores the detail).
  The backend serves a promise's request when it settles, so every order of service is a
  run.
\<close>

record emp_sys =
  es_backend :: backend
  es_page :: emp_state

datatype emp_sys_event = EmpUser emp_event | EmpDeliver nat

fun emp_is_settle :: "emp_event \<Rightarrow> bool" where
  "emp_is_settle (LoadSettled _ _) = True"
| "emp_is_settle (AddSettled _ _) = True"
| "emp_is_settle (DeleteSettled _ _) = True"
| "emp_is_settle _ = False"

fun emp_answer :: "string \<Rightarrow> backend \<Rightarrow> nat \<Rightarrow> emp_pending \<Rightarrow> backend \<times> emp_event" where
  "emp_answer today b k EPLoad =
     (case serve_request today b (request_of GetEmployees) of
        (b', Inr (RespEmployees es)) \<Rightarrow> (b', LoadSettled k (Some es))
      | (b', _) \<Rightarrow> (b', LoadSettled k None))"
| "emp_answer today b k (EPAdd f) =
     (case serve_request today b (request_of (AddEmployee f)) of
        (b', Inl detail) \<Rightarrow> (b', AddSettled k (Inl detail))
      | (b', Inr _) \<Rightarrow> (b', AddSettled k (Inr ())))"
| "emp_answer today b k (EPDelete t) =
     (case serve_request today b (request_of (DeleteEmployee (employee_id t))) of
        (b', Inl detail) \<Rightarrow> (b', DeleteSettled k (Inl detail))
      | (b', Inr _) \<Rightarrow> (b', DeleteSettled k (Inr ())))"

fun emp_sys_step :: "string \<Rightarrow> emp_sys \<Rightarrow> emp_sys_event \<Rightarrow> emp_sys option" where
  "emp_sys_step today S (EmpUser ev) =
     (if emp_is_settle ev then None
      else map_option (\<lambda>s. S\<lparr>es_page := s\<rparr>) (emp_step (es_page S) ev))"
| "emp_sys_step today S (EmpDeliver k) =
     (if k < length (e_pending (es_page S))
      then (case emp_answer today (es_backend S) k (e_pending (es_page S) ! k) of
              (b', ev) \<Rightarrow> map_option (\<lambda>s. \<lparr>es_backend = b', es_page = s\<rparr>) (emp_step (es_page S) ev))
      else None)"

fun emp_sys_run :: "string \<Rightarrow> emp_sys \<Rightarrow> emp_sys_event list \<Rightarrow> emp_sys option" where
  "emp_sys_run today S [] = Some S"
| "emp_sys_run today S (e # es) =
     (case emp_sys_step today S e of None \<Rightarrow> None | Some S' \<Rightarrow> emp_sys_run today S' es)"

definition demo_emp_sys :: emp_sys where
  "demo_emp_sys = \<lparr>es_backend = \<lparr>b_employees = [demo_b], b_records = [], b_next_id = 1\<rparr>,
                    es_page = demo_idle\<lparr>e_delete_target := Some demo_b\<rparr>\<rparr>"

definition demo_add_sys :: emp_sys where
  "demo_add_sys = \<lparr>es_backend = \<lparr>b_employees = [], b_records = [], b_next_id = 1\<rparr>,
                    es_page = demo_idle\<lparr>e_show_add := True, e_form := demo_c\<rparr>\<rparr>"

definition demo_dup_sys :: emp_sys where
  "demo_dup_sys = \<lparr>es_backend = \<lparr>b_employees = [demo_c], b_records = [], b_next_id = 1\<rparr>,
                    es_page = demo_idle\<lparr>e_show_add := True, e_form := demo_c\<rparr>\<rparr>"

subsection \<open>Properties\<close>

text \<open>C28. Spec section 4.2 and section 8, fifth property, through the page: once the operator
  confirms the deletion of an employee the backend knows, whose identifier is URL-safe, and
  the backend answers the delete and then the reload it starts, the roster shown is the
  backend's, the employee is no longer on it, the dialog is closed and the success banner
  names the employee.\<close>

theorem emp_connected_delete_then_reload:
  assumes "e_pending (es_page S) = ps" and "e_delete_target (es_page S) = Some t"
    and "\<not> e_deleting (es_page S)" and "url_safe (employee_id t)"
    and "known (es_backend S) (employee_id t)"
  shows "\<exists>S'. emp_sys_run today S [EmpUser ConfirmDelete, EmpDeliver (length ps), EmpDeliver (length ps)] = Some S'
           \<and> e_employees (es_page S') = b_employees (es_backend S')
           \<and> \<not> list_ex (\<lambda>e. employee_id e = employee_id t) (e_employees (es_page S'))
           \<and> e_delete_target (es_page S') = None \<and> e_pending (es_page S') = ps
           \<and> e_success (es_page S') = ''Employee \"'' @ full_name t @ ''\" deleted.''"
  using assms
  by (simp add: handle_delete_def settle_delete_def emp_load_def settle_load_def serve_request_def
                list_ex_iff)

theorem emp_connected_delete_then_reload_witness:
  "\<exists>S'. emp_sys_run ''2024-01-10'' demo_emp_sys
          [EmpUser ConfirmDelete, EmpDeliver (length ([] :: emp_pending list)),
           EmpDeliver (length ([] :: emp_pending list))] = Some S'
        \<and> \<not> list_ex (\<lambda>e. employee_id e = employee_id demo_b) (e_employees (es_page S'))"
proof -
  have h: "e_pending (es_page demo_emp_sys) = []" "e_delete_target (es_page demo_emp_sys) = Some demo_b"
    "\<not> e_deleting (es_page demo_emp_sys)" "url_safe (employee_id demo_b)"
    "known (es_backend demo_emp_sys) (employee_id demo_b)"
    by (simp_all add: demo_emp_sys_def emp_demo_defs url_safe_def seg_ok_def url_unreserved_def known_def)
  from emp_connected_delete_then_reload [OF h, of "''2024-01-10''"] show ?thesis
    by blast
qed

text \<open>C29. Spec section 4.2, add, through the page: once the operator submits a valid form
  whose identifier the backend does not know, and the backend answers the add and then the
  reload it starts, the roster shown is the backend's and holds the new employee, and the
  form is closed and cleared.\<close>

theorem emp_connected_add_then_reload:
  assumes "e_pending (es_page S) = ps" and "e_show_add (es_page S)" and "\<not> e_saving (es_page S)"
    and "add_form_valid (e_form (es_page S))"
    and "\<not> known (es_backend S) (employee_id (e_form (es_page S)))"
  shows "\<exists>S'. emp_sys_run today S [EmpUser SubmitAdd, EmpDeliver (length ps), EmpDeliver (length ps)] = Some S'
           \<and> e_employees (es_page S') = b_employees (es_backend S')
           \<and> e_form (es_page S) \<in> set (e_employees (es_page S'))
           \<and> \<not> e_show_add (es_page S') \<and> e_form (es_page S') = empty_form \<and> e_pending (es_page S') = ps"
  using assms
  by (simp add: handle_add_def settle_add_def emp_load_def settle_load_def serve_request_def)

theorem emp_connected_add_then_reload_witness:
  "\<exists>S'. emp_sys_run ''2024-01-10'' demo_add_sys
          [EmpUser SubmitAdd, EmpDeliver (length ([] :: emp_pending list)),
           EmpDeliver (length ([] :: emp_pending list))] = Some S'
        \<and> e_form (es_page demo_add_sys) \<in> set (e_employees (es_page S'))"
proof -
  have h: "e_pending (es_page demo_add_sys) = []" "e_show_add (es_page demo_add_sys)"
    "\<not> e_saving (es_page demo_add_sys)" "add_form_valid (e_form (es_page demo_add_sys))"
    "\<not> known (es_backend demo_add_sys) (employee_id (e_form (es_page demo_add_sys)))"
    by (simp_all add: demo_add_sys_def emp_demo_defs add_form_valid_def email_shape_ok_def
                      DEPARTMENTS_def known_def)
  from emp_connected_add_then_reload [OF h, of "''2024-01-10''"] show ?thesis
    by blast
qed

text \<open>C30. Spec sections 4.2 and 7, a rejected add through the page: when the identifier
  submitted is one the backend knows, the backend refuses the add and changes nothing, and
  the modal stays open with the values entered and the backend's detail as the form's error,
  nothing else in flight.\<close>

theorem emp_connected_add_duplicate_kept:
  assumes "e_pending (es_page S) = ps" and "e_show_add (es_page S)" and "\<not> e_saving (es_page S)"
    and "add_form_valid (e_form (es_page S))"
    and "known (es_backend S) (employee_id (e_form (es_page S)))"
  shows "\<exists>S'. emp_sys_run today S [EmpUser SubmitAdd, EmpDeliver (length ps)] = Some S'
           \<and> es_backend S' = es_backend S \<and> e_show_add (es_page S')
           \<and> e_form (es_page S') = e_form (es_page S) \<and> e_employees (es_page S') = e_employees (es_page S)
           \<and> e_form_error (es_page S') = ''Employee ID already exists.'' \<and> e_pending (es_page S') = ps"
  using assms
  by (simp add: handle_add_def settle_add_def serve_request_def js_or_opt_def)

theorem emp_connected_add_duplicate_kept_witness:
  "\<exists>S'. emp_sys_run ''2024-01-10'' demo_dup_sys
          [EmpUser SubmitAdd, EmpDeliver (length ([] :: emp_pending list))] = Some S'
        \<and> e_form_error (es_page S') = ''Employee ID already exists.''"
proof -
  have h: "e_pending (es_page demo_dup_sys) = []" "e_show_add (es_page demo_dup_sys)"
    "\<not> e_saving (es_page demo_dup_sys)" "add_form_valid (e_form (es_page demo_dup_sys))"
    "known (es_backend demo_dup_sys) (employee_id (e_form (es_page demo_dup_sys)))"
    by (simp_all add: demo_dup_sys_def emp_demo_defs add_form_valid_def email_shape_ok_def
                      DEPARTMENTS_def known_def)
  from emp_connected_add_duplicate_kept [OF h, of "''2024-01-10''"] show ?thesis
    by blast
qed

end
