(* ===== verification/Spec2Isabelle.thy ===== *)
theory Spec2Isabelle
  imports Employees Dashboard ShellView Workflow Quiescence AttendanceView EmployeesDialog EmpConnected
begin

text \<open>
  Verification development of HRMS Lite, the React front end under \<open>src/frontend/src\<close>.
  The program is three pages (Dashboard, Employees, Attendance) inside a shell (router,
  navigation, theme), over a thin HTTP client. Each page keeps React state, issues requests
  on mount and on user actions, and stores the responses when their promises settle. The
  REST backend is not part of the repository; it is modelled from the spec (sections 3, 6
  and 8) so that the client's requests can be followed to their answers.

  \<^bold>\<open>Modelling discipline.\<close> A page is a record of its \<open>useState\<close> variables plus
  the list of its promises in flight, each holding what its continuation closed over
  (the selection, the form, the filter, the roster of that render). A user action and the
  settling of a promise are events; the page is a step function \<open>state \<Rightarrow> event \<Rightarrow>
  state option\<close> that answers \<open>None\<close> when the control is not rendered or is
  disabled, or when no promise of that kind is in flight at the index given. Any promise may
  settle next (\<open>take_pending\<close>), so every interleaving the browser allows is a run.
  Handlers are one definition each, with the code's guards and early returns; errors are
  values (\<open>Inl\<close> with the backend's optional \<open>detail\<close>). All recursion is
  structural (runs over event lists, \<open>fold\<close>, list scans, the URL's characters and
  segments) except \<open>sys_drain\<close>, whose termination is proved by a measure: no fuel and no bound is needed, every function
  is total and every definition executes.

  \<^bold>\<open>Theories.\<close>
  \<^item> \<open>Prelude\<close>: the JavaScript idioms the pages use (\<open>||\<close> on strings,
    \<open>??\<close>, ASCII \<open>toLowerCase\<close>, \<open>includes\<close> proved equal to
    \<open>Sublist.sublist\<close>, \<open>slice(0, n)\<close>) and the list of promises in flight
    (\<open>take_pending\<close>, with its multiset and membership lemmas).
  \<^item> \<open>Api\<close>: \<open>api/api.js\<close>. Entities of spec section 3, one definition per
    request function (\<open>getEmployees\<close> \<dots> \<open>getDashboardStats\<close>), the interface
    \<open>api_call\<close> with \<open>request_of\<close>, and what becomes of a request's URL on its way
    to the backend's route table (spec section 6): axios appends the parameters, the
    browser parses the URL by the WHATWG standard (trailing spaces and tabs stripped,
    fragment and query split off, backslash read as slash, dot segments resolved,
    \<open>browser_path\<close>), and the server percent-decodes the path before routing
    (\<open>url_parts\<close>, \<open>route\<close>). An identifier is URL-safe when it is a non-empty
    string of RFC 3986 unreserved characters other than \<open>.\<close> and \<open>..\<close>; no step
    alters such a segment. Round trip client/router for URL-safe identifiers (C4); for every
    other identifier of the kinds \<open>p?q\<close>, \<open>p#q\<close>, \<open>p%XY\<close>, \<open>a/b\<close> and
    \<open>..\<close> the backend deletes another employee or none (C5).
  \<^item> \<open>Attendance\<close>: \<open>pages/Attendance.jsx\<close>; \<open>att_state\<close>, the handlers
    \<open>loadRecords\<close>, \<open>handleSelectEmployee\<close>, \<open>handleFilterDate\<close>,
    \<open>handleMark\<close> and their continuations, the page as \<open>att_step\<close>, runs and
    reachable states (\<open>att_reach\<close>). Stale responses win (C1, C7); under honest
    responses and a quiet operator the records shown are the selected employee's (C2); the
    saving and loading flags against the promises in flight (C3, C8, C11); the handlers'
    branches (C6, C9, C10).
  \<^item> \<open>AttendanceView\<close>: the JSX of \<open>pages/Attendance.jsx\<close> as a function
    \<open>att_render\<close> of the page's state (banner, roster buttons, heading, mark button,
    records table, empty states).
  \<^item> \<open>Employees\<close>: \<open>pages/Employees.jsx\<close>; search, which narrows as the query
    grows (C12), add and delete with their modal flags (C14, C16--C19), the roster reload
    race (C15).
  \<^item> \<open>UI\<close>: \<open>components/UI.jsx\<close>, the presentational primitives (spinner,
    skeleton rows, empty state, banners, \<open>Modal\<close>, \<open>ConfirmDialog\<close>), with clicks
    followed through hit-testing and bubbling: the backdrop covers the modal's root, so a
    click outside the card never closes it, and the dialog's close button cancels even
    while the delete is in flight (C24).
  \<^item> \<open>EmployeesDialog\<close>: the Employees page's add modal and delete dialog wired
    through \<open>UI\<close>: a click becomes the page events its handlers run
    (\<open>emp_input_run\<close>). A delete's success clears whatever target is open, so it
    closes a dialog the operator opened meanwhile for another employee (C13).
  \<^item> \<open>Dashboard\<close>: \<open>pages/Dashboard.jsx\<close> and \<open>StatCard\<close>: the preview of
    five (C20) and the failure placeholders (C21).
  \<^item> \<open>Shell\<close>: \<open>App.jsx\<close>, \<open>components/Layout.jsx\<close>: theme persistence
    (C22), App's dead theme flag (C23), routes and active links.
  \<^item> \<open>ShellView\<close>: Layout's JSX as \<open>layout_render\<close>: the links, the theme
    button and the routed view; the button's icon names the mode a click switches to.
  \<^item> \<open>Backend\<close> (from the spec): the roster and the records, \<open>serve\<close> for each
    call and \<open>serve_request\<close> after routing; its contract \<open>backend_ok\<close>
    ((employee, date) unique) is kept by every call.
  \<^item> \<open>Connected\<close>: the Attendance page wired to the backend; a promise settles with
    the backend's answer to the requests it stands for (\<open>answer\<close>,
    \<open>sys_step\<close>). The backend serves a promise's requests when the promise settles,
    so every order of service is a run; this serves a request and delivers its answer in
    one step, which leaves out runs in which a response computed before a mutation is
    delivered after it (no property below depends on such a run being absent: the
    mutations, marks, are followed by a reload the page waits for).
  \<^item> \<open>EmpConnected\<close>: the Employees page wired to the backend in the same way
    (\<open>emp_answer\<close>, \<open>emp_sys_step\<close>): a confirmed delete of a known, URL-safe
    identifier followed by its reload leaves the employee off the roster shown (C28, spec
    section 8, fifth property); an employee added is on the roster after its reload (C29);
    an add the backend refuses keeps the form with the backend's detail (C30).
  \<^item> \<open>Workflow\<close>: the state machine of spec section 4.1 (\<open>wf_step\<close>: no
    selection, records loading for an employee and a filter, loaded, filtered, with the
    orthogonal submitting flag) and its refinement by \<open>att_step\<close> through
    \<open>att_abs\<close>, for runs of a serial operator (\<open>att_serial_reach\<close>), with the
    invariant of those runs (\<open>att_serial_ok\<close>: loading exactly while the one fetch is in
    flight, fetch and mark never together, each for the selection and the active filter) (C31).
  \<^item> \<open>Quiescence\<close>: \<open>sys_drain\<close>, the backend answering the oldest promise
    until none is left, a \<open>function\<close> whose termination measure is the work owed
    (\<open>pend_measure\<close>: two per mark, whose success starts a reload, one per other
    promise). It ends within that many answers (C32) and leaves every reachable page at
    rest, no flag up (C33).
  \<^item> This theory: the properties of the Attendance page against the backend. In connected
    runs with a quiet operator and URL-safe identifiers the page shows only the selected
    employee's records (C25, spec section 8, first property); a successful mark followed by
    its reload shows the record (C26, second property); for an identifier \<open>p?q\<close> or
    \<open>p#q\<close> the page shows \<open>p\<close>'s records under that selection (C27).

  \<^bold>\<open>Not modelled.\<close> Visual markup and styling; the weekday column (render only);
  axios' joining of the base URL (every request goes to \<open>api_base\<close>); the Unicode
  part of \<open>toLowerCase\<close> (the model lowers ASCII only) and of percent-decoding (a
  decoded byte is one character); the full HTML e-mail pattern (the model checks the
  \<open>a@b\<close> shape the form's type enforces); \<open>main.jsx\<close> (mounting only); timing,
  which the model replaces by free interleaving of settle events; the icons, which are
  named (\<open>''calendar''\<close>) rather than drawn, and the random widths of the skeleton
  rows; keyboard focus, which can reach a page's controls behind an open modal (the model
  offers only the modal's controls then). Navigation discards a page's state (the page is
  mounted afresh from its \<open>init\<close>).
\<close>

section \<open>Demonstration data\<close>

definition demo_backend :: backend where
  "demo_backend = \<lparr>b_employees = [demo_asha], b_records = [demo_rec], b_next_id = 2\<rparr>"

definition demo_mark_form :: mark_form where
  "demo_mark_form = \<lparr>form_date = ''2024-01-11'', form_status = Absent\<rparr>"

definition demo_e1 :: employee where
  "demo_e1 = \<lparr>employee_id = ''E1'', full_name = ''Eve One'', email = ''eve@x.com'', department = ''HR''\<rparr>"

definition demo_e1x :: employee where
  "demo_e1x = \<lparr>employee_id = ''E1?x'', full_name = ''Ed Query'', email = ''ed@x.com'', department = ''HR''\<rparr>"

definition demo_e1_rec :: att_record where
  "demo_e1_rec = \<lparr>rec_id = 7, rec_employee = ''E1'', rec_date = ''2024-01-09'', rec_status = Absent\<rparr>"

section \<open>The Attendance page against the backend\<close>

text \<open>C25. Spec section 8, first property, end to end: in every run of the Attendance page
  against a backend keeping its contract, whose employee identifiers are URL-safe, in which the
  operator does not select while a records request or a mark is in flight, the records shown
  all belong to the selected employee, and the backend keeps its contract.\<close>

theorem connected_records_of_selected:
  "sys_reach_ok today S \<Longrightarrow>
     list_all (\<lambda>r. rec_employee r = a_selected (sys_page S)) (a_records (sys_page S)) \<and>
     backend_ok (sys_backend S)"
  by (drule sys_reach_ok_inv) (auto dest: att_reach_ok_consistent simp: att_consistent_def)

theorem connected_records_of_selected_witness:
  "\<exists>S. sys_reach_ok ''2024-01-10'' S \<and> a_selected (sys_page S) = ''EMP001''
       \<and> a_records (sys_page S) = [demo_rec]
       \<and> list_all (\<lambda>r. rec_employee r = a_selected (sys_page S)) (a_records (sys_page S))"
proof -
  let ?S0 = "\<lparr>sys_backend = demo_backend, sys_page = att_init ''2024-01-10''\<rparr>"
  have r0: "sys_reach_ok ''2024-01-10'' ?S0"
    by (rule sys_reach_ok.init) (simp_all add: backend_ok_def ids_safe_def demo_backend_def demo_defs demo_rec_def url_safe_def seg_ok_def url_unreserved_def)
  obtain S1 where s1: "sys_step ''2024-01-10'' ?S0 (Deliver 0) = Some S1"
    and S1: "a_employees (sys_page S1) = [demo_asha]" "a_pending (sys_page S1) = []" "\<not> a_loading_emps (sys_page S1)"
      "sys_backend S1 = demo_backend"
    by (simp add: demo_backend_def serve_request_def att_init_def settle_employees_def)
  have r1: "sys_reach_ok ''2024-01-10'' S1" by (rule sys_reach_ok.step [OF r0 _ s1]) simp
  obtain S2 where s2: "sys_step ''2024-01-10'' S1 (UserAct (SelectEmployee ''EMP001'')) = Some S2"
    and S2: "a_pending (sys_page S2) = [PLoad ''EMP001'' []]" "a_selected (sys_page S2) = ''EMP001''"
      "sys_backend S2 = sys_backend S1"
    using S1 by (simp add: roster_offers_def demo_asha_def handle_select_employee_def load_records_def)
  have r2: "sys_reach_ok ''2024-01-10'' S2"
    by (rule sys_reach_ok.step [OF r1 _ s2]) (simp add: att_quiet_def S1)
  obtain S3 where s3: "sys_step ''2024-01-10'' S2 (Deliver 0) = Some S3"
    and S3: "a_records (sys_page S3) = [demo_rec]" "a_selected (sys_page S3) = ''EMP001''"
    using S2 S1 by (simp add: answer_load url_safe_def seg_ok_def url_unreserved_def known_def records_of_def demo_backend_def demo_defs
                              demo_rec_def settle_records_def del: answer.simps)
  have r3: "sys_reach_ok ''2024-01-10'' S3" by (rule sys_reach_ok.step [OF r2 _ s3]) simp
  show ?thesis using connected_records_of_selected [OF r3] r3 S3 by auto
qed

text \<open>C26. Spec section 8, second property, on the page: when the backend accepts a mark
  (known employee, no record for that date yet), the mark's promise settles with the
  success message, the reload it triggers settles with the backend's records, and when the
  active filter is empty or the marked date the page shows the marked record, with the
  summary of the backend's full history.\<close>

theorem connected_mark_then_reload_shows_record:
  assumes tp: "take_pending k (a_pending (sys_page S)) = Some (PMark e f filt emps, ps)"
    and u: "url_safe e" and kn: "known (sys_backend S) e"
    and fresh: "records_of (sys_backend S) e (Some (form_date f)) = []"
    and flt: "filt = [] \<or> filt = form_date f"
  shows "\<exists>S1 S2. sys_step today S (Deliver k) = Some S1 \<and> sys_step today S1 (Deliver (length ps)) = Some S2
           \<and> a_success (sys_page S1) = mark_success_msg e f emps
           \<and> list_ex (\<lambda>r. rec_employee r = e \<and> rec_date r = form_date f \<and> rec_status r = form_status f)
                     (a_records (sys_page S2))
           \<and> a_summary (sys_page S2) = Some (summary_of (records_of (sys_backend S2) e None))"
proof -
  let ?b = "sys_backend S" and ?s = "sys_page S"
  define r where "r = \<lparr>rec_id = b_next_id ?b, rec_employee = e, rec_date = form_date f, rec_status = form_status f\<rparr>"
  define b' where "b' = ?b\<lparr>b_records := b_records ?b @ [r], b_next_id := Suc (b_next_id ?b)\<rparr>"
  define s1 where "s1 = settle_mark e f filt emps (Inr ()) (?s\<lparr>a_pending := ps\<rparr>)"
  have k: "k < length (a_pending ?s)" "a_pending ?s ! k = PMark e f filt emps"
    using tp by (auto simp: take_pending_def split: if_splits)
  have a1: "answer today ?b k (PMark e f filt emps) = (b', MarkSettled k (Inr ()))"
    using kn fresh by (simp add: answer_mark b'_def r_def Let_def del: answer.simps)
  have st1: "sys_step today S (Deliver k) = Some \<lparr>sys_backend = b', sys_page = s1\<rparr>"
    using k a1 tp by (simp add: s1_def del: answer.simps)
  have p1: "a_pending s1 = ps @ [PLoad e filt]" and ok1: "a_success s1 = mark_success_msg e f emps"
    using url_safe_nonempty [OF u] by (simp_all add: s1_def settle_mark_def load_records_def)
  have kn': "known b' e" using kn by (simp add: b'_def known_def)
  have a2: "answer today b' (length ps) (PLoad e filt) =
      (b', RecordsSettled (length ps) (Some (records_of b' e (if filt = [] then None else Some filt),
                                             summary_of (records_of b' e None))))"
    using answer_load [OF u] kn' by (simp del: answer.simps)
  define s2 where "s2 = settle_records (Some (records_of b' e (if filt = [] then None else Some filt),
                                             summary_of (records_of b' e None))) (s1\<lparr>a_pending := ps\<rparr>)"
  have st2: "sys_step today \<lparr>sys_backend = b', sys_page = s1\<rparr> (Deliver (length ps)) =
               Some \<lparr>sys_backend = b', sys_page = s2\<rparr>"
    using a2 p1 by (simp add: s2_def del: answer.simps)
  have "r \<in> set (records_of b' e (if filt = [] then None else Some filt))"
    using flt by (auto simp: records_of_def b'_def r_def)
  then have "list_ex (\<lambda>x. rec_employee x = e \<and> rec_date x = form_date f \<and> rec_status x = form_status f)
                     (a_records s2)"
    unfolding list_ex_iff by (intro bexI [of _ r]) (simp_all add: r_def s2_def settle_records_def)
  moreover have "a_summary s2 = Some (summary_of (records_of b' e None))"
    by (simp add: s2_def settle_records_def)
  ultimately show ?thesis using st1 st2 ok1 by fastforce
qed

theorem connected_mark_then_reload_shows_record_witness:
  "\<exists>S1 S2.
     sys_step ''2024-01-11'' \<lparr>sys_backend = demo_backend,
         sys_page = demo_selected\<lparr>a_pending := [PMark ''EMP001'' demo_mark_form [] [demo_asha]]\<rparr>\<rparr> (Deliver 0) = Some S1
     \<and> sys_step ''2024-01-11'' S1 (Deliver 0) = Some S2
     \<and> list_ex (\<lambda>r. rec_employee r = ''EMP001'' \<and> rec_date r = ''2024-01-11'' \<and> rec_status r = Absent)
               (a_records (sys_page S2))"
proof -
  let ?S = "\<lparr>sys_backend = demo_backend,
             sys_page = demo_selected\<lparr>a_pending := [PMark ''EMP001'' demo_mark_form [] [demo_asha]]\<rparr>\<rparr>"
  have tp: "take_pending 0 (a_pending (sys_page ?S)) = Some (PMark ''EMP001'' demo_mark_form [] [demo_asha], [])"
    by simp
  have u: "url_safe ''EMP001''" by (simp add: url_safe_def seg_ok_def url_unreserved_def)
  have kn: "known (sys_backend ?S) ''EMP001''" by (simp add: known_def demo_backend_def demo_defs)
  have fr: "records_of (sys_backend ?S) ''EMP001'' (Some (form_date demo_mark_form)) = []"
    by (simp add: records_of_def demo_backend_def demo_rec_def demo_mark_form_def)
  have fl: "([] :: string) = [] \<or> [] = form_date demo_mark_form" by simp
  obtain S1 S2 where s1: "sys_step ''2024-01-11'' ?S (Deliver 0) = Some S1"
    and s2: "sys_step ''2024-01-11'' S1 (Deliver (length ([] :: att_pending list))) = Some S2"
    and l: "list_ex (\<lambda>r. rec_employee r = ''EMP001'' \<and> rec_date r = form_date demo_mark_form
                        \<and> rec_status r = form_status demo_mark_form) (a_records (sys_page S2))"
    using connected_mark_then_reload_shows_record [OF tp u kn fr fl, of "''2024-01-11''"] by blast
  have s2': "sys_step ''2024-01-11'' S1 (Deliver 0) = Some S2" using s2 by (simp only: list.size)
  have l': "list_ex (\<lambda>r. rec_employee r = ''EMP001'' \<and> rec_date r = ''2024-01-11'' \<and> rec_status r = Absent)
              (a_records (sys_page S2))"
    using l by (simp add: demo_mark_form_def)
  from s1 s2' l' show ?thesis by blast
qed

text \<open>C27. The hypothesis of C25 on identifiers is needed. For every URL-safe \<open>p\<close>
  the backend knows and every \<open>q\<close>, when the records request of an employee
  \<open>p?q\<close> (or \<open>p#q\<close>) settles, which the page issues on selecting that employee, the
  backend has served it as the records and the summary of \<open>p\<close>: the page shows
  \<open>p\<close>'s records and summary under the selection it had.\<close>

theorem connected_unencoded_id_shows_other_records:
  assumes tp: "take_pending k (a_pending (sys_page S)) = Some (PLoad (p @ x # q) [], ps)"
    and u: "url_safe p" and x: "x \<in> {CHR ''?'', CHR ''#''}" and kn: "known (sys_backend S) p"
  shows "\<exists>S'. sys_step today S (Deliver k) = Some S'
           \<and> a_selected (sys_page S') = a_selected (sys_page S)
           \<and> list_all (\<lambda>r. rec_employee r = p) (a_records (sys_page S'))
           \<and> a_summary (sys_page S') = Some (summary_of (records_of (sys_backend S) p None))"
proof -
  obtain d where a: "answer today (sys_backend S) k (PLoad (p @ x # q) []) =
      (sys_backend S, RecordsSettled k (Some (records_of (sys_backend S) p d,
                                              summary_of (records_of (sys_backend S) p None))))"
    using answer_load_cut [OF u x, of today "sys_backend S" k q] kn by auto
  have k: "k < length (a_pending (sys_page S))" "a_pending (sys_page S) ! k = PLoad (p @ x # q) []"
    using tp by (auto simp: take_pending_def split: if_splits)
  show ?thesis
    using k a tp by (simp add: settle_records_def records_of_def list_all_iff del: answer.simps)
qed

theorem connected_unencoded_id_shows_other_records_witness:
  "\<exists>S'. sys_step ''2024-01-10''
          \<lparr>sys_backend = \<lparr>b_employees = [demo_e1x, demo_e1], b_records = [demo_e1_rec], b_next_id = 8\<rparr>,
           sys_page = (att_init ''2024-01-10'')\<lparr>a_employees := [demo_e1x, demo_e1], a_loading_emps := False,
                        a_selected := ''E1?x'', a_loading_recs := True, a_pending := [PLoad ''E1?x'' []]\<rparr>\<rparr>
          (Deliver 0) = Some S'
        \<and> a_selected (sys_page S') = ''E1?x'' \<and> list_all (\<lambda>r. rec_employee r = ''E1'') (a_records (sys_page S'))"
proof -
  let ?S = "\<lparr>sys_backend = \<lparr>b_employees = [demo_e1x, demo_e1], b_records = [demo_e1_rec], b_next_id = 8\<rparr>,
           sys_page = (att_init ''2024-01-10'')\<lparr>a_employees := [demo_e1x, demo_e1], a_loading_emps := False,
                        a_selected := ''E1?x'', a_loading_recs := True, a_pending := [PLoad ''E1?x'' []]\<rparr>\<rparr>"
  have tp: "take_pending 0 (a_pending (sys_page ?S)) = Some (PLoad (''E1'' @ CHR ''?'' # ''x'') [], [])"
    by simp
  have u: "url_safe ''E1''" by (simp add: url_safe_def seg_ok_def url_unreserved_def)
  have x: "CHR ''?'' \<in> {CHR ''?'', CHR ''#''}" by simp
  have kn: "known (sys_backend ?S) ''E1''" by (simp add: known_def demo_e1_def)
  obtain S' where st: "sys_step ''2024-01-10'' ?S (Deliver 0) = Some S'"
    and sel: "a_selected (sys_page S') = a_selected (sys_page ?S)"
    and l: "list_all (\<lambda>r. rec_employee r = ''E1'') (a_records (sys_page S'))"
    using connected_unencoded_id_shows_other_records [OF tp u x kn, of "''2024-01-10''"] by blast
  have "a_selected (sys_page S') = ''E1?x''" using sel by simp
  with st l show ?thesis by blast
qed

end
